(* ===== verification/Prelude.thy ===== *)
theory Prelude
  imports Main "HOL-Library.List_Lexorder" "HOL-Library.Char_ord" "HOL-Library.Product_Lexorder"
begin

text \<open>
  Shared vocabulary of the development: fallible computations as sums, relational tables as
  lists of rows in insertion order, the SQL statements the stores issue on them (select one
  row, filtered update, filtered delete, insertion under a constraint, "latest row first"
  selection), the string helpers of the Rust standard library the sources use, and the
  transition systems whose invariants the stores maintain.

  Conventions.  A Rust \<open>Result<T, E>\<close> is a sum \<open>'e + 'a\<close> with \<open>Inl\<close> the error.  A store
  operation is a function from the database to \<open>'e + ('a \<times> db)\<close>; an error is a rolled back
  transaction, so the database of the caller is unchanged.  A timestamp is a natural number of
  seconds; random identifiers (UUIDs) and the clock are arguments of the operations.
\<close>

named_theorems err_simps "rules that open sums of fallible computations"
named_theorems tab_simps "rules for tables"

subsection \<open>Fallible computations\<close>

definition ebind :: "'e + 'a \<Rightarrow> ('a \<Rightarrow> 'e + 'b) \<Rightarrow> 'e + 'b" where
  "ebind m f = (case m of Inl e \<Rightarrow> Inl e | Inr x \<Rightarrow> f x)"

definition guard :: "bool \<Rightarrow> 'e \<Rightarrow> 'e + unit" where
  "guard c e = (if c then Inr () else Inl e)"

definition opt_err :: "'e \<Rightarrow> 'a option \<Rightarrow> 'e + 'a" where
  "opt_err e m = (case m of None \<Rightarrow> Inl e | Some x \<Rightarrow> Inr x)"

lemma ebind_simps [simp, err_simps]:
  "ebind (Inl e) f = Inl e"
  "ebind (Inr x) f = f x"
  by (simp_all add: ebind_def)

lemma ebind_Inr_iff [err_simps]: "ebind m f = Inr y \<longleftrightarrow> (\<exists>x. m = Inr x \<and> f x = Inr y)"
  by (cases m) (auto simp: ebind_def)

lemma ebind_Inl_iff [err_simps]:
  "ebind m f = Inl e \<longleftrightarrow> m = Inl e \<or> (\<exists>x. m = Inr x \<and> f x = Inl e)"
  by (cases m) (auto simp: ebind_def)

lemma ebind_assoc: "ebind (ebind m f) g = ebind m (\<lambda>x. ebind (f x) g)"
  by (cases m) auto

lemma guard_simps [simp, err_simps]:
  "guard True e = Inr ()"
  "guard False e = Inl e"
  by (simp_all add: guard_def)

lemma guard_Inr_iff [err_simps]: "guard c e = Inr u \<longleftrightarrow> c"
  by (simp add: guard_def)

lemma guard_Inl_iff [err_simps]: "guard c e = Inl e' \<longleftrightarrow> \<not> c \<and> e' = e"
  by (auto simp: guard_def)

lemma opt_err_simps [simp, err_simps]:
  "opt_err e None = Inl e"
  "opt_err e (Some x) = Inr x"
  by (simp_all add: opt_err_def)

lemma opt_err_Inr_iff [err_simps]: "opt_err e m = Inr x \<longleftrightarrow> m = Some x"
  by (cases m) auto

lemma opt_err_Inl_iff [err_simps]: "opt_err e m = Inl e' \<longleftrightarrow> m = None \<and> e' = e"
  by (cases m) auto

lemma if_Inr_iff [err_simps]: "(if c then Inl e else m) = Inr x \<longleftrightarrow> \<not> c \<and> m = Inr x"
  by simp

fun emap :: "('a \<Rightarrow> 'e + 'b) \<Rightarrow> 'a list \<Rightarrow> 'e + 'b list" where
  "emap f [] = Inr []"
| "emap f (x # xs) = ebind (f x) (\<lambda>y. ebind (emap f xs) (\<lambda>ys. Inr (y # ys)))"

lemma emap_length: "emap f xs = Inr ys \<Longrightarrow> length ys = length xs"
  by (induction xs arbitrary: ys) (auto simp: err_simps)

lemma emap_Inr_nth: "emap f xs = Inr ys \<Longrightarrow> i < length xs \<Longrightarrow> f (xs ! i) = Inr (ys ! i)"
  by (induction xs arbitrary: ys i) (auto simp: err_simps nth_Cons split: nat.splits)

lemma emap_set: "emap f xs = Inr ys \<Longrightarrow> y \<in> set ys \<Longrightarrow> \<exists>x\<in>set xs. f x = Inr y"
  by (induction xs arbitrary: ys) (auto simp: err_simps)

subsection \<open>Tables\<close>

definition row_of :: "('r \<Rightarrow> 'k) \<Rightarrow> 'k \<Rightarrow> 'r list \<Rightarrow> 'r option" where
  "row_of key k rows = find (\<lambda>r. key r = k) rows"

definition update_where :: "('r \<Rightarrow> bool) \<Rightarrow> ('r \<Rightarrow> 'r) \<Rightarrow> 'r list \<Rightarrow> 'r list" where
  "update_where P f rows = map (\<lambda>r. if P r then f r else r) rows"

definition changed :: "('r \<Rightarrow> bool) \<Rightarrow> 'r list \<Rightarrow> nat" where
  "changed P rows = length (filter P rows)"

definition delete_where :: "('r \<Rightarrow> bool) \<Rightarrow> 'r list \<Rightarrow> 'r list" where
  "delete_where P rows = filter (\<lambda>r. \<not> P r) rows"

definition count_where :: "('r \<Rightarrow> bool) \<Rightarrow> 'r list \<Rightarrow> nat" where
  "count_where P rows = length (filter P rows)"

definition unique_key :: "('r \<Rightarrow> 'k) \<Rightarrow> 'r list \<Rightarrow> bool" where
  "unique_key key rows = distinct (map key rows)"

definition has_key :: "('r \<Rightarrow> 'k) \<Rightarrow> 'k \<Rightarrow> 'r list \<Rightarrow> bool" where
  "has_key key k rows = list_ex (\<lambda>r. key r = k) rows"

text \<open>A nullable foreign key column holds NULL or an existing key.\<close>

definition has_key_opt :: "('r \<Rightarrow> 'k) \<Rightarrow> 'k option \<Rightarrow> 'r list \<Rightarrow> bool" where
  "has_key_opt key k rows = (case k of None \<Rightarrow> True | Some x \<Rightarrow> has_key key x rows)"

text \<open>\<open>ORDER BY k DESC LIMIT 1\<close>: a row with the greatest key (the first such row).\<close>

fun best_by :: "('r \<Rightarrow> 'k::linorder) \<Rightarrow> 'r list \<Rightarrow> 'r option" where
  "best_by k [] = None"
| "best_by k (r # rs) =
    (case best_by k rs of None \<Rightarrow> Some r | Some s \<Rightarrow> if k s > k r then Some s else Some r)"

definition latest :: "('r \<Rightarrow> 'k::linorder) \<Rightarrow> ('r \<Rightarrow> bool) \<Rightarrow> 'r list \<Rightarrow> 'r option" where
  "latest k P rows = best_by k (filter P rows)"

lemma best_by_None [simp]: "best_by k rs = None \<longleftrightarrow> rs = []"
  by (induction rs) (auto split: option.splits)

lemma best_by_Some:
  "best_by k rs = Some r \<Longrightarrow> r \<in> set rs \<and> (\<forall>s\<in>set rs. k s \<le> k r)"
proof (induction rs arbitrary: r)
  case Nil
  then show ?case by simp
next
  case (Cons a rs)
  show ?case
  proof (cases "best_by k rs")
    case None
    then show ?thesis using Cons.prems by simp
  next
    case (Some s)
    then show ?thesis using Cons by (auto split: if_splits dest: order_trans less_imp_le)
  qed
qed

lemma latest_None [simp]: "latest k P rows = None \<longleftrightarrow> (\<forall>r\<in>set rows. \<not> P r)"
  by (simp add: latest_def filter_empty_conv)

lemma latest_SomeD:
  assumes "latest k P rows = Some r"
  shows "r \<in> set rows" "P r" "\<And>s. s \<in> set rows \<Longrightarrow> P s \<Longrightarrow> k s \<le> k r"
  using best_by_Some [OF assms [unfolded latest_def]] by auto

subsection \<open>Laws of the table statements\<close>

lemma update_where_set [tab_simps]:
  "set (update_where P f rows) = (\<lambda>r. if P r then f r else r) ` set rows"
  by (auto simp: update_where_def)

lemma ball_update_where [tab_simps]:
  "(\<forall>r\<in>set (update_where P f rows). Q r) \<longleftrightarrow> (\<forall>r\<in>set rows. (P r \<longrightarrow> Q (f r)) \<and> (\<not> P r \<longrightarrow> Q r))"
  by (auto simp: update_where_def)

lemma length_update_where [simp]: "length (update_where P f rows) = length rows"
  by (simp add: update_where_def)

lemma map_key_update_where:
  "(\<And>r. key (f r) = key r) \<Longrightarrow> map key (update_where P f rows) = map key rows"
  by (simp add: update_where_def)

lemma map_key_update_where':
  "(\<And>r. r \<in> set rows \<Longrightarrow> P r \<Longrightarrow> key (f r) = key r)
   \<Longrightarrow> map key (update_where P f rows) = map key rows"
  by (simp add: update_where_def)

lemma unique_key_update_where [tab_simps]:
  "(\<And>r. key (f r) = key r) \<Longrightarrow> unique_key key (update_where P f rows) = unique_key key rows"
  by (simp add: unique_key_def map_key_update_where)

lemma has_key_iff: "has_key key k rows \<longleftrightarrow> (\<exists>r\<in>set rows. key r = k)"
  by (simp add: has_key_def list_ex_iff)

lemma has_key_update_where [tab_simps]:
  "(\<And>r. key (f r) = key r) \<Longrightarrow> has_key key k (update_where P f rows) = has_key key k rows"
  by (auto simp: has_key_iff update_where_def)

lemma has_key_opt_update_where [tab_simps]:
  "(\<And>r. key (f r) = key r) \<Longrightarrow> has_key_opt key k (update_where P f rows) = has_key_opt key k rows"
  by (auto simp: has_key_opt_def has_key_update_where split: option.split)

lemma has_key_append [simp]: "has_key key k (xs @ ys) \<longleftrightarrow> has_key key k xs \<or> has_key key k ys"
  by (auto simp: has_key_iff)

lemma has_key_Nil [simp]: "has_key key k [] \<longleftrightarrow> False"
  by (simp add: has_key_def)

lemma has_key_Cons [simp]: "has_key key k (x # xs) \<longleftrightarrow> key x = k \<or> has_key key k xs"
  by (simp add: has_key_def)

lemma has_key_opt_None [simp]: "has_key_opt key None rows"
  by (simp add: has_key_opt_def)

lemma has_key_opt_Some [simp]: "has_key_opt key (Some k) rows = has_key key k rows"
  by (simp add: has_key_opt_def)

lemma has_key_appendI: "has_key key k xs \<Longrightarrow> has_key key k (xs @ ys)"
  by simp

lemma has_key_opt_appendI [intro]:
  "has_key_opt key k xs \<Longrightarrow> has_key_opt key k (xs @ ys)"
  by (cases k) auto

lemma unique_key_Nil [simp]: "unique_key key []"
  by (simp add: unique_key_def)

lemma unique_key_append1 [simp]:
  "unique_key key (rows @ [r]) \<longleftrightarrow> unique_key key rows \<and> \<not> has_key key (key r) rows"
  by (force simp: unique_key_def has_key_iff image_iff)

lemma unique_key_delete_where: "unique_key key rows \<Longrightarrow> unique_key key (delete_where P rows)"
  by (simp add: unique_key_def delete_where_def distinct_map_filter)

lemma set_delete_where [tab_simps]: "set (delete_where P rows) = {r \<in> set rows. \<not> P r}"
  by (simp add: delete_where_def)

lemma has_key_delete_where [tab_simps]:
  "has_key key k (delete_where P rows) \<longleftrightarrow> (\<exists>r\<in>set rows. key r = k \<and> \<not> P r)"
  by (auto simp: has_key_iff delete_where_def)

lemma changed_0 [simp]: "changed P rows = 0 \<longleftrightarrow> (\<forall>r\<in>set rows. \<not> P r)"
  by (simp add: changed_def filter_empty_conv)

lemma changed_pos: "0 < changed P rows \<longleftrightarrow> (\<exists>r\<in>set rows. P r)"
  by (auto simp: changed_def filter_empty_conv)

lemma count_where_0 [simp]: "count_where P rows = 0 \<longleftrightarrow> (\<forall>r\<in>set rows. \<not> P r)"
  by (simp add: count_where_def filter_empty_conv)

lemma count_where_append [simp]: "count_where P (xs @ ys) = count_where P xs + count_where P ys"
  by (simp add: count_where_def)

lemma count_where_simps [simp]:
  "count_where P [] = 0"
  "count_where P (x # xs) = (if P x then Suc (count_where P xs) else count_where P xs)"
  by (simp_all add: count_where_def)

lemma count_where_update_same [tab_simps]:
  "(\<And>r. r \<in> set rows \<Longrightarrow> P r \<Longrightarrow> Q (f r) = Q r)
   \<Longrightarrow> count_where Q (update_where P f rows) = count_where Q rows"
  by (induction rows) (auto simp: update_where_def)

lemma count_where_mono: "(\<And>r. r \<in> set rows \<Longrightarrow> P r \<Longrightarrow> Q r) \<Longrightarrow> count_where P rows \<le> count_where Q rows"
  by (induction rows) auto

lemma count_where_cong: "(\<And>r. r \<in> set rows \<Longrightarrow> P r = Q r) \<Longrightarrow> count_where P rows = count_where Q rows"
  by (induction rows) auto

lemma find_SomeD: "find P xs = Some x \<Longrightarrow> x \<in> set xs \<and> P x"
  by (auto simp: find_Some_iff)

lemma row_of_SomeD: "row_of key k rows = Some r \<Longrightarrow> r \<in> set rows \<and> key r = k"
  by (auto simp: row_of_def find_Some_iff)

lemma row_of_None: "row_of key k rows = None \<longleftrightarrow> \<not> has_key key k rows"
  by (auto simp: row_of_def find_None_iff has_key_iff)

lemma row_of_exists: "has_key key k rows \<Longrightarrow> \<exists>r. row_of key k rows = Some r"
  by (metis not_None_eq row_of_None)

lemma row_of_unique:
  "unique_key key rows \<Longrightarrow> r \<in> set rows \<Longrightarrow> row_of key (key r) rows = Some r"
proof (induction rows)
  case Nil
  then show ?case by simp
next
  case (Cons a rows)
  then show ?case
    by (auto simp: unique_key_def row_of_def image_iff)
qed

lemma unique_key_eqD: "unique_key key rows \<Longrightarrow> r \<in> set rows \<Longrightarrow> s \<in> set rows \<Longrightarrow> key r = key s \<Longrightarrow> r = s"
  by (metis option.inject row_of_unique)

lemma row_of_append: "row_of key k (xs @ ys) = (case row_of key k xs of None \<Rightarrow> row_of key k ys | Some r \<Rightarrow> Some r)"
  by (induction xs) (auto simp: row_of_def)

lemma row_of_update_where:
  "(\<And>r. key (f r) = key r) \<Longrightarrow>
   row_of key k (update_where P f rows) = map_option (\<lambda>r. if P r then f r else r) (row_of key k rows)"
  by (induction rows) (auto simp: row_of_def update_where_def)

text \<open>The rows a table keeps under an update of one row, identified by its key.\<close>

lemma changed_by_key:
  "unique_key key rows \<Longrightarrow> changed (\<lambda>r. key r = k) rows = (if has_key key k rows then 1 else 0)"
  by (induction rows) (auto simp: changed_def unique_key_def has_key_iff filter_empty_conv image_iff)

subsection \<open>Strings\<close>

text \<open>
  A Rust string is the list of its characters.  HOL characters range over the 256 scalars of
  Latin-1, which includes every character the sources test for; \<open>ws\<close> is
  \<open>char::is_whitespace\<close> on that range.
\<close>

definition ws :: "char \<Rightarrow> bool" where
  "ws c = (of_char c \<in> {9, 10, 11, 12, 13, 32, 133, 160 :: nat})"

definition trim :: "string \<Rightarrow> string" where
  "trim s = rev (dropWhile ws (rev (dropWhile ws s)))"

text \<open>\<open>value.map(str::trim).filter(|value| !value.is_empty())\<close>\<close>

definition trim_nonempty :: "string option \<Rightarrow> string option" where
  "trim_nonempty m = (case m of None \<Rightarrow> None
     | Some s \<Rightarrow> if trim s = [] then None else Some (trim s))"

lemma dropWhile_rev_dropWhile_hd:
  "dropWhile P xs = xs \<Longrightarrow> dropWhile P (rev (dropWhile P (rev xs))) = rev (dropWhile P (rev xs))"
proof (cases xs)
  case (Cons a ys)
  assume "dropWhile P xs = xs"
  then have a: "\<not> P a" using Cons by (metis dropWhile_eq_Cons_conv)
  have "dropWhile P (rev ys @ [a]) = (dropWhile P (rev ys)) @ [a]
      \<or> dropWhile P (rev ys @ [a]) = [a]"
    using a by (metis dropWhile_append dropWhile_append3)
  then show ?thesis using a Cons by auto
qed simp

lemma trim_idem [simp]: "trim (trim s) = trim s"
  unfolding trim_def
  by (simp add: dropWhile_rev_dropWhile_hd)

subsection \<open>Transition systems\<close>

inductive reaches :: "('s \<Rightarrow> 's \<Rightarrow> bool) \<Rightarrow> 's \<Rightarrow> 's \<Rightarrow> bool" for step where
  reaches_refl: "reaches step s s"
| reaches_step: "reaches step s t \<Longrightarrow> step t u \<Longrightarrow> reaches step s u"

lemma reaches_trans: "reaches step t u \<Longrightarrow> reaches step s t \<Longrightarrow> reaches step s u"
  by (induction rule: reaches.induct) (auto intro: reaches.intros)

lemma reaches_one: "step s t \<Longrightarrow> reaches step s t"
  by (meson reaches.intros)

text \<open>
  The interface of a store to the properties over its runs: an initial state, the step
  relation of its operations and an invariant that every step keeps.
\<close>

locale invariant_system =
  fixes init :: "'s \<Rightarrow> bool" and step :: "'s \<Rightarrow> 's \<Rightarrow> bool" and inv :: "'s \<Rightarrow> bool"
  assumes inv_init: "init s \<Longrightarrow> inv s"
    and inv_step: "inv s \<Longrightarrow> step s t \<Longrightarrow> inv t"
begin

lemma inv_reaches: "reaches step s t \<Longrightarrow> inv s \<Longrightarrow> inv t"
  by (induction rule: reaches.induct) (auto intro: inv_step)

lemma inv_reachable: "init s \<Longrightarrow> reaches step s t \<Longrightarrow> inv t"
  using inv_init inv_reaches by blast

end

text \<open>
  A life cycle: the statuses of a record, the edges its operations may take, and a set of final
  statuses that no edge leaves.
\<close>

locale life_cycle =
  fixes edge :: "'s \<Rightarrow> 's \<Rightarrow> bool" and final :: "'s \<Rightarrow> bool"
  assumes final_stays: "final s \<Longrightarrow> edge s t \<Longrightarrow> t = s"
begin

lemma final_absorbing: "reaches edge s t \<Longrightarrow> final s \<Longrightarrow> t = s"
  by (induction rule: reaches.induct) (auto dest: final_stays)

end

end
