(* ===== verification/TeamModels.thy ===== *)
theory TeamModels
  imports Prelude
begin

text \<open>
  The data model of the team store (\<open>src/server/src/team_store/models.rs\<close>): the errors, the
  enumerations with the text they are stored as (the macro \<open>stored_enum!\<close>), one record per row
  type, the request structures and the normalisation helpers.

  Constructors of the enumerations carry a prefix per enumeration (\<open>Tm\<close> team status, \<open>Tk\<close> task
  status, \<open>Mb\<close> member status, \<open>At\<close> attempt status, \<open>Dv\<close> delivery status, \<open>Rd\<close> review round,
  \<open>Pr\<close> permission, \<open>Ls\<close> and \<open>Lk\<close> lifecycle operation) because HOL constructors share one name
  space.  Columns are typed: a row is stored through \<open>as_str\<close> and read back through \<open>parse\<close>,
  which the codec facts below show to be inverse to each other.
\<close>

subsection \<open>Errors\<close>

datatype team_error =
    TeamNotFound string
  | MemberNotFound string
  | TaskNotFound string
  | LeaderRequired
  | LeaderCannotBeRemoved
  | WrongTeam
  | DuplicateMemberName string
  | MemberLimit
  | TaskUnavailable
  | TaskNotAssigned
  | ProposalNotFound string
  | PermissionNotFound string
  | PermissionNotPending
  | InvalidPermissionOption string
  | InvalidProposalDecision
  | InvalidConcurrency
  | InvalidMemberLimit
  | InvalidReviewRounds
  | GoalRequired
  | AcceptanceCriteriaRequired
  | AllowedAgentsRequired
  | NativeAutonomyUnavailable string
  | InvalidTeamState
  | CompletionBlocked
  | DiscriminationNotFound string
  | LifecycleOperationNotFound string
  | UserInputRequestNotFound string
  | UserInputRequestNotPending
  | DiscriminatorRequired
  | DiscriminatorCannotWork
  | InvalidStoredValue string
  | ConstraintViolation  \<comment> \<open>\<open>Database\<close> with a failed key or foreign key constraint\<close>
  | QueryReturnedNoRows  \<comment> \<open>\<open>Database\<close> from \<open>query_row\<close> without \<open>optional()\<close>\<close>

definition MAX_TEAMMATES :: nat where
  "MAX_TEAMMATES = 8"

subsection \<open>Stored enumerations\<close>

text \<open>
  \<open>stored_enum!\<close> turns a table of variants and literals into \<open>as_str\<close> and \<open>parse\<close>; both are
  functions of that table here.
\<close>

definition as_str :: "('v \<times> string) list \<Rightarrow> 'v \<Rightarrow> string" where
  "as_str tab v = (case row_of fst v tab of Some p \<Rightarrow> snd p | None \<Rightarrow> [])"

definition parse_enum :: "('v \<times> string) list \<Rightarrow> string \<Rightarrow> team_error + 'v" where
  "parse_enum tab s = (case row_of snd s tab of
     Some p \<Rightarrow> Inr (fst p) | None \<Rightarrow> Inl (InvalidStoredValue s))"

locale stored_enum =
  fixes tab :: "('v \<times> string) list"
  assumes variants: "distinct (map fst tab)"
    and all_variants: "\<forall>v. v \<in> set (map fst tab)"
    and literals: "distinct (map snd tab)"
begin

lemma as_str_mem: "(v, as_str tab v) \<in> set tab"
proof -
  have "has_key fst v tab" unfolding has_key_iff using all_variants by (metis imageE set_map)
  then obtain p where p: "row_of fst v tab = Some p" using row_of_exists by metis
  then show ?thesis using row_of_SomeD [OF p] by (cases p) (auto simp: as_str_def)
qed

lemma parse_mem: "(v, l) \<in> set tab \<Longrightarrow> parse_enum tab l = Inr v"
  using row_of_unique [of snd tab "(v, l)"] literals by (simp add: parse_enum_def unique_key_def)

lemma parse_as_str: "parse_enum tab (as_str tab v) = Inr v"
  by (rule parse_mem) (rule as_str_mem)

lemma as_str_inj: "as_str tab v = as_str tab w \<longleftrightarrow> v = w"
  by (metis parse_as_str sum.inject(2))

lemma parse_Inr_iff: "parse_enum tab s = Inr v \<longleftrightarrow> as_str tab v = s"
proof
  assume "parse_enum tab s = Inr v"
  then have "(v, s) \<in> set tab"
    by (auto simp: parse_enum_def split: option.splits dest: row_of_SomeD)
  then show "as_str tab v = s"
    using as_str_mem [of v] variants by (auto dest: eq_key_imp_eq_value)
next
  assume "as_str tab v = s"
  then show "parse_enum tab s = Inr v" using parse_as_str by metis
qed

lemma parse_unknown: "s \<notin> range (as_str tab) \<Longrightarrow> parse_enum tab s = Inl (InvalidStoredValue s)"
  by (metis (no_types, lifting) option.case_eq_if parse_Inr_iff parse_enum_def rangeI)

end

datatype team_role = Leader | Teammate | Discriminator

definition team_role_tab :: "(team_role \<times> string) list" where
  "team_role_tab =
    [(Leader, ''leader''),
     (Teammate, ''teammate''),
     (Discriminator, ''discriminator'')]"

datatype management_policy = PolicyAsk | PolicyAuto

definition management_policy_tab :: "(management_policy \<times> string) list" where
  "management_policy_tab =
    [(PolicyAsk, ''ask''),
     (PolicyAuto, ''auto'')]"

datatype team_workspace = WsShared | WsWorktree

definition team_workspace_tab :: "(team_workspace \<times> string) list" where
  "team_workspace_tab =
    [(WsShared, ''shared''),
     (WsWorktree, ''worktree'')]"

datatype member_workspace = MwShared | MwIsolated

definition member_workspace_tab :: "(member_workspace \<times> string) list" where
  "member_workspace_tab =
    [(MwShared, ''shared''),
     (MwIsolated, ''isolated'')]"

datatype member_status = MbStarting | MbConfiguring | MbQueued | MbIdle | MbWorking | MbWaitingInput | MbWaitingPermission | MbFailed | MbStopped | MbRemoving | MbRemoved

definition member_status_tab :: "(member_status \<times> string) list" where
  "member_status_tab =
    [(MbStarting, ''starting''),
     (MbConfiguring, ''configuring''),
     (MbQueued, ''queued''),
     (MbIdle, ''idle''),
     (MbWorking, ''working''),
     (MbWaitingInput, ''waiting_input''),
     (MbWaitingPermission, ''waiting_permission''),
     (MbFailed, ''failed''),
     (MbStopped, ''stopped''),
     (MbRemoving, ''removing''),
     (MbRemoved, ''removed'')]"

datatype team_status = TmDraft | TmStarting | TmActive | TmPaused | TmVerifying | TmNeedsAttention | TmCompleted | TmArchived | TmDisbanding | TmRemoved

definition team_status_tab :: "(team_status \<times> string) list" where
  "team_status_tab =
    [(TmDraft, ''draft''),
     (TmStarting, ''starting''),
     (TmActive, ''active''),
     (TmPaused, ''paused''),
     (TmVerifying, ''verifying''),
     (TmNeedsAttention, ''needs_attention''),
     (TmCompleted, ''completed''),
     (TmArchived, ''archived''),
     (TmDisbanding, ''disbanding''),
     (TmRemoved, ''removed'')]"

datatype team_mode = Standard | Yolo

definition team_mode_tab :: "(team_mode \<times> string) list" where
  "team_mode_tab =
    [(Standard, ''standard''),
     (Yolo, ''yolo'')]"

datatype round_status = RdRunning | RdPassed | RdRejected | RdError

definition round_status_tab :: "(round_status \<times> string) list" where
  "round_status_tab =
    [(RdRunning, ''running''),
     (RdPassed, ''passed''),
     (RdRejected, ''rejected''),
     (RdError, ''error'')]"

datatype attempt_status = AtQueued | AtRunning | AtNeedsReport | AtResultSubmitted | AtCompleted | AtFailed | AtCancelled

definition attempt_status_tab :: "(attempt_status \<times> string) list" where
  "attempt_status_tab =
    [(AtQueued, ''queued''),
     (AtRunning, ''running''),
     (AtNeedsReport, ''needs_report''),
     (AtResultSubmitted, ''result_submitted''),
     (AtCompleted, ''completed''),
     (AtFailed, ''failed''),
     (AtCancelled, ''cancelled'')]"

datatype failure_kind = FkRateLimit | FkQuota | FkAuth | FkPermissionDenied | FkProcess | FkProtocol | FkTimeout | FkInterrupted | FkUnknown

definition failure_kind_tab :: "(failure_kind \<times> string) list" where
  "failure_kind_tab =
    [(FkRateLimit, ''rate_limit''),
     (FkQuota, ''quota''),
     (FkAuth, ''auth''),
     (FkPermissionDenied, ''permission_denied''),
     (FkProcess, ''process''),
     (FkProtocol, ''protocol''),
     (FkTimeout, ''timeout''),
     (FkInterrupted, ''interrupted''),
     (FkUnknown, ''unknown'')]"

datatype task_status = TkPending | TkBlocked | TkInProgress | TkPlanReview | TkResultReview | TkChangesRequested | TkAccepted | TkFailed | TkCancelled

definition task_status_tab :: "(task_status \<times> string) list" where
  "task_status_tab =
    [(TkPending, ''pending''),
     (TkBlocked, ''blocked''),
     (TkInProgress, ''in_progress''),
     (TkPlanReview, ''plan_review''),
     (TkResultReview, ''result_review''),
     (TkChangesRequested, ''changes_requested''),
     (TkAccepted, ''accepted''),
     (TkFailed, ''failed''),
     (TkCancelled, ''cancelled'')]"

datatype message_kind = MkDirect | MkTaskAssigned | MkPlanReady | MkResultReady | MkChangesRequested | MkSystem

definition message_kind_tab :: "(message_kind \<times> string) list" where
  "message_kind_tab =
    [(MkDirect, ''direct''),
     (MkTaskAssigned, ''task_assigned''),
     (MkPlanReady, ''plan_ready''),
     (MkResultReady, ''result_ready''),
     (MkChangesRequested, ''changes_requested''),
     (MkSystem, ''system'')]"

datatype delivery_status = DvPending | DvDelivered | DvAcknowledged | DvFailed | DvCancelled

definition delivery_status_tab :: "(delivery_status \<times> string) list" where
  "delivery_status_tab =
    [(DvPending, ''pending''),
     (DvDelivered, ''delivered''),
     (DvAcknowledged, ''acknowledged''),
     (DvFailed, ''failed''),
     (DvCancelled, ''cancelled'')]"

datatype lifecycle_kind = LkProvisioning | LkProviderCleanup | LkDisband

definition lifecycle_kind_tab :: "(lifecycle_kind \<times> string) list" where
  "lifecycle_kind_tab =
    [(LkProvisioning, ''provisioning''),
     (LkProviderCleanup, ''provider_cleanup''),
     (LkDisband, ''disband'')]"

datatype lifecycle_status = LsPending | LsRunning | LsRetryScheduled | LsFailed | LsCompleted

definition lifecycle_status_tab :: "(lifecycle_status \<times> string) list" where
  "lifecycle_status_tab =
    [(LsPending, ''pending''),
     (LsRunning, ''running''),
     (LsRetryScheduled, ''retry_scheduled''),
     (LsFailed, ''failed''),
     (LsCompleted, ''completed'')]"

datatype input_status = UiPending | UiResolved

definition input_status_tab :: "(input_status \<times> string) list" where
  "input_status_tab =
    [(UiPending, ''pending''),
     (UiResolved, ''resolved'')]"

datatype proposal_status = PpPending | PpApproved | PpRejected

definition proposal_status_tab :: "(proposal_status \<times> string) list" where
  "proposal_status_tab =
    [(PpPending, ''pending''),
     (PpApproved, ''approved''),
     (PpRejected, ''rejected'')]"

datatype permission_status = PrPendingLeader | PrWaitingUser | PrResolved | PrCancelled

definition permission_status_tab :: "(permission_status \<times> string) list" where
  "permission_status_tab =
    [(PrPendingLeader, ''pending_leader''),
     (PrWaitingUser, ''waiting_user''),
     (PrResolved, ''resolved''),
     (PrCancelled, ''cancelled'')]"

interpretation team_role_codec: stored_enum team_role_tab
  by unfold_locales (auto simp: team_role_tab_def intro: team_role.exhaust)

interpretation management_policy_codec: stored_enum management_policy_tab
  by unfold_locales (auto simp: management_policy_tab_def intro: management_policy.exhaust)

interpretation team_workspace_codec: stored_enum team_workspace_tab
  by unfold_locales (auto simp: team_workspace_tab_def intro: team_workspace.exhaust)

interpretation member_workspace_codec: stored_enum member_workspace_tab
  by unfold_locales (auto simp: member_workspace_tab_def intro: member_workspace.exhaust)

interpretation member_status_codec: stored_enum member_status_tab
  by unfold_locales (auto simp: member_status_tab_def intro: member_status.exhaust)

interpretation team_status_codec: stored_enum team_status_tab
  by unfold_locales (auto simp: team_status_tab_def intro: team_status.exhaust)

interpretation team_mode_codec: stored_enum team_mode_tab
  by unfold_locales (auto simp: team_mode_tab_def intro: team_mode.exhaust)

interpretation round_status_codec: stored_enum round_status_tab
  by unfold_locales (auto simp: round_status_tab_def intro: round_status.exhaust)

interpretation attempt_status_codec: stored_enum attempt_status_tab
  by unfold_locales (auto simp: attempt_status_tab_def intro: attempt_status.exhaust)

interpretation failure_kind_codec: stored_enum failure_kind_tab
  by unfold_locales (auto simp: failure_kind_tab_def intro: failure_kind.exhaust)

interpretation task_status_codec: stored_enum task_status_tab
  by unfold_locales (auto simp: task_status_tab_def intro: task_status.exhaust)

interpretation message_kind_codec: stored_enum message_kind_tab
  by unfold_locales (auto simp: message_kind_tab_def intro: message_kind.exhaust)

interpretation delivery_status_codec: stored_enum delivery_status_tab
  by unfold_locales (auto simp: delivery_status_tab_def intro: delivery_status.exhaust)

interpretation lifecycle_kind_codec: stored_enum lifecycle_kind_tab
  by unfold_locales (auto simp: lifecycle_kind_tab_def intro: lifecycle_kind.exhaust)

interpretation lifecycle_status_codec: stored_enum lifecycle_status_tab
  by unfold_locales (auto simp: lifecycle_status_tab_def intro: lifecycle_status.exhaust)

interpretation input_status_codec: stored_enum input_status_tab
  by unfold_locales (auto simp: input_status_tab_def intro: input_status.exhaust)

interpretation proposal_status_codec: stored_enum proposal_status_tab
  by unfold_locales (auto simp: proposal_status_tab_def intro: proposal_status.exhaust)

interpretation permission_status_codec: stored_enum permission_status_tab
  by unfold_locales (auto simp: permission_status_tab_def intro: permission_status.exhaust)

subsection \<open>Rows\<close>

record mode_fallback =
  mf_agent_id :: string
  mf_reason_code :: string
  mf_reason :: string
  mf_occurred_at :: nat

record team =
  tm_id :: string
  tm_project_id :: string
  tm_leader :: string
  tm_session :: string
  tm_title :: string
  tm_status :: team_status
  tm_workspace :: team_workspace
  tm_workspace_path :: "string option"
  tm_policy :: management_policy
  tm_max_parallel_runs :: nat
  tm_requested_mode :: team_mode
  tm_mode :: team_mode
  tm_fallback :: "mode_fallback option"
  tm_goal :: string
  tm_criteria :: "string list"
  tm_agents :: "string list"
  tm_max_teammates :: nat
  tm_max_review_rounds :: nat
  tm_current_round :: nat
  tm_fingerprint :: "string option"
  tm_final_summary :: "string option"
  tm_started_at :: "nat option"
  tm_completed_at :: "nat option"
  tm_created_at :: nat
  tm_updated_at :: nat

record team_member =
  mb_id :: string
  mb_team :: string
  mb_conversation :: string
  mb_name :: string
  mb_role :: team_role
  mb_status :: member_status
  mb_workspace :: member_workspace
  mb_base_tree :: "string option"
  mb_profile_applied :: bool
  mb_previous_mode :: "string option"
  mb_created_at :: nat
  mb_updated_at :: nat

text \<open>
  \<open>dependencies\<close> and \<open>owned_paths\<close> of \<open>TeamTask\<close> are rows of two further tables; \<open>get_task\<close>
  assembles them, so the row of the task table has no such columns.
\<close>

record team_task =
  tk_id :: string
  tk_team :: string
  tk_creator :: string
  tk_assignee :: "string option"
  tk_title :: string
  tk_description :: string
  tk_status :: task_status
  tk_required :: bool
  tk_plan_approval :: bool
  tk_plan :: "string option"
  tk_mutates :: bool
  tk_result :: "string option"
  tk_verification :: "string option"
  tk_created_at :: nat
  tk_updated_at :: nat

record task_view =
  tv_task :: team_task
  tv_dependencies :: "string list"
  tv_owned_paths :: "string list"

record team_message =
  ms_id :: string
  ms_team :: string
  ms_from :: string
  ms_to :: string
  ms_kind :: message_kind
  ms_task :: "string option"
  ms_body :: string
  ms_read_at :: "nat option"
  ms_delivery :: delivery_status
  ms_attempts :: nat
  ms_delivered_at :: "nat option"
  ms_last_error :: "string option"
  ms_created_at :: nat

record lifecycle_op =
  lo_id :: string
  lo_team :: string
  lo_project :: string
  lo_kind :: lifecycle_kind
  lo_status :: lifecycle_status
  lo_member :: "string option"
  lo_conversation :: "string option"
  lo_payload :: string
  lo_attempts :: nat
  lo_next_attempt_at :: "nat option"
  lo_last_error :: "string option"
  lo_created_at :: nat
  lo_updated_at :: nat
  lo_completed_at :: "nat option"

record user_input =
  ui_id :: string
  ui_team :: string
  ui_requester :: string
  ui_title :: string
  ui_prompt :: string
  ui_resume_status :: team_status
  ui_status :: input_status
  ui_answer :: "string option"
  ui_created_at :: nat
  ui_resolved_at :: "nat option"

record team_proposal =
  pp_id :: string
  pp_team :: string
  pp_summary :: string
  pp_members_json :: string
  pp_status :: proposal_status
  pp_created_at :: nat
  pp_resolved_at :: "nat option"

record team_activity =
  ac_id :: nat
  ac_team :: string
  ac_member :: "string option"
  ac_task :: "string option"
  ac_kind :: string
  ac_summary :: string
  ac_metadata :: "string option"
  ac_created_at :: nat

record permission_request =
  pr_id :: string
  pr_team :: string
  pr_member :: string
  pr_conversation :: string
  pr_run :: string
  pr_tool :: string
  pr_input_json :: string
  pr_options_json :: string
  pr_status :: permission_status
  pr_selected :: "string option"
  pr_reason :: "string option"
  pr_decided_by :: "string option"
  pr_decided_by_member :: "string option"
  pr_created_at :: nat
  pr_resolved_at :: "nat option"

record review_round =
  rd_id :: string
  rd_team :: string
  rd_discriminator :: string
  rd_round :: nat
  rd_fingerprint :: string
  rd_status :: round_status
  rd_verdict :: "string option"
  rd_evidence :: "string option"
  rd_created_at :: nat
  rd_resolved_at :: "nat option"

record task_attempt =
  at_id :: string
  at_team :: string
  at_task :: string
  at_member :: string
  at_run :: "string option"
  at_status :: attempt_status
  at_failure :: "failure_kind option"
  at_error :: "string option"
  at_created_at :: nat
  at_updated_at :: nat
  at_completed_at :: "nat option"

subsection \<open>Requests\<close>

record new_team =
  nt_project_id :: string
  nt_conversation :: string
  nt_session :: string
  nt_leader_name :: string
  nt_title :: "string option"
  nt_workspace :: team_workspace
  nt_workspace_path :: "string option"

record new_teammate =
  nm_team :: string
  nm_caller :: string
  nm_conversation :: string
  nm_name :: string
  nm_workspace :: member_workspace
  nm_base_tree :: "string option"

record new_discriminator =
  nd_team :: string
  nd_caller :: string
  nd_conversation :: string
  nd_name :: string

record start_request =
  st_team :: string
  st_leader :: string
  st_goal :: string
  st_criteria :: "string list"
  st_agents :: "string list"
  st_mode :: team_mode
  st_max_teammates :: nat
  st_max_parallel_runs :: nat
  st_max_review_rounds :: nat

record new_task =
  nk_team :: string
  nk_creator :: string
  nk_title :: string
  nk_description :: string
  nk_dependencies :: "string list"
  nk_owned_paths :: "string list"
  nk_plan_approval :: bool
  nk_mutates :: bool

record new_permission =
  np_id :: string
  np_team :: string
  np_member :: string
  np_conversation :: string
  np_run :: string
  np_tool :: string
  np_input_json :: string
  np_options_json :: string

subsection \<open>Normalisation\<close>

definition normalize_title :: "string option \<Rightarrow> string" where
  "normalize_title title = trim (case title of None \<Rightarrow> [] | Some s \<Rightarrow> s)"

definition normalized_name :: "string \<Rightarrow> string" where
  "normalized_name name = (let n = trim name in if n = [] then ''teammate'' else n)"

fun normalized_strings_from :: "string list \<Rightarrow> string list \<Rightarrow> string list" where
  "normalized_strings_from acc [] = acc"
| "normalized_strings_from acc (v # vs) =
    (let t = trim v in
     if t \<noteq> [] \<and> t \<notin> set acc then normalized_strings_from (acc @ [t]) vs
     else normalized_strings_from acc vs)"

definition normalized_strings :: "string list \<Rightarrow> string list" where
  "normalized_strings vs = normalized_strings_from [] vs"

definition supported_agents :: "string list" where
  "supported_agents = [''claude_code'', ''codex'', ''opencode'']"

definition normalized_agent_ids :: "string list \<Rightarrow> team_error + string list" where
  "normalized_agent_ids vs =
    (let ns = normalized_strings vs in
     case find (\<lambda>v. v \<notin> set supported_agents) ns of
       Some v \<Rightarrow> Inl (InvalidStoredValue (''unsupported Agent ID: '' @ v))
     | None \<Rightarrow> Inr ns)"

lemma normalized_name_nonempty [simp]: "normalized_name n \<noteq> []"
  by (simp add: normalized_name_def Let_def)

lemma normalized_strings_from_distinct:
  "distinct acc \<Longrightarrow> distinct (normalized_strings_from acc vs)"
  by (induction acc vs rule: normalized_strings_from.induct) (simp_all add: Let_def)

lemma normalized_strings_from_set:
  "set (normalized_strings_from acc vs) = set acc \<union> {t \<in> trim ` set vs. t \<noteq> []}"
proof (induction vs arbitrary: acc)
  case Nil
  then show ?case by simp
next
  case (Cons v vs)
  show ?case
    by (simp only: normalized_strings_from.simps Let_def Cons.IH split: if_split) auto
qed

lemma normalized_strings_distinct: "distinct (normalized_strings vs)"
  by (simp add: normalized_strings_def normalized_strings_from_distinct)

lemma normalized_strings_set: "set (normalized_strings vs) = {t \<in> trim ` set vs. t \<noteq> []}"
  by (simp add: normalized_strings_def normalized_strings_from_set)

lemma normalized_agent_ids_Inr:
  "normalized_agent_ids vs = Inr ns \<longleftrightarrow>
   ns = normalized_strings vs \<and> set ns \<subseteq> set supported_agents"
proof (cases "find (\<lambda>v. v \<notin> set supported_agents) (normalized_strings vs)")
  case None
  then have "set (normalized_strings vs) \<subseteq> set supported_agents" by (auto simp: find_None_iff)
  then show ?thesis using None by (auto simp: normalized_agent_ids_def Let_def)
next
  case (Some v)
  then have "v \<in> set (normalized_strings vs)" "v \<notin> set supported_agents"
    by (auto simp: find_Some_iff)
  then show ?thesis using Some by (auto simp: normalized_agent_ids_def Let_def)
qed

end
