(* ===== verification/ExperimentModels.thy ===== *)
theory ExperimentModels
  imports TeamModels
begin

text \<open>
  The data model of the experiment store (\<open>src/server/src/experiment_store/models.rs\<close>): the
  bounds, the enumerations of the macro \<open>text_enum!\<close>, the launch denials and errors, the
  envelope limits, the row types, and the validation of commands, launches and decisions.
\<close>

subsection \<open>Bounds\<close>

definition MAX_LAUNCHES :: nat where "MAX_LAUNCHES = 50"
definition MAX_CONCURRENT :: nat where "MAX_CONCURRENT = 4"
definition MAX_RUNTIME_SECS :: nat where "MAX_RUNTIME_SECS = 86400"
definition MAX_NO_PROGRESS :: nat where "MAX_NO_PROGRESS = 10"
definition MAX_ALLOWED_COMMANDS :: nat where "MAX_ALLOWED_COMMANDS = 20"
definition MAX_ARGV :: nat where "MAX_ARGV = 32"
definition MAX_ARG_CHARS :: nat where "MAX_ARG_CHARS = 512"
definition MAX_LABEL_CHARS :: nat where "MAX_LABEL_CHARS = 200"
definition MAX_ARTIFACTS :: nat where "MAX_ARTIFACTS = 20"
definition MAX_FOLLOW_UP_CHARS :: nat where "MAX_FOLLOW_UP_CHARS = 1000"
definition MAX_KEY_CHARS :: nat where "MAX_KEY_CHARS = 128"
definition MAX_REASON_CHARS :: nat where "MAX_REASON_CHARS = 500"
definition MAX_RATIONALE_CHARS :: nat where "MAX_RATIONALE_CHARS = 2000"
definition MAX_DECISION_EVIDENCE :: nat where "MAX_DECISION_EVIDENCE = 10"
definition MAX_ROUND_SOURCES :: nat where "MAX_ROUND_SOURCES = 20"
definition MAX_WAIT_SECS :: int where "MAX_WAIT_SECS = 7 * 24 * 3600"

subsection \<open>Enumerations\<close>

text \<open>\<open>text_enum!\<close> differs from \<open>stored_enum!\<close> in that \<open>parse\<close> answers an \<open>Option\<close>.\<close>

definition parse_text :: "('v \<times> string) list \<Rightarrow> string \<Rightarrow> 'v option" where
  "parse_text tab s = map_option fst (row_of snd s tab)"

context stored_enum begin

lemma parse_text_as_str: "parse_text tab (as_str tab v) = Some v"
  using parse_as_str [of v] by (auto simp: parse_text_def parse_enum_def split: option.splits)

lemma parse_text_Some_iff: "parse_text tab s = Some v \<longleftrightarrow> as_str tab v = s"
proof -
  have "parse_text tab s = Some v \<longleftrightarrow> parse_enum tab s = Inr v"
    by (auto simp: parse_text_def parse_enum_def split: option.splits)
  then show ?thesis by (simp add: parse_Inr_iff)
qed

end

datatype envelope_state = EvActive | EvPaused | EvClosed

definition envelope_state_tab :: "(envelope_state \<times> string) list" where
  "envelope_state_tab =
    [(EvActive, ''active''),
     (EvPaused, ''paused''),
     (EvClosed, ''closed'')]"

datatype experiment_state = ExReserved | ExLaunching | ExRunning | ExCancelling | ExExited | ExTimedOut | ExCancelled | ExFailedToStart | ExUnknown

definition experiment_state_tab :: "(experiment_state \<times> string) list" where
  "experiment_state_tab =
    [(ExReserved, ''reserved''),
     (ExLaunching, ''launching''),
     (ExRunning, ''running''),
     (ExCancelling, ''cancelling''),
     (ExExited, ''exited''),
     (ExTimedOut, ''timed_out''),
     (ExCancelled, ''cancelled''),
     (ExFailedToStart, ''failed_to_start''),
     (ExUnknown, ''unknown'')]"

datatype analysis_state = AnNone | AnPending | AnAnalyzed

definition analysis_state_tab :: "(analysis_state \<times> string) list" where
  "analysis_state_tab =
    [(AnNone, ''none''),
     (AnPending, ''pending''),
     (AnAnalyzed, ''analyzed'')]"

datatype wait_state = WtOpen | WtResolved | WtExpired | WtCancelled | WtReassigned

definition wait_state_tab :: "(wait_state \<times> string) list" where
  "wait_state_tab =
    [(WtOpen, ''open''),
     (WtResolved, ''resolved''),
     (WtExpired, ''expired''),
     (WtCancelled, ''cancelled''),
     (WtReassigned, ''reassigned'')]"

datatype event_kind = EkFinished | EkWaitExpired | EkReconciled

definition event_kind_tab :: "(event_kind \<times> string) list" where
  "event_kind_tab =
    [(EkFinished, ''finished''),
     (EkWaitExpired, ''wait_expired''),
     (EkReconciled, ''reconciled'')]"

datatype decision_kind = FurtherAnalysis | Repair | Retry | FollowUp | ExternalWait | ResearcherInput | Conclude

definition decision_kind_tab :: "(decision_kind \<times> string) list" where
  "decision_kind_tab =
    [(FurtherAnalysis, ''further_analysis''),
     (Repair, ''repair''),
     (Retry, ''retry''),
     (FollowUp, ''follow_up''),
     (ExternalWait, ''external_wait''),
     (ResearcherInput, ''researcher_input''),
     (Conclude, ''conclude'')]"

datatype reconcile_truth = NotStarted | ReallyFinished

definition reconcile_truth_tab :: "(reconcile_truth \<times> string) list" where
  "reconcile_truth_tab =
    [(NotStarted, ''not_started''),
     (ReallyFinished, ''finished'')]"

datatype launch_denial = NoEnvelope | EnvelopePaused | EnvelopeClosed | DeadlinePassed | CommandNotAuthorized | LaunchBudgetExhausted | ConcurrencyLimit | NoProgress | TeamNotActive

definition launch_denial_tab :: "(launch_denial \<times> string) list" where
  "launch_denial_tab =
    [(NoEnvelope, ''no_envelope''),
     (EnvelopePaused, ''envelope_paused''),
     (EnvelopeClosed, ''envelope_closed''),
     (DeadlinePassed, ''deadline_passed''),
     (CommandNotAuthorized, ''command_not_authorized''),
     (LaunchBudgetExhausted, ''launch_budget_exhausted''),
     (ConcurrencyLimit, ''concurrency_limit''),
     (NoProgress, ''no_progress''),
     (TeamNotActive, ''team_not_active'')]"

interpretation envelope_state_codec: stored_enum envelope_state_tab
  by unfold_locales (auto simp: envelope_state_tab_def intro: envelope_state.exhaust)

interpretation experiment_state_codec: stored_enum experiment_state_tab
  by unfold_locales (auto simp: experiment_state_tab_def intro: experiment_state.exhaust)

interpretation analysis_state_codec: stored_enum analysis_state_tab
  by unfold_locales (auto simp: analysis_state_tab_def intro: analysis_state.exhaust)

interpretation wait_state_codec: stored_enum wait_state_tab
  by unfold_locales (auto simp: wait_state_tab_def intro: wait_state.exhaust)

interpretation event_kind_codec: stored_enum event_kind_tab
  by unfold_locales (auto simp: event_kind_tab_def intro: event_kind.exhaust)

interpretation decision_kind_codec: stored_enum decision_kind_tab
  by unfold_locales (auto simp: decision_kind_tab_def intro: decision_kind.exhaust)

interpretation reconcile_truth_codec: stored_enum reconcile_truth_tab
  by unfold_locales (auto simp: reconcile_truth_tab_def intro: reconcile_truth.exhaust)

interpretation launch_denial_codec: stored_enum launch_denial_tab
  by unfold_locales (auto simp: launch_denial_tab_def intro: launch_denial.exhaust)

fun resolves_analysis :: "decision_kind \<Rightarrow> bool" where
  "resolves_analysis FurtherAnalysis = False"
| "resolves_analysis ExternalWait = False"
| "resolves_analysis _ = True"

fun launches :: "decision_kind \<Rightarrow> bool" where
  "launches Retry = True"
| "launches FollowUp = True"
| "launches _ = False"

fun is_active :: "experiment_state \<Rightarrow> bool" where
  "is_active ExReserved = True"
| "is_active ExLaunching = True"
| "is_active ExRunning = True"
| "is_active ExCancelling = True"
| "is_active ExUnknown = True"
| "is_active _ = False"

fun is_unproductive :: "experiment_state \<Rightarrow> bool" where
  "is_unproductive ExTimedOut = True"
| "is_unproductive ExFailedToStart = True"
| "is_unproductive ExUnknown = True"
| "is_unproductive _ = False"

datatype experiment_error =
    XNotFound
  | XInvalid string
  | XDenied launch_denial
  | XKeyReuse
  | XEnvelopeConflict nat
  | XState string
  | XDatabase  \<comment> \<open>a \<open>rusqlite::Error\<close>\<close>

subsection \<open>Rows\<close>

record envelope_limits =
  li_max_launches :: nat
  li_max_concurrent :: nat
  li_deadline_at :: "int option"
  li_max_runtime_secs :: nat
  li_max_no_progress :: nat
  li_allowed_commands :: "string list list"

record envelope =
  en_round :: string
  en_research :: string
  en_revision :: nat
  en_state :: envelope_state
  en_limits :: envelope_limits
  en_launches_reserved :: nat
  en_created_at :: nat
  en_updated_at :: nat

record envelope_revision =
  er_round :: string
  er_revision :: nat
  er_limits :: envelope_limits
  er_actor :: "string option"

record source_ref =
  sr_kind :: string
  sr_id :: string
  sr_revision :: "string option"

record process_identity =
  pi_pid :: int
  pi_start_ticks :: nat
  pi_boot_id :: string

record artifact_revision =
  ar_path :: string
  ar_revision :: "string option"

record new_launch =
  nl_round :: string
  nl_key :: string
  nl_team :: "string option"
  nl_task :: "string option"
  nl_owner :: "string option"
  nl_label :: string
  nl_argv :: "string list"
  nl_cwd :: string
  nl_artifacts :: "string list"
  nl_sources :: "source_ref list"
  nl_max_runtime_secs :: "nat option"

text \<open>
  A row of \<open>experiments\<close>: the fields of the struct \<open>Experiment\<close> and the bookkeeping columns
  \<open>request_hash\<close>, \<open>reminders\<close>, \<open>reminded_at\<close> and \<open>refunded\<close>.
\<close>

record experiment_row =
  ex_id :: string
  ex_project :: string
  ex_research :: string
  ex_round :: string
  ex_team :: "string option"
  ex_task :: "string option"
  ex_owner :: "string option"
  ex_key :: string
  ex_hash :: string
  ex_label :: string
  ex_argv :: "string list"
  ex_cwd :: string
  ex_artifacts :: "string list"
  ex_sources :: "source_ref list"
  ex_policy_revision :: nat
  ex_max_runtime_secs :: nat
  ex_state :: experiment_state
  ex_analysis :: analysis_state
  ex_identity :: "process_identity option"
  ex_exit_code :: "int option"
  ex_signal :: "int option"
  ex_reason :: "string option"
  ex_cancel_requested :: bool
  ex_artifact_revisions :: "artifact_revision list"
  ex_reminders :: nat
  ex_reminded_at :: "int option"
  ex_refunded :: bool
  ex_created_at :: nat
  ex_launched_at :: "nat option"
  ex_finished_at :: "nat option"

record outcome =
  oc_state :: "experiment_state option"
  oc_exit_code :: "int option"
  oc_signal :: "int option"
  oc_reason :: "string option"
  oc_artifact_revisions :: "artifact_revision list"

record experiment_wait =
  wt_id :: string
  wt_experiment :: string
  wt_team :: string
  wt_task :: "string option"
  wt_attempt :: "string option"
  wt_owner :: string
  wt_follow_up :: string
  wt_deadline_at :: "int option"
  wt_state :: wait_state
  wt_created_at :: nat
  wt_resolved_at :: "nat option"

record experiment_event =
  ee_id :: string
  ee_experiment :: string
  ee_kind :: event_kind
  ee_subject :: string
  ee_message :: "string option"

record experiment_decision =
  ed_id :: string
  ed_experiment :: string
  ed_member :: string
  ed_kind :: decision_kind
  ed_key :: string
  ed_rationale :: string
  ed_evidence :: "source_ref list"
  ed_launched :: "string option"
  ed_created_at :: nat

record new_decision =
  dn_experiment :: string
  dn_member :: string
  dn_kind :: decision_kind
  dn_key :: "string option"
  dn_rationale :: string
  dn_evidence :: "source_ref list"
  dn_launched :: "string option"

subsection \<open>Validation\<close>

definition nul :: char where
  "nul = char_of (0 :: nat)"

definition normalize_argv :: "string list \<Rightarrow> experiment_error + string list" where
  "normalize_argv argv =
    ebind (guard (argv \<noteq> [] \<and> length argv \<le> MAX_ARGV) (XInvalid ''a command needs 1 to 32 tokens'')) (\<lambda>_.
    ebind (guard (\<forall>token\<in>set argv. length token \<le> MAX_ARG_CHARS \<and> nul \<notin> set token)
            (XInvalid ''a command token is invalid'')) (\<lambda>_.
    ebind (guard (trim (hd argv) \<noteq> []) (XInvalid ''a command needs a program'')) (\<lambda>_.
    Inr argv)))"

text \<open>\<open>Vec::dedup\<close> removes consecutive repeats: \<open>remdups_adj\<close>.\<close>

definition limits_in_range :: "envelope_limits \<Rightarrow> bool" where
  "limits_in_range l \<longleftrightarrow>
    1 \<le> li_max_launches l \<and> li_max_launches l \<le> MAX_LAUNCHES \<and>
    1 \<le> li_max_concurrent l \<and> li_max_concurrent l \<le> MAX_CONCURRENT \<and>
    1 \<le> li_max_runtime_secs l \<and> li_max_runtime_secs l \<le> MAX_RUNTIME_SECS \<and>
    1 \<le> li_max_no_progress l \<and> li_max_no_progress l \<le> MAX_NO_PROGRESS"

definition normalized_limits :: "envelope_limits \<Rightarrow> experiment_error + envelope_limits" where
  "normalized_limits l =
    ebind (guard (limits_in_range l) (XInvalid ''an envelope limit is out of range'')) (\<lambda>_.
    ebind (guard (li_allowed_commands l \<noteq> [] \<and> length (li_allowed_commands l) \<le> MAX_ALLOWED_COMMANDS)
            (XInvalid ''allow between 1 and 20 commands'')) (\<lambda>_.
    ebind (emap normalize_argv (li_allowed_commands l)) (\<lambda>cs.
    Inr (l\<lparr>li_allowed_commands := remdups_adj cs\<rparr>))))"

definition authorizes :: "envelope_limits \<Rightarrow> string list \<Rightarrow> bool" where
  "authorizes l argv \<longleftrightarrow>
    (\<exists>prefix\<in>set (li_allowed_commands l).
       length prefix \<le> length argv \<and> take (length prefix) argv = prefix)"

definition ascii_alphanumeric :: "char \<Rightarrow> bool" where
  "ascii_alphanumeric c =
    (let n = (of_char c :: nat) in 48 \<le> n \<and> n \<le> 57 \<or> 65 \<le> n \<and> n \<le> 90 \<or> 97 \<le> n \<and> n \<le> 122)"

definition launch_key_char :: "char \<Rightarrow> bool" where
  "launch_key_char c \<longleftrightarrow> ascii_alphanumeric c \<or> c \<in> set ''-_:.''"

definition bad_path :: "string \<Rightarrow> bool" where
  "bad_path p \<longleftrightarrow> trim p = [] \<or> length p > MAX_ARG_CHARS \<or> nul \<in> set p"

definition normalized_launch :: "new_launch \<Rightarrow> experiment_error + new_launch" where
  "normalized_launch l =
    ebind (normalize_argv (nl_argv l)) (\<lambda>argv.
    let key = trim (nl_key l) in
    ebind (guard (key \<noteq> [] \<and> length key \<le> MAX_KEY_CHARS \<and> list_all launch_key_char key)
            (XInvalid ''a launch key is required'')) (\<lambda>_.
    let label = trim (nl_label l) in
    ebind (guard (length label \<le> MAX_LABEL_CHARS) (XInvalid ''the label is too long'')) (\<lambda>_.
    ebind (guard (length (nl_artifacts l) \<le> MAX_ARTIFACTS) (XInvalid ''too many artifacts'')) (\<lambda>_.
    ebind (guard (length (nl_cwd l) \<le> MAX_ARG_CHARS \<and> nul \<notin> set (nl_cwd l)
                  \<and> \<not> list_ex bad_path (nl_artifacts l))
            (XInvalid ''a path is empty or too long'')) (\<lambda>_.
    ebind (guard (length (nl_sources l) \<le> MAX_ROUND_SOURCES) (XInvalid ''too many sources'')) (\<lambda>_.
    Inr (l\<lparr>nl_argv := argv, nl_key := key, nl_label := label\<rparr>)))))))"

definition validate_decision :: "new_decision \<Rightarrow> experiment_error + unit" where
  "validate_decision d =
    (let rationale = trim (dn_rationale d) in
     ebind (guard (rationale \<noteq> [] \<and> length rationale \<le> MAX_RATIONALE_CHARS)
             (XInvalid ''a rationale of 1 to 2000 characters is required'')) (\<lambda>_.
     ebind (guard (length (dn_evidence d) \<le> MAX_DECISION_EVIDENCE)
             (XInvalid ''too much evidence on one decision'')) (\<lambda>_.
     guard (case dn_key d of None \<Rightarrow> True | Some k \<Rightarrow> length (trim k) \<le> MAX_KEY_CHARS)
             (XInvalid ''the decision key is too long''))))"

lemma normalize_argv_Inr:
  "normalize_argv argv = Inr a \<longleftrightarrow>
     a = argv \<and> argv \<noteq> [] \<and> length argv \<le> MAX_ARGV \<and> trim (hd argv) \<noteq> []
     \<and> (\<forall>token\<in>set argv. length token \<le> MAX_ARG_CHARS \<and> nul \<notin> set token)"
  by (auto simp: normalize_argv_def err_simps)

lemma emap_normalize_argv: "emap normalize_argv cs = Inr ds \<Longrightarrow> ds = cs"
  by (induction cs arbitrary: ds) (auto simp: err_simps normalize_argv_Inr)

lemma normalized_limits_Inr:
  "normalized_limits l = Inr m \<Longrightarrow>
     m = l\<lparr>li_allowed_commands := remdups_adj (li_allowed_commands l)\<rparr> \<and> limits_in_range m
     \<and> (\<forall>c\<in>set (li_allowed_commands m). c \<noteq> [])"
proof -
  assume "normalized_limits l = Inr m"
  then obtain cs where m: "limits_in_range l" "emap normalize_argv (li_allowed_commands l) = Inr cs"
    "m = l\<lparr>li_allowed_commands := remdups_adj cs\<rparr>"
    by (auto simp: normalized_limits_def err_simps)
  moreover have "\<forall>c\<in>set cs. c \<noteq> []"
    using emap_set [OF m(2)] by (auto simp: normalize_argv_Inr)
  ultimately show ?thesis
    using emap_normalize_argv [OF m(2)] by (auto simp: limits_in_range_def)
qed

lemma authorizes_normalized:
  assumes "normalized_limits l = Inr m"
  shows "authorizes m argv \<longleftrightarrow> authorizes l argv" "\<not> authorizes m []"
  using normalized_limits_Inr [OF assms] by (auto simp: authorizes_def)

end
