(* ===== verification/Schema.thy ===== *)
theory Schema
  imports ExperimentModels
begin

text \<open>
  The one SQLite database the stores share, as a record of tables (the \<open>CREATE TABLE\<close> batches of
  \<open>team_store/mod.rs\<close> and \<open>experiment_store/mod.rs\<close>), the statements that write it with the
  constraints SQLite enforces on them (\<open>PRIMARY KEY\<close>, \<open>UNIQUE\<close>, \<open>REFERENCES\<close> with
  \<open>PRAGMA foreign_keys = ON\<close>, \<open>ON DELETE CASCADE\<close> and \<open>ON DELETE SET NULL\<close>), and the invariant
  \<open>schema_ok\<close> that every statement keeps.

  A table is the list of its rows in \<open>rowid\<close> order.  \<open>upd_x P f\<close> is \<open>UPDATE x SET f WHERE P\<close>;
  \<open>ins_x r\<close> is \<open>INSERT INTO x\<close>, which answers \<open>None\<close> when a constraint fails and otherwise
  \<open>put_x r\<close>.  The read-over-write rules of each statement are simplification rules, so that proofs
  about operations never open the record.  The tables of the
  research and work stores appear with the columns the modelled operations read.
\<close>

named_theorems prims "definitions of the unconditional write statements"
named_theorems ins_defs "definitions of the statements that check a constraint"
named_theorems schema_intro "write statements keep the schema invariant"

subsection \<open>Rows of the neighbouring stores, restricted to the columns read here\<close>

record research_question =
  rq_id :: string
  rq_project :: string

record research_round =
  rr_id :: string
  rr_research :: string
  rr_team :: "string option"

record research_link =
  rl_research :: string
  rl_kind :: string
  rl_ref :: string

record publication =
  pb_id :: string
  pb_research :: string
  pb_team :: "string option"
  pb_created_at :: nat

datatype outcome_status = OutcomePending | OutcomeRecorded

record pending_outcome =
  po_team :: string
  po_research :: string
  po_round :: "string option"
  po_status :: outcome_status
  po_publication :: "string option"
  po_resolved_at :: "nat option"

record work_row =
  wr_id :: string
  wr_project :: string
  wr_round :: "string option"
  wr_origin :: string
  wr_lifecycle :: string

text \<open>The payload of a workspace event is a flat JSON object, kept as its fields.\<close>

record workspace_event =
  we_id :: nat
  we_kind :: string
  we_project :: string
  we_payload :: "(string \<times> string) list"

subsection \<open>The database\<close>

record db =
  d_teams :: "team list"
  d_members :: "team_member list"
  d_tasks :: "team_task list"
  d_deps :: "(string \<times> string) list"
  d_paths :: "(string \<times> string) list"
  d_messages :: "team_message list"
  d_proposals :: "team_proposal list"
  d_activity :: "team_activity list"
  d_activity_seq :: nat
  d_permissions :: "permission_request list"
  d_rounds :: "review_round list"
  d_attempts :: "task_attempt list"
  d_lops :: "lifecycle_op list"
  d_inputs :: "user_input list"
  d_questions :: "research_question list"
  d_research_rounds :: "research_round list"
  d_links :: "research_link list"
  d_publications :: "publication list"
  d_outcomes :: "pending_outcome list"
  d_envelopes :: "envelope list"
  d_envelope_revisions :: "envelope_revision list"
  d_experiments :: "experiment_row list"
  d_waits :: "experiment_wait list"
  d_events :: "experiment_event list"
  d_decisions :: "experiment_decision list"
  d_work_items :: "work_row list"
  d_workspace_events :: "workspace_event list"
  d_workspace_seq :: nat

definition empty_db :: db where
  "empty_db = \<lparr>d_teams = [], d_members = [], d_tasks = [], d_deps = [], d_paths = [],
    d_messages = [], d_proposals = [], d_activity = [], d_activity_seq = 0, d_permissions = [],
    d_rounds = [], d_attempts = [], d_lops = [], d_inputs = [], d_questions = [],
    d_research_rounds = [], d_links = [], d_publications = [], d_outcomes = [], d_envelopes = [],
    d_envelope_revisions = [], d_experiments = [], d_waits = [], d_events = [], d_decisions = [],
    d_work_items = [], d_workspace_events = [], d_workspace_seq = 0\<rparr>"

abbreviation team_in :: "string \<Rightarrow> db \<Rightarrow> bool" where
  "team_in t db \<equiv> has_key tm_id t (d_teams db)"

abbreviation member_in :: "string \<Rightarrow> db \<Rightarrow> bool" where
  "member_in m db \<equiv> has_key mb_id m (d_members db)"

abbreviation task_in :: "string \<Rightarrow> db \<Rightarrow> bool" where
  "task_in k db \<equiv> has_key tk_id k (d_tasks db)"

abbreviation member_in_opt :: "string option \<Rightarrow> db \<Rightarrow> bool" where
  "member_in_opt m db \<equiv> has_key_opt mb_id m (d_members db)"

abbreviation task_in_opt :: "string option \<Rightarrow> db \<Rightarrow> bool" where
  "task_in_opt k db \<equiv> has_key_opt tk_id k (d_tasks db)"

subsection \<open>Updates\<close>

definition upd_teams :: "(team \<Rightarrow> bool) \<Rightarrow> (team \<Rightarrow> team) \<Rightarrow> db \<Rightarrow> db" where
  [prims]: "upd_teams P f db = db\<lparr>d_teams := update_where P f (d_teams db)\<rparr>"

definition upd_members :: "(team_member \<Rightarrow> bool) \<Rightarrow> (team_member \<Rightarrow> team_member) \<Rightarrow> db \<Rightarrow> db" where
  [prims]: "upd_members P f db = db\<lparr>d_members := update_where P f (d_members db)\<rparr>"

definition upd_tasks :: "(team_task \<Rightarrow> bool) \<Rightarrow> (team_task \<Rightarrow> team_task) \<Rightarrow> db \<Rightarrow> db" where
  [prims]: "upd_tasks P f db = db\<lparr>d_tasks := update_where P f (d_tasks db)\<rparr>"

definition upd_messages :: "(team_message \<Rightarrow> bool) \<Rightarrow> (team_message \<Rightarrow> team_message) \<Rightarrow> db \<Rightarrow> db" where
  [prims]: "upd_messages P f db = db\<lparr>d_messages := update_where P f (d_messages db)\<rparr>"

definition upd_proposals :: "(team_proposal \<Rightarrow> bool) \<Rightarrow> (team_proposal \<Rightarrow> team_proposal) \<Rightarrow> db \<Rightarrow> db" where
  [prims]: "upd_proposals P f db = db\<lparr>d_proposals := update_where P f (d_proposals db)\<rparr>"

definition upd_permissions :: "(permission_request \<Rightarrow> bool) \<Rightarrow> (permission_request \<Rightarrow> permission_request) \<Rightarrow> db \<Rightarrow> db" where
  [prims]: "upd_permissions P f db = db\<lparr>d_permissions := update_where P f (d_permissions db)\<rparr>"

definition upd_rounds :: "(review_round \<Rightarrow> bool) \<Rightarrow> (review_round \<Rightarrow> review_round) \<Rightarrow> db \<Rightarrow> db" where
  [prims]: "upd_rounds P f db = db\<lparr>d_rounds := update_where P f (d_rounds db)\<rparr>"

definition upd_attempts :: "(task_attempt \<Rightarrow> bool) \<Rightarrow> (task_attempt \<Rightarrow> task_attempt) \<Rightarrow> db \<Rightarrow> db" where
  [prims]: "upd_attempts P f db = db\<lparr>d_attempts := update_where P f (d_attempts db)\<rparr>"

definition upd_lops :: "(lifecycle_op \<Rightarrow> bool) \<Rightarrow> (lifecycle_op \<Rightarrow> lifecycle_op) \<Rightarrow> db \<Rightarrow> db" where
  [prims]: "upd_lops P f db = db\<lparr>d_lops := update_where P f (d_lops db)\<rparr>"

definition upd_inputs :: "(user_input \<Rightarrow> bool) \<Rightarrow> (user_input \<Rightarrow> user_input) \<Rightarrow> db \<Rightarrow> db" where
  [prims]: "upd_inputs P f db = db\<lparr>d_inputs := update_where P f (d_inputs db)\<rparr>"

definition upd_envelopes :: "(envelope \<Rightarrow> bool) \<Rightarrow> (envelope \<Rightarrow> envelope) \<Rightarrow> db \<Rightarrow> db" where
  [prims]: "upd_envelopes P f db = db\<lparr>d_envelopes := update_where P f (d_envelopes db)\<rparr>"

definition upd_experiments :: "(experiment_row \<Rightarrow> bool) \<Rightarrow> (experiment_row \<Rightarrow> experiment_row) \<Rightarrow> db \<Rightarrow> db" where
  [prims]: "upd_experiments P f db = db\<lparr>d_experiments := update_where P f (d_experiments db)\<rparr>"

definition upd_waits :: "(experiment_wait \<Rightarrow> bool) \<Rightarrow> (experiment_wait \<Rightarrow> experiment_wait) \<Rightarrow> db \<Rightarrow> db" where
  [prims]: "upd_waits P f db = db\<lparr>d_waits := update_where P f (d_waits db)\<rparr>"

definition upd_events :: "(experiment_event \<Rightarrow> bool) \<Rightarrow> (experiment_event \<Rightarrow> experiment_event) \<Rightarrow> db \<Rightarrow> db" where
  [prims]: "upd_events P f db = db\<lparr>d_events := update_where P f (d_events db)\<rparr>"

subsection \<open>Insertions\<close>

definition put_teams :: "team \<Rightarrow> db \<Rightarrow> db" where
  [prims]: "put_teams r db = db\<lparr>d_teams := d_teams db @ [r]\<rparr>"

definition ins_teams :: "team \<Rightarrow> db \<Rightarrow> db option" where
  [ins_defs]: "ins_teams r db =
    (if \<not> has_key tm_id (tm_id r) (d_teams db)
     then Some (put_teams r db) else None)"

definition put_members :: "team_member \<Rightarrow> db \<Rightarrow> db" where
  [prims]: "put_members r db = db\<lparr>d_members := d_members db @ [r]\<rparr>"

definition ins_members :: "team_member \<Rightarrow> db \<Rightarrow> db option" where
  [ins_defs]: "ins_members r db =
    (if \<not> has_key mb_id (mb_id r) (d_members db)
        \<and> \<not> has_key mb_conversation (mb_conversation r) (d_members db)
        \<and> \<not> has_key (\<lambda>m. (mb_team m, mb_name m)) (mb_team r, mb_name r) (d_members db)
        \<and> team_in (mb_team r) db
     then Some (put_members r db) else None)"

definition put_tasks :: "team_task \<Rightarrow> db \<Rightarrow> db" where
  [prims]: "put_tasks r db = db\<lparr>d_tasks := d_tasks db @ [r]\<rparr>"

definition ins_tasks :: "team_task \<Rightarrow> db \<Rightarrow> db option" where
  [ins_defs]: "ins_tasks r db =
    (if \<not> task_in (tk_id r) db \<and> team_in (tk_team r) db
        \<and> member_in (tk_creator r) db \<and> member_in_opt (tk_assignee r) db
     then Some (put_tasks r db) else None)"

definition put_deps :: "string \<times> string \<Rightarrow> db \<Rightarrow> db" where
  [prims]: "put_deps r db = db\<lparr>d_deps := d_deps db @ [r]\<rparr>"

definition ins_deps :: "string \<times> string \<Rightarrow> db \<Rightarrow> db option" where
  [ins_defs]: "ins_deps r db =
    (if r \<notin> set (d_deps db) \<and> task_in (fst r) db \<and> task_in (snd r) db
     then Some (put_deps r db) else None)"

definition put_paths :: "string \<times> string \<Rightarrow> db \<Rightarrow> db" where
  [prims]: "put_paths r db = db\<lparr>d_paths := d_paths db @ [r]\<rparr>"

definition ins_paths :: "string \<times> string \<Rightarrow> db \<Rightarrow> db option" where
  [ins_defs]: "ins_paths r db =
    (if r \<notin> set (d_paths db) \<and> task_in (fst r) db
     then Some (put_paths r db) else None)"

definition put_messages :: "team_message \<Rightarrow> db \<Rightarrow> db" where
  [prims]: "put_messages r db = db\<lparr>d_messages := d_messages db @ [r]\<rparr>"

definition ins_messages :: "team_message \<Rightarrow> db \<Rightarrow> db option" where
  [ins_defs]: "ins_messages r db =
    (if \<not> has_key ms_id (ms_id r) (d_messages db) \<and> team_in (ms_team r) db
        \<and> member_in (ms_from r) db \<and> member_in (ms_to r) db \<and> task_in_opt (ms_task r) db
     then Some (put_messages r db) else None)"

definition put_proposals :: "team_proposal \<Rightarrow> db \<Rightarrow> db" where
  [prims]: "put_proposals r db = db\<lparr>d_proposals := d_proposals db @ [r]\<rparr>"

definition ins_proposals :: "team_proposal \<Rightarrow> db \<Rightarrow> db option" where
  [ins_defs]: "ins_proposals r db =
    (if \<not> has_key pp_id (pp_id r) (d_proposals db) \<and> team_in (pp_team r) db
     then Some (put_proposals r db) else None)"

definition put_permissions :: "permission_request \<Rightarrow> db \<Rightarrow> db" where
  [prims]: "put_permissions r db = db\<lparr>d_permissions := d_permissions db @ [r]\<rparr>"

definition ins_permissions :: "permission_request \<Rightarrow> db \<Rightarrow> db option" where
  [ins_defs]: "ins_permissions r db =
    (if \<not> has_key pr_id (pr_id r) (d_permissions db) \<and> team_in (pr_team r) db
        \<and> member_in (pr_member r) db \<and> member_in_opt (pr_decided_by_member r) db
     then Some (put_permissions r db) else None)"

definition put_rounds :: "review_round \<Rightarrow> db \<Rightarrow> db" where
  [prims]: "put_rounds r db = db\<lparr>d_rounds := d_rounds db @ [r]\<rparr>"

definition ins_rounds :: "review_round \<Rightarrow> db \<Rightarrow> db option" where
  [ins_defs]: "ins_rounds r db =
    (if \<not> has_key rd_id (rd_id r) (d_rounds db)
        \<and> \<not> has_key (\<lambda>x. (rd_team x, rd_round x)) (rd_team r, rd_round r) (d_rounds db)
        \<and> team_in (rd_team r) db \<and> member_in (rd_discriminator r) db
     then Some (put_rounds r db) else None)"

definition put_attempts :: "task_attempt \<Rightarrow> db \<Rightarrow> db" where
  [prims]: "put_attempts r db = db\<lparr>d_attempts := d_attempts db @ [r]\<rparr>"

definition ins_attempts :: "task_attempt \<Rightarrow> db \<Rightarrow> db option" where
  [ins_defs]: "ins_attempts r db =
    (if \<not> has_key at_id (at_id r) (d_attempts db) \<and> team_in (at_team r) db
        \<and> task_in (at_task r) db \<and> member_in (at_member r) db
     then Some (put_attempts r db) else None)"

definition put_lops :: "lifecycle_op \<Rightarrow> db \<Rightarrow> db" where
  [prims]: "put_lops r db = db\<lparr>d_lops := d_lops db @ [r]\<rparr>"

definition ins_lops :: "lifecycle_op \<Rightarrow> db \<Rightarrow> db option" where
  [ins_defs]: "ins_lops r db =
    (if \<not> has_key lo_id (lo_id r) (d_lops db)
     then Some (put_lops r db) else None)"

definition put_inputs :: "user_input \<Rightarrow> db \<Rightarrow> db" where
  [prims]: "put_inputs r db = db\<lparr>d_inputs := d_inputs db @ [r]\<rparr>"

definition ins_inputs :: "user_input \<Rightarrow> db \<Rightarrow> db option" where
  [ins_defs]: "ins_inputs r db =
    (if \<not> has_key ui_id (ui_id r) (d_inputs db) \<and> team_in (ui_team r) db
        \<and> member_in (ui_requester r) db
     then Some (put_inputs r db) else None)"

definition put_envelopes :: "envelope \<Rightarrow> db \<Rightarrow> db" where
  [prims]: "put_envelopes r db = db\<lparr>d_envelopes := d_envelopes db @ [r]\<rparr>"

definition ins_envelopes :: "envelope \<Rightarrow> db \<Rightarrow> db option" where
  [ins_defs]: "ins_envelopes r db =
    (if \<not> has_key en_round (en_round r) (d_envelopes db)
        \<and> has_key rr_id (en_round r) (d_research_rounds db)
        \<and> has_key rq_id (en_research r) (d_questions db)
     then Some (put_envelopes r db) else None)"

definition put_envelope_revisions :: "envelope_revision \<Rightarrow> db \<Rightarrow> db" where
  [prims]: "put_envelope_revisions r db = db\<lparr>d_envelope_revisions := d_envelope_revisions db @ [r]\<rparr>"

definition ins_envelope_revisions :: "envelope_revision \<Rightarrow> db \<Rightarrow> db option" where
  [ins_defs]: "ins_envelope_revisions r db =
    (if \<not> has_key (\<lambda>x. (er_round x, er_revision x)) (er_round r, er_revision r)
              (d_envelope_revisions db)
        \<and> has_key rr_id (er_round r) (d_research_rounds db)
     then Some (put_envelope_revisions r db) else None)"

definition put_experiments :: "experiment_row \<Rightarrow> db \<Rightarrow> db" where
  [prims]: "put_experiments r db = db\<lparr>d_experiments := d_experiments db @ [r]\<rparr>"

definition ins_experiments :: "experiment_row \<Rightarrow> db \<Rightarrow> db option" where
  [ins_defs]: "ins_experiments r db =
    (if \<not> has_key ex_id (ex_id r) (d_experiments db)
        \<and> \<not> has_key (\<lambda>x. (ex_round x, ex_key x)) (ex_round r, ex_key r) (d_experiments db)
        \<and> has_key rq_id (ex_research r) (d_questions db)
        \<and> has_key rr_id (ex_round r) (d_research_rounds db)
        \<and> has_key_opt tm_id (ex_team r) (d_teams db)
     then Some (put_experiments r db) else None)"

definition put_waits :: "experiment_wait \<Rightarrow> db \<Rightarrow> db" where
  [prims]: "put_waits r db = db\<lparr>d_waits := d_waits db @ [r]\<rparr>"

definition ins_waits :: "experiment_wait \<Rightarrow> db \<Rightarrow> db option" where
  [ins_defs]: "ins_waits r db =
    (if \<not> has_key wt_id (wt_id r) (d_waits db)
        \<and> has_key ex_id (wt_experiment r) (d_experiments db) \<and> team_in (wt_team r) db
     then Some (put_waits r db) else None)"

definition put_events :: "experiment_event \<Rightarrow> db \<Rightarrow> db" where
  [prims]: "put_events r db = db\<lparr>d_events := d_events db @ [r]\<rparr>"

definition ins_events :: "experiment_event \<Rightarrow> db \<Rightarrow> db option" where
  [ins_defs]: "ins_events r db =
    (if \<not> has_key ee_id (ee_id r) (d_events db)
        \<and> \<not> has_key (\<lambda>x. (ee_experiment x, ee_kind x, ee_subject x))
              (ee_experiment r, ee_kind r, ee_subject r) (d_events db)
        \<and> has_key ex_id (ee_experiment r) (d_experiments db)
     then Some (put_events r db) else None)"

definition put_decisions :: "experiment_decision \<Rightarrow> db \<Rightarrow> db" where
  [prims]: "put_decisions r db = db\<lparr>d_decisions := d_decisions db @ [r]\<rparr>"

definition ins_decisions :: "experiment_decision \<Rightarrow> db \<Rightarrow> db option" where
  [ins_defs]: "ins_decisions r db =
    (if \<not> has_key ed_id (ed_id r) (d_decisions db)
        \<and> \<not> has_key (\<lambda>x. (ed_experiment x, ed_kind x, ed_key x))
              (ed_experiment r, ed_kind r, ed_key r) (d_decisions db)
        \<and> has_key ex_id (ed_experiment r) (d_experiments db)
     then Some (put_decisions r db) else None)"

text \<open>
  \<open>team_activity_events\<close> and \<open>workspace_events\<close> have an \<open>AUTOINCREMENT\<close> key: the sequence number
  only grows, also across deletions.
\<close>

definition put_activity :: "string \<Rightarrow> string option \<Rightarrow> string option \<Rightarrow> string \<Rightarrow> string
    \<Rightarrow> string option \<Rightarrow> nat \<Rightarrow> db \<Rightarrow> db" where
  [prims]: "put_activity t m k kind summary meta now db =
    db\<lparr>d_activity := d_activity db @
          [\<lparr>ac_id = Suc (d_activity_seq db), ac_team = t, ac_member = m, ac_task = k,
            ac_kind = kind, ac_summary = summary, ac_metadata = meta, ac_created_at = now\<rparr>],
       d_activity_seq := Suc (d_activity_seq db)\<rparr>"

definition ins_activity :: "string \<Rightarrow> string option \<Rightarrow> string option \<Rightarrow> string \<Rightarrow> string
    \<Rightarrow> string option \<Rightarrow> nat \<Rightarrow> db \<Rightarrow> db option" where
  [ins_defs]: "ins_activity t m k kind summary meta now db =
    (if team_in t db \<and> member_in_opt m db \<and> task_in_opt k db
     then Some (put_activity t m k kind summary meta now db) else None)"

definition append_workspace_event :: "string \<Rightarrow> string \<Rightarrow> (string \<times> string) list \<Rightarrow> db \<Rightarrow> db" where
  [prims]: "append_workspace_event kind project payload db =
    db\<lparr>d_workspace_events := d_workspace_events db @
          [\<lparr>we_id = Suc (d_workspace_seq db), we_kind = kind, we_project = project,
            we_payload = payload\<rparr>],
       d_workspace_seq := Suc (d_workspace_seq db)\<rparr>"

subsection \<open>Deletions\<close>

definition del_messages :: "(team_message \<Rightarrow> bool) \<Rightarrow> db \<Rightarrow> db" where
  [prims]: "del_messages P db = db\<lparr>d_messages := delete_where P (d_messages db)\<rparr>"

text \<open>
  \<open>DELETE FROM team_members\<close>: rows that reference a deleted member with \<open>ON DELETE CASCADE\<close> go
  with it, \<open>ON DELETE SET NULL\<close> columns are cleared, and the statement fails when a task
  (creator, assignee) or a message (sender, recipient) still references a deleted member.
\<close>

definition cut_ref :: "string list \<Rightarrow> string option \<Rightarrow> string option" where
  "cut_ref ids m = (case m of None \<Rightarrow> None | Some x \<Rightarrow> if x \<in> set ids then None else Some x)"

definition gone_members :: "(team_member \<Rightarrow> bool) \<Rightarrow> db \<Rightarrow> string list" where
  "gone_members P db = map mb_id (filter P (d_members db))"

definition drop_members :: "(team_member \<Rightarrow> bool) \<Rightarrow> db \<Rightarrow> db" where
  [prims]: "drop_members P db =
    (let gone = gone_members P db in db\<lparr>
       d_members := delete_where P (d_members db),
       d_permissions := map (\<lambda>p. p\<lparr>pr_decided_by_member := cut_ref gone (pr_decided_by_member p)\<rparr>)
         (delete_where (\<lambda>p. pr_member p \<in> set gone) (d_permissions db)),
       d_rounds := delete_where (\<lambda>r. rd_discriminator r \<in> set gone) (d_rounds db),
       d_attempts := delete_where (\<lambda>a. at_member a \<in> set gone) (d_attempts db),
       d_inputs := delete_where (\<lambda>u. ui_requester u \<in> set gone) (d_inputs db),
       d_activity := map (\<lambda>a. a\<lparr>ac_member := cut_ref gone (ac_member a)\<rparr>) (d_activity db)\<rparr>)"

definition members_referenced :: "string list \<Rightarrow> db \<Rightarrow> bool" where
  "members_referenced gone db \<longleftrightarrow>
    list_ex (\<lambda>k. tk_creator k \<in> set gone \<or> (\<exists>a\<in>set_option (tk_assignee k). a \<in> set gone)) (d_tasks db)
    \<or> list_ex (\<lambda>m. ms_from m \<in> set gone \<or> ms_to m \<in> set gone) (d_messages db)"

definition del_members :: "(team_member \<Rightarrow> bool) \<Rightarrow> db \<Rightarrow> db option" where
  [ins_defs]: "del_members P db =
    (if members_referenced (gone_members P db) db then None else Some (drop_members P db))"

subsection \<open>Reading after writing\<close>

lemma upd_teams_sel [simp]:
  "d_teams (upd_teams P f db) = update_where P f (d_teams db)"
  "d_members (upd_teams P f db) = d_members db" "d_tasks (upd_teams P f db) = d_tasks db"
  "d_deps (upd_teams P f db) = d_deps db" "d_paths (upd_teams P f db) = d_paths db"
  "d_messages (upd_teams P f db) = d_messages db"
  "d_proposals (upd_teams P f db) = d_proposals db"
  "d_activity (upd_teams P f db) = d_activity db"
  "d_activity_seq (upd_teams P f db) = d_activity_seq db"
  "d_permissions (upd_teams P f db) = d_permissions db"
  "d_rounds (upd_teams P f db) = d_rounds db" "d_attempts (upd_teams P f db) = d_attempts db"
  "d_lops (upd_teams P f db) = d_lops db" "d_inputs (upd_teams P f db) = d_inputs db"
  "d_questions (upd_teams P f db) = d_questions db"
  "d_research_rounds (upd_teams P f db) = d_research_rounds db"
  "d_links (upd_teams P f db) = d_links db"
  "d_publications (upd_teams P f db) = d_publications db"
  "d_outcomes (upd_teams P f db) = d_outcomes db"
  "d_envelopes (upd_teams P f db) = d_envelopes db"
  "d_envelope_revisions (upd_teams P f db) = d_envelope_revisions db"
  "d_experiments (upd_teams P f db) = d_experiments db" "d_waits (upd_teams P f db) = d_waits db"
  "d_events (upd_teams P f db) = d_events db" "d_decisions (upd_teams P f db) = d_decisions db"
  "d_work_items (upd_teams P f db) = d_work_items db"
  "d_workspace_events (upd_teams P f db) = d_workspace_events db"
  "d_workspace_seq (upd_teams P f db) = d_workspace_seq db"
  by (simp_all add: upd_teams_def Let_def)

lemma upd_members_sel [simp]:
  "d_members (upd_members P f db) = update_where P f (d_members db)"
  "d_teams (upd_members P f db) = d_teams db" "d_tasks (upd_members P f db) = d_tasks db"
  "d_deps (upd_members P f db) = d_deps db" "d_paths (upd_members P f db) = d_paths db"
  "d_messages (upd_members P f db) = d_messages db"
  "d_proposals (upd_members P f db) = d_proposals db"
  "d_activity (upd_members P f db) = d_activity db"
  "d_activity_seq (upd_members P f db) = d_activity_seq db"
  "d_permissions (upd_members P f db) = d_permissions db"
  "d_rounds (upd_members P f db) = d_rounds db" "d_attempts (upd_members P f db) = d_attempts db"
  "d_lops (upd_members P f db) = d_lops db" "d_inputs (upd_members P f db) = d_inputs db"
  "d_questions (upd_members P f db) = d_questions db"
  "d_research_rounds (upd_members P f db) = d_research_rounds db"
  "d_links (upd_members P f db) = d_links db"
  "d_publications (upd_members P f db) = d_publications db"
  "d_outcomes (upd_members P f db) = d_outcomes db"
  "d_envelopes (upd_members P f db) = d_envelopes db"
  "d_envelope_revisions (upd_members P f db) = d_envelope_revisions db"
  "d_experiments (upd_members P f db) = d_experiments db"
  "d_waits (upd_members P f db) = d_waits db" "d_events (upd_members P f db) = d_events db"
  "d_decisions (upd_members P f db) = d_decisions db"
  "d_work_items (upd_members P f db) = d_work_items db"
  "d_workspace_events (upd_members P f db) = d_workspace_events db"
  "d_workspace_seq (upd_members P f db) = d_workspace_seq db"
  by (simp_all add: upd_members_def Let_def)

lemma upd_tasks_sel [simp]:
  "d_tasks (upd_tasks P f db) = update_where P f (d_tasks db)"
  "d_teams (upd_tasks P f db) = d_teams db" "d_members (upd_tasks P f db) = d_members db"
  "d_deps (upd_tasks P f db) = d_deps db" "d_paths (upd_tasks P f db) = d_paths db"
  "d_messages (upd_tasks P f db) = d_messages db"
  "d_proposals (upd_tasks P f db) = d_proposals db"
  "d_activity (upd_tasks P f db) = d_activity db"
  "d_activity_seq (upd_tasks P f db) = d_activity_seq db"
  "d_permissions (upd_tasks P f db) = d_permissions db"
  "d_rounds (upd_tasks P f db) = d_rounds db" "d_attempts (upd_tasks P f db) = d_attempts db"
  "d_lops (upd_tasks P f db) = d_lops db" "d_inputs (upd_tasks P f db) = d_inputs db"
  "d_questions (upd_tasks P f db) = d_questions db"
  "d_research_rounds (upd_tasks P f db) = d_research_rounds db"
  "d_links (upd_tasks P f db) = d_links db"
  "d_publications (upd_tasks P f db) = d_publications db"
  "d_outcomes (upd_tasks P f db) = d_outcomes db"
  "d_envelopes (upd_tasks P f db) = d_envelopes db"
  "d_envelope_revisions (upd_tasks P f db) = d_envelope_revisions db"
  "d_experiments (upd_tasks P f db) = d_experiments db" "d_waits (upd_tasks P f db) = d_waits db"
  "d_events (upd_tasks P f db) = d_events db" "d_decisions (upd_tasks P f db) = d_decisions db"
  "d_work_items (upd_tasks P f db) = d_work_items db"
  "d_workspace_events (upd_tasks P f db) = d_workspace_events db"
  "d_workspace_seq (upd_tasks P f db) = d_workspace_seq db"
  by (simp_all add: upd_tasks_def Let_def)

lemma upd_messages_sel [simp]:
  "d_messages (upd_messages P f db) = update_where P f (d_messages db)"
  "d_teams (upd_messages P f db) = d_teams db" "d_members (upd_messages P f db) = d_members db"
  "d_tasks (upd_messages P f db) = d_tasks db" "d_deps (upd_messages P f db) = d_deps db"
  "d_paths (upd_messages P f db) = d_paths db"
  "d_proposals (upd_messages P f db) = d_proposals db"
  "d_activity (upd_messages P f db) = d_activity db"
  "d_activity_seq (upd_messages P f db) = d_activity_seq db"
  "d_permissions (upd_messages P f db) = d_permissions db"
  "d_rounds (upd_messages P f db) = d_rounds db"
  "d_attempts (upd_messages P f db) = d_attempts db" "d_lops (upd_messages P f db) = d_lops db"
  "d_inputs (upd_messages P f db) = d_inputs db"
  "d_questions (upd_messages P f db) = d_questions db"
  "d_research_rounds (upd_messages P f db) = d_research_rounds db"
  "d_links (upd_messages P f db) = d_links db"
  "d_publications (upd_messages P f db) = d_publications db"
  "d_outcomes (upd_messages P f db) = d_outcomes db"
  "d_envelopes (upd_messages P f db) = d_envelopes db"
  "d_envelope_revisions (upd_messages P f db) = d_envelope_revisions db"
  "d_experiments (upd_messages P f db) = d_experiments db"
  "d_waits (upd_messages P f db) = d_waits db" "d_events (upd_messages P f db) = d_events db"
  "d_decisions (upd_messages P f db) = d_decisions db"
  "d_work_items (upd_messages P f db) = d_work_items db"
  "d_workspace_events (upd_messages P f db) = d_workspace_events db"
  "d_workspace_seq (upd_messages P f db) = d_workspace_seq db"
  by (simp_all add: upd_messages_def Let_def)

lemma upd_proposals_sel [simp]:
  "d_proposals (upd_proposals P f db) = update_where P f (d_proposals db)"
  "d_teams (upd_proposals P f db) = d_teams db" "d_members (upd_proposals P f db) = d_members db"
  "d_tasks (upd_proposals P f db) = d_tasks db" "d_deps (upd_proposals P f db) = d_deps db"
  "d_paths (upd_proposals P f db) = d_paths db"
  "d_messages (upd_proposals P f db) = d_messages db"
  "d_activity (upd_proposals P f db) = d_activity db"
  "d_activity_seq (upd_proposals P f db) = d_activity_seq db"
  "d_permissions (upd_proposals P f db) = d_permissions db"
  "d_rounds (upd_proposals P f db) = d_rounds db"
  "d_attempts (upd_proposals P f db) = d_attempts db" "d_lops (upd_proposals P f db) = d_lops db"
  "d_inputs (upd_proposals P f db) = d_inputs db"
  "d_questions (upd_proposals P f db) = d_questions db"
  "d_research_rounds (upd_proposals P f db) = d_research_rounds db"
  "d_links (upd_proposals P f db) = d_links db"
  "d_publications (upd_proposals P f db) = d_publications db"
  "d_outcomes (upd_proposals P f db) = d_outcomes db"
  "d_envelopes (upd_proposals P f db) = d_envelopes db"
  "d_envelope_revisions (upd_proposals P f db) = d_envelope_revisions db"
  "d_experiments (upd_proposals P f db) = d_experiments db"
  "d_waits (upd_proposals P f db) = d_waits db" "d_events (upd_proposals P f db) = d_events db"
  "d_decisions (upd_proposals P f db) = d_decisions db"
  "d_work_items (upd_proposals P f db) = d_work_items db"
  "d_workspace_events (upd_proposals P f db) = d_workspace_events db"
  "d_workspace_seq (upd_proposals P f db) = d_workspace_seq db"
  by (simp_all add: upd_proposals_def Let_def)

lemma upd_permissions_sel [simp]:
  "d_permissions (upd_permissions P f db) = update_where P f (d_permissions db)"
  "d_teams (upd_permissions P f db) = d_teams db"
  "d_members (upd_permissions P f db) = d_members db"
  "d_tasks (upd_permissions P f db) = d_tasks db" "d_deps (upd_permissions P f db) = d_deps db"
  "d_paths (upd_permissions P f db) = d_paths db"
  "d_messages (upd_permissions P f db) = d_messages db"
  "d_proposals (upd_permissions P f db) = d_proposals db"
  "d_activity (upd_permissions P f db) = d_activity db"
  "d_activity_seq (upd_permissions P f db) = d_activity_seq db"
  "d_rounds (upd_permissions P f db) = d_rounds db"
  "d_attempts (upd_permissions P f db) = d_attempts db"
  "d_lops (upd_permissions P f db) = d_lops db" "d_inputs (upd_permissions P f db) = d_inputs db"
  "d_questions (upd_permissions P f db) = d_questions db"
  "d_research_rounds (upd_permissions P f db) = d_research_rounds db"
  "d_links (upd_permissions P f db) = d_links db"
  "d_publications (upd_permissions P f db) = d_publications db"
  "d_outcomes (upd_permissions P f db) = d_outcomes db"
  "d_envelopes (upd_permissions P f db) = d_envelopes db"
  "d_envelope_revisions (upd_permissions P f db) = d_envelope_revisions db"
  "d_experiments (upd_permissions P f db) = d_experiments db"
  "d_waits (upd_permissions P f db) = d_waits db"
  "d_events (upd_permissions P f db) = d_events db"
  "d_decisions (upd_permissions P f db) = d_decisions db"
  "d_work_items (upd_permissions P f db) = d_work_items db"
  "d_workspace_events (upd_permissions P f db) = d_workspace_events db"
  "d_workspace_seq (upd_permissions P f db) = d_workspace_seq db"
  by (simp_all add: upd_permissions_def Let_def)

lemma upd_rounds_sel [simp]:
  "d_rounds (upd_rounds P f db) = update_where P f (d_rounds db)"
  "d_teams (upd_rounds P f db) = d_teams db" "d_members (upd_rounds P f db) = d_members db"
  "d_tasks (upd_rounds P f db) = d_tasks db" "d_deps (upd_rounds P f db) = d_deps db"
  "d_paths (upd_rounds P f db) = d_paths db" "d_messages (upd_rounds P f db) = d_messages db"
  "d_proposals (upd_rounds P f db) = d_proposals db"
  "d_activity (upd_rounds P f db) = d_activity db"
  "d_activity_seq (upd_rounds P f db) = d_activity_seq db"
  "d_permissions (upd_rounds P f db) = d_permissions db"
  "d_attempts (upd_rounds P f db) = d_attempts db" "d_lops (upd_rounds P f db) = d_lops db"
  "d_inputs (upd_rounds P f db) = d_inputs db" "d_questions (upd_rounds P f db) = d_questions db"
  "d_research_rounds (upd_rounds P f db) = d_research_rounds db"
  "d_links (upd_rounds P f db) = d_links db"
  "d_publications (upd_rounds P f db) = d_publications db"
  "d_outcomes (upd_rounds P f db) = d_outcomes db"
  "d_envelopes (upd_rounds P f db) = d_envelopes db"
  "d_envelope_revisions (upd_rounds P f db) = d_envelope_revisions db"
  "d_experiments (upd_rounds P f db) = d_experiments db"
  "d_waits (upd_rounds P f db) = d_waits db" "d_events (upd_rounds P f db) = d_events db"
  "d_decisions (upd_rounds P f db) = d_decisions db"
  "d_work_items (upd_rounds P f db) = d_work_items db"
  "d_workspace_events (upd_rounds P f db) = d_workspace_events db"
  "d_workspace_seq (upd_rounds P f db) = d_workspace_seq db"
  by (simp_all add: upd_rounds_def Let_def)

lemma upd_attempts_sel [simp]:
  "d_attempts (upd_attempts P f db) = update_where P f (d_attempts db)"
  "d_teams (upd_attempts P f db) = d_teams db" "d_members (upd_attempts P f db) = d_members db"
  "d_tasks (upd_attempts P f db) = d_tasks db" "d_deps (upd_attempts P f db) = d_deps db"
  "d_paths (upd_attempts P f db) = d_paths db" "d_messages (upd_attempts P f db) = d_messages db"
  "d_proposals (upd_attempts P f db) = d_proposals db"
  "d_activity (upd_attempts P f db) = d_activity db"
  "d_activity_seq (upd_attempts P f db) = d_activity_seq db"
  "d_permissions (upd_attempts P f db) = d_permissions db"
  "d_rounds (upd_attempts P f db) = d_rounds db" "d_lops (upd_attempts P f db) = d_lops db"
  "d_inputs (upd_attempts P f db) = d_inputs db"
  "d_questions (upd_attempts P f db) = d_questions db"
  "d_research_rounds (upd_attempts P f db) = d_research_rounds db"
  "d_links (upd_attempts P f db) = d_links db"
  "d_publications (upd_attempts P f db) = d_publications db"
  "d_outcomes (upd_attempts P f db) = d_outcomes db"
  "d_envelopes (upd_attempts P f db) = d_envelopes db"
  "d_envelope_revisions (upd_attempts P f db) = d_envelope_revisions db"
  "d_experiments (upd_attempts P f db) = d_experiments db"
  "d_waits (upd_attempts P f db) = d_waits db" "d_events (upd_attempts P f db) = d_events db"
  "d_decisions (upd_attempts P f db) = d_decisions db"
  "d_work_items (upd_attempts P f db) = d_work_items db"
  "d_workspace_events (upd_attempts P f db) = d_workspace_events db"
  "d_workspace_seq (upd_attempts P f db) = d_workspace_seq db"
  by (simp_all add: upd_attempts_def Let_def)

lemma upd_lops_sel [simp]:
  "d_lops (upd_lops P f db) = update_where P f (d_lops db)"
  "d_teams (upd_lops P f db) = d_teams db" "d_members (upd_lops P f db) = d_members db"
  "d_tasks (upd_lops P f db) = d_tasks db" "d_deps (upd_lops P f db) = d_deps db"
  "d_paths (upd_lops P f db) = d_paths db" "d_messages (upd_lops P f db) = d_messages db"
  "d_proposals (upd_lops P f db) = d_proposals db" "d_activity (upd_lops P f db) = d_activity db"
  "d_activity_seq (upd_lops P f db) = d_activity_seq db"
  "d_permissions (upd_lops P f db) = d_permissions db" "d_rounds (upd_lops P f db) = d_rounds db"
  "d_attempts (upd_lops P f db) = d_attempts db" "d_inputs (upd_lops P f db) = d_inputs db"
  "d_questions (upd_lops P f db) = d_questions db"
  "d_research_rounds (upd_lops P f db) = d_research_rounds db"
  "d_links (upd_lops P f db) = d_links db" "d_publications (upd_lops P f db) = d_publications db"
  "d_outcomes (upd_lops P f db) = d_outcomes db" "d_envelopes (upd_lops P f db) = d_envelopes db"
  "d_envelope_revisions (upd_lops P f db) = d_envelope_revisions db"
  "d_experiments (upd_lops P f db) = d_experiments db" "d_waits (upd_lops P f db) = d_waits db"
  "d_events (upd_lops P f db) = d_events db" "d_decisions (upd_lops P f db) = d_decisions db"
  "d_work_items (upd_lops P f db) = d_work_items db"
  "d_workspace_events (upd_lops P f db) = d_workspace_events db"
  "d_workspace_seq (upd_lops P f db) = d_workspace_seq db"
  by (simp_all add: upd_lops_def Let_def)

lemma upd_inputs_sel [simp]:
  "d_inputs (upd_inputs P f db) = update_where P f (d_inputs db)"
  "d_teams (upd_inputs P f db) = d_teams db" "d_members (upd_inputs P f db) = d_members db"
  "d_tasks (upd_inputs P f db) = d_tasks db" "d_deps (upd_inputs P f db) = d_deps db"
  "d_paths (upd_inputs P f db) = d_paths db" "d_messages (upd_inputs P f db) = d_messages db"
  "d_proposals (upd_inputs P f db) = d_proposals db"
  "d_activity (upd_inputs P f db) = d_activity db"
  "d_activity_seq (upd_inputs P f db) = d_activity_seq db"
  "d_permissions (upd_inputs P f db) = d_permissions db"
  "d_rounds (upd_inputs P f db) = d_rounds db" "d_attempts (upd_inputs P f db) = d_attempts db"
  "d_lops (upd_inputs P f db) = d_lops db" "d_questions (upd_inputs P f db) = d_questions db"
  "d_research_rounds (upd_inputs P f db) = d_research_rounds db"
  "d_links (upd_inputs P f db) = d_links db"
  "d_publications (upd_inputs P f db) = d_publications db"
  "d_outcomes (upd_inputs P f db) = d_outcomes db"
  "d_envelopes (upd_inputs P f db) = d_envelopes db"
  "d_envelope_revisions (upd_inputs P f db) = d_envelope_revisions db"
  "d_experiments (upd_inputs P f db) = d_experiments db"
  "d_waits (upd_inputs P f db) = d_waits db" "d_events (upd_inputs P f db) = d_events db"
  "d_decisions (upd_inputs P f db) = d_decisions db"
  "d_work_items (upd_inputs P f db) = d_work_items db"
  "d_workspace_events (upd_inputs P f db) = d_workspace_events db"
  "d_workspace_seq (upd_inputs P f db) = d_workspace_seq db"
  by (simp_all add: upd_inputs_def Let_def)

lemma upd_envelopes_sel [simp]:
  "d_envelopes (upd_envelopes P f db) = update_where P f (d_envelopes db)"
  "d_teams (upd_envelopes P f db) = d_teams db" "d_members (upd_envelopes P f db) = d_members db"
  "d_tasks (upd_envelopes P f db) = d_tasks db" "d_deps (upd_envelopes P f db) = d_deps db"
  "d_paths (upd_envelopes P f db) = d_paths db"
  "d_messages (upd_envelopes P f db) = d_messages db"
  "d_proposals (upd_envelopes P f db) = d_proposals db"
  "d_activity (upd_envelopes P f db) = d_activity db"
  "d_activity_seq (upd_envelopes P f db) = d_activity_seq db"
  "d_permissions (upd_envelopes P f db) = d_permissions db"
  "d_rounds (upd_envelopes P f db) = d_rounds db"
  "d_attempts (upd_envelopes P f db) = d_attempts db" "d_lops (upd_envelopes P f db) = d_lops db"
  "d_inputs (upd_envelopes P f db) = d_inputs db"
  "d_questions (upd_envelopes P f db) = d_questions db"
  "d_research_rounds (upd_envelopes P f db) = d_research_rounds db"
  "d_links (upd_envelopes P f db) = d_links db"
  "d_publications (upd_envelopes P f db) = d_publications db"
  "d_outcomes (upd_envelopes P f db) = d_outcomes db"
  "d_envelope_revisions (upd_envelopes P f db) = d_envelope_revisions db"
  "d_experiments (upd_envelopes P f db) = d_experiments db"
  "d_waits (upd_envelopes P f db) = d_waits db" "d_events (upd_envelopes P f db) = d_events db"
  "d_decisions (upd_envelopes P f db) = d_decisions db"
  "d_work_items (upd_envelopes P f db) = d_work_items db"
  "d_workspace_events (upd_envelopes P f db) = d_workspace_events db"
  "d_workspace_seq (upd_envelopes P f db) = d_workspace_seq db"
  by (simp_all add: upd_envelopes_def Let_def)

lemma upd_experiments_sel [simp]:
  "d_experiments (upd_experiments P f db) = update_where P f (d_experiments db)"
  "d_teams (upd_experiments P f db) = d_teams db"
  "d_members (upd_experiments P f db) = d_members db"
  "d_tasks (upd_experiments P f db) = d_tasks db" "d_deps (upd_experiments P f db) = d_deps db"
  "d_paths (upd_experiments P f db) = d_paths db"
  "d_messages (upd_experiments P f db) = d_messages db"
  "d_proposals (upd_experiments P f db) = d_proposals db"
  "d_activity (upd_experiments P f db) = d_activity db"
  "d_activity_seq (upd_experiments P f db) = d_activity_seq db"
  "d_permissions (upd_experiments P f db) = d_permissions db"
  "d_rounds (upd_experiments P f db) = d_rounds db"
  "d_attempts (upd_experiments P f db) = d_attempts db"
  "d_lops (upd_experiments P f db) = d_lops db" "d_inputs (upd_experiments P f db) = d_inputs db"
  "d_questions (upd_experiments P f db) = d_questions db"
  "d_research_rounds (upd_experiments P f db) = d_research_rounds db"
  "d_links (upd_experiments P f db) = d_links db"
  "d_publications (upd_experiments P f db) = d_publications db"
  "d_outcomes (upd_experiments P f db) = d_outcomes db"
  "d_envelopes (upd_experiments P f db) = d_envelopes db"
  "d_envelope_revisions (upd_experiments P f db) = d_envelope_revisions db"
  "d_waits (upd_experiments P f db) = d_waits db"
  "d_events (upd_experiments P f db) = d_events db"
  "d_decisions (upd_experiments P f db) = d_decisions db"
  "d_work_items (upd_experiments P f db) = d_work_items db"
  "d_workspace_events (upd_experiments P f db) = d_workspace_events db"
  "d_workspace_seq (upd_experiments P f db) = d_workspace_seq db"
  by (simp_all add: upd_experiments_def Let_def)

lemma upd_waits_sel [simp]:
  "d_waits (upd_waits P f db) = update_where P f (d_waits db)"
  "d_teams (upd_waits P f db) = d_teams db" "d_members (upd_waits P f db) = d_members db"
  "d_tasks (upd_waits P f db) = d_tasks db" "d_deps (upd_waits P f db) = d_deps db"
  "d_paths (upd_waits P f db) = d_paths db" "d_messages (upd_waits P f db) = d_messages db"
  "d_proposals (upd_waits P f db) = d_proposals db"
  "d_activity (upd_waits P f db) = d_activity db"
  "d_activity_seq (upd_waits P f db) = d_activity_seq db"
  "d_permissions (upd_waits P f db) = d_permissions db"
  "d_rounds (upd_waits P f db) = d_rounds db" "d_attempts (upd_waits P f db) = d_attempts db"
  "d_lops (upd_waits P f db) = d_lops db" "d_inputs (upd_waits P f db) = d_inputs db"
  "d_questions (upd_waits P f db) = d_questions db"
  "d_research_rounds (upd_waits P f db) = d_research_rounds db"
  "d_links (upd_waits P f db) = d_links db"
  "d_publications (upd_waits P f db) = d_publications db"
  "d_outcomes (upd_waits P f db) = d_outcomes db"
  "d_envelopes (upd_waits P f db) = d_envelopes db"
  "d_envelope_revisions (upd_waits P f db) = d_envelope_revisions db"
  "d_experiments (upd_waits P f db) = d_experiments db"
  "d_events (upd_waits P f db) = d_events db" "d_decisions (upd_waits P f db) = d_decisions db"
  "d_work_items (upd_waits P f db) = d_work_items db"
  "d_workspace_events (upd_waits P f db) = d_workspace_events db"
  "d_workspace_seq (upd_waits P f db) = d_workspace_seq db"
  by (simp_all add: upd_waits_def Let_def)

lemma upd_events_sel [simp]:
  "d_events (upd_events P f db) = update_where P f (d_events db)"
  "d_teams (upd_events P f db) = d_teams db" "d_members (upd_events P f db) = d_members db"
  "d_tasks (upd_events P f db) = d_tasks db" "d_deps (upd_events P f db) = d_deps db"
  "d_paths (upd_events P f db) = d_paths db" "d_messages (upd_events P f db) = d_messages db"
  "d_proposals (upd_events P f db) = d_proposals db"
  "d_activity (upd_events P f db) = d_activity db"
  "d_activity_seq (upd_events P f db) = d_activity_seq db"
  "d_permissions (upd_events P f db) = d_permissions db"
  "d_rounds (upd_events P f db) = d_rounds db" "d_attempts (upd_events P f db) = d_attempts db"
  "d_lops (upd_events P f db) = d_lops db" "d_inputs (upd_events P f db) = d_inputs db"
  "d_questions (upd_events P f db) = d_questions db"
  "d_research_rounds (upd_events P f db) = d_research_rounds db"
  "d_links (upd_events P f db) = d_links db"
  "d_publications (upd_events P f db) = d_publications db"
  "d_outcomes (upd_events P f db) = d_outcomes db"
  "d_envelopes (upd_events P f db) = d_envelopes db"
  "d_envelope_revisions (upd_events P f db) = d_envelope_revisions db"
  "d_experiments (upd_events P f db) = d_experiments db"
  "d_waits (upd_events P f db) = d_waits db" "d_decisions (upd_events P f db) = d_decisions db"
  "d_work_items (upd_events P f db) = d_work_items db"
  "d_workspace_events (upd_events P f db) = d_workspace_events db"
  "d_workspace_seq (upd_events P f db) = d_workspace_seq db"
  by (simp_all add: upd_events_def Let_def)

lemma put_teams_sel [simp]:
  "d_teams (put_teams r db) = d_teams db @ [r]"
  "d_members (put_teams r db) = d_members db" "d_tasks (put_teams r db) = d_tasks db"
  "d_deps (put_teams r db) = d_deps db" "d_paths (put_teams r db) = d_paths db"
  "d_messages (put_teams r db) = d_messages db" "d_proposals (put_teams r db) = d_proposals db"
  "d_activity (put_teams r db) = d_activity db"
  "d_activity_seq (put_teams r db) = d_activity_seq db"
  "d_permissions (put_teams r db) = d_permissions db" "d_rounds (put_teams r db) = d_rounds db"
  "d_attempts (put_teams r db) = d_attempts db" "d_lops (put_teams r db) = d_lops db"
  "d_inputs (put_teams r db) = d_inputs db" "d_questions (put_teams r db) = d_questions db"
  "d_research_rounds (put_teams r db) = d_research_rounds db"
  "d_links (put_teams r db) = d_links db" "d_publications (put_teams r db) = d_publications db"
  "d_outcomes (put_teams r db) = d_outcomes db" "d_envelopes (put_teams r db) = d_envelopes db"
  "d_envelope_revisions (put_teams r db) = d_envelope_revisions db"
  "d_experiments (put_teams r db) = d_experiments db" "d_waits (put_teams r db) = d_waits db"
  "d_events (put_teams r db) = d_events db" "d_decisions (put_teams r db) = d_decisions db"
  "d_work_items (put_teams r db) = d_work_items db"
  "d_workspace_events (put_teams r db) = d_workspace_events db"
  "d_workspace_seq (put_teams r db) = d_workspace_seq db"
  by (simp_all add: put_teams_def Let_def)

lemma put_members_sel [simp]:
  "d_members (put_members r db) = d_members db @ [r]"
  "d_teams (put_members r db) = d_teams db" "d_tasks (put_members r db) = d_tasks db"
  "d_deps (put_members r db) = d_deps db" "d_paths (put_members r db) = d_paths db"
  "d_messages (put_members r db) = d_messages db"
  "d_proposals (put_members r db) = d_proposals db"
  "d_activity (put_members r db) = d_activity db"
  "d_activity_seq (put_members r db) = d_activity_seq db"
  "d_permissions (put_members r db) = d_permissions db"
  "d_rounds (put_members r db) = d_rounds db" "d_attempts (put_members r db) = d_attempts db"
  "d_lops (put_members r db) = d_lops db" "d_inputs (put_members r db) = d_inputs db"
  "d_questions (put_members r db) = d_questions db"
  "d_research_rounds (put_members r db) = d_research_rounds db"
  "d_links (put_members r db) = d_links db"
  "d_publications (put_members r db) = d_publications db"
  "d_outcomes (put_members r db) = d_outcomes db"
  "d_envelopes (put_members r db) = d_envelopes db"
  "d_envelope_revisions (put_members r db) = d_envelope_revisions db"
  "d_experiments (put_members r db) = d_experiments db" "d_waits (put_members r db) = d_waits db"
  "d_events (put_members r db) = d_events db" "d_decisions (put_members r db) = d_decisions db"
  "d_work_items (put_members r db) = d_work_items db"
  "d_workspace_events (put_members r db) = d_workspace_events db"
  "d_workspace_seq (put_members r db) = d_workspace_seq db"
  by (simp_all add: put_members_def Let_def)

lemma put_tasks_sel [simp]:
  "d_tasks (put_tasks r db) = d_tasks db @ [r]"
  "d_teams (put_tasks r db) = d_teams db" "d_members (put_tasks r db) = d_members db"
  "d_deps (put_tasks r db) = d_deps db" "d_paths (put_tasks r db) = d_paths db"
  "d_messages (put_tasks r db) = d_messages db" "d_proposals (put_tasks r db) = d_proposals db"
  "d_activity (put_tasks r db) = d_activity db"
  "d_activity_seq (put_tasks r db) = d_activity_seq db"
  "d_permissions (put_tasks r db) = d_permissions db" "d_rounds (put_tasks r db) = d_rounds db"
  "d_attempts (put_tasks r db) = d_attempts db" "d_lops (put_tasks r db) = d_lops db"
  "d_inputs (put_tasks r db) = d_inputs db" "d_questions (put_tasks r db) = d_questions db"
  "d_research_rounds (put_tasks r db) = d_research_rounds db"
  "d_links (put_tasks r db) = d_links db" "d_publications (put_tasks r db) = d_publications db"
  "d_outcomes (put_tasks r db) = d_outcomes db" "d_envelopes (put_tasks r db) = d_envelopes db"
  "d_envelope_revisions (put_tasks r db) = d_envelope_revisions db"
  "d_experiments (put_tasks r db) = d_experiments db" "d_waits (put_tasks r db) = d_waits db"
  "d_events (put_tasks r db) = d_events db" "d_decisions (put_tasks r db) = d_decisions db"
  "d_work_items (put_tasks r db) = d_work_items db"
  "d_workspace_events (put_tasks r db) = d_workspace_events db"
  "d_workspace_seq (put_tasks r db) = d_workspace_seq db"
  by (simp_all add: put_tasks_def Let_def)

lemma put_deps_sel [simp]:
  "d_deps (put_deps r db) = d_deps db @ [r]"
  "d_teams (put_deps r db) = d_teams db" "d_members (put_deps r db) = d_members db"
  "d_tasks (put_deps r db) = d_tasks db" "d_paths (put_deps r db) = d_paths db"
  "d_messages (put_deps r db) = d_messages db" "d_proposals (put_deps r db) = d_proposals db"
  "d_activity (put_deps r db) = d_activity db"
  "d_activity_seq (put_deps r db) = d_activity_seq db"
  "d_permissions (put_deps r db) = d_permissions db" "d_rounds (put_deps r db) = d_rounds db"
  "d_attempts (put_deps r db) = d_attempts db" "d_lops (put_deps r db) = d_lops db"
  "d_inputs (put_deps r db) = d_inputs db" "d_questions (put_deps r db) = d_questions db"
  "d_research_rounds (put_deps r db) = d_research_rounds db"
  "d_links (put_deps r db) = d_links db" "d_publications (put_deps r db) = d_publications db"
  "d_outcomes (put_deps r db) = d_outcomes db" "d_envelopes (put_deps r db) = d_envelopes db"
  "d_envelope_revisions (put_deps r db) = d_envelope_revisions db"
  "d_experiments (put_deps r db) = d_experiments db" "d_waits (put_deps r db) = d_waits db"
  "d_events (put_deps r db) = d_events db" "d_decisions (put_deps r db) = d_decisions db"
  "d_work_items (put_deps r db) = d_work_items db"
  "d_workspace_events (put_deps r db) = d_workspace_events db"
  "d_workspace_seq (put_deps r db) = d_workspace_seq db"
  by (simp_all add: put_deps_def Let_def)

lemma put_paths_sel [simp]:
  "d_paths (put_paths r db) = d_paths db @ [r]"
  "d_teams (put_paths r db) = d_teams db" "d_members (put_paths r db) = d_members db"
  "d_tasks (put_paths r db) = d_tasks db" "d_deps (put_paths r db) = d_deps db"
  "d_messages (put_paths r db) = d_messages db" "d_proposals (put_paths r db) = d_proposals db"
  "d_activity (put_paths r db) = d_activity db"
  "d_activity_seq (put_paths r db) = d_activity_seq db"
  "d_permissions (put_paths r db) = d_permissions db" "d_rounds (put_paths r db) = d_rounds db"
  "d_attempts (put_paths r db) = d_attempts db" "d_lops (put_paths r db) = d_lops db"
  "d_inputs (put_paths r db) = d_inputs db" "d_questions (put_paths r db) = d_questions db"
  "d_research_rounds (put_paths r db) = d_research_rounds db"
  "d_links (put_paths r db) = d_links db" "d_publications (put_paths r db) = d_publications db"
  "d_outcomes (put_paths r db) = d_outcomes db" "d_envelopes (put_paths r db) = d_envelopes db"
  "d_envelope_revisions (put_paths r db) = d_envelope_revisions db"
  "d_experiments (put_paths r db) = d_experiments db" "d_waits (put_paths r db) = d_waits db"
  "d_events (put_paths r db) = d_events db" "d_decisions (put_paths r db) = d_decisions db"
  "d_work_items (put_paths r db) = d_work_items db"
  "d_workspace_events (put_paths r db) = d_workspace_events db"
  "d_workspace_seq (put_paths r db) = d_workspace_seq db"
  by (simp_all add: put_paths_def Let_def)

lemma put_messages_sel [simp]:
  "d_messages (put_messages r db) = d_messages db @ [r]"
  "d_teams (put_messages r db) = d_teams db" "d_members (put_messages r db) = d_members db"
  "d_tasks (put_messages r db) = d_tasks db" "d_deps (put_messages r db) = d_deps db"
  "d_paths (put_messages r db) = d_paths db" "d_proposals (put_messages r db) = d_proposals db"
  "d_activity (put_messages r db) = d_activity db"
  "d_activity_seq (put_messages r db) = d_activity_seq db"
  "d_permissions (put_messages r db) = d_permissions db"
  "d_rounds (put_messages r db) = d_rounds db" "d_attempts (put_messages r db) = d_attempts db"
  "d_lops (put_messages r db) = d_lops db" "d_inputs (put_messages r db) = d_inputs db"
  "d_questions (put_messages r db) = d_questions db"
  "d_research_rounds (put_messages r db) = d_research_rounds db"
  "d_links (put_messages r db) = d_links db"
  "d_publications (put_messages r db) = d_publications db"
  "d_outcomes (put_messages r db) = d_outcomes db"
  "d_envelopes (put_messages r db) = d_envelopes db"
  "d_envelope_revisions (put_messages r db) = d_envelope_revisions db"
  "d_experiments (put_messages r db) = d_experiments db"
  "d_waits (put_messages r db) = d_waits db" "d_events (put_messages r db) = d_events db"
  "d_decisions (put_messages r db) = d_decisions db"
  "d_work_items (put_messages r db) = d_work_items db"
  "d_workspace_events (put_messages r db) = d_workspace_events db"
  "d_workspace_seq (put_messages r db) = d_workspace_seq db"
  by (simp_all add: put_messages_def Let_def)

lemma put_proposals_sel [simp]:
  "d_proposals (put_proposals r db) = d_proposals db @ [r]"
  "d_teams (put_proposals r db) = d_teams db" "d_members (put_proposals r db) = d_members db"
  "d_tasks (put_proposals r db) = d_tasks db" "d_deps (put_proposals r db) = d_deps db"
  "d_paths (put_proposals r db) = d_paths db" "d_messages (put_proposals r db) = d_messages db"
  "d_activity (put_proposals r db) = d_activity db"
  "d_activity_seq (put_proposals r db) = d_activity_seq db"
  "d_permissions (put_proposals r db) = d_permissions db"
  "d_rounds (put_proposals r db) = d_rounds db" "d_attempts (put_proposals r db) = d_attempts db"
  "d_lops (put_proposals r db) = d_lops db" "d_inputs (put_proposals r db) = d_inputs db"
  "d_questions (put_proposals r db) = d_questions db"
  "d_research_rounds (put_proposals r db) = d_research_rounds db"
  "d_links (put_proposals r db) = d_links db"
  "d_publications (put_proposals r db) = d_publications db"
  "d_outcomes (put_proposals r db) = d_outcomes db"
  "d_envelopes (put_proposals r db) = d_envelopes db"
  "d_envelope_revisions (put_proposals r db) = d_envelope_revisions db"
  "d_experiments (put_proposals r db) = d_experiments db"
  "d_waits (put_proposals r db) = d_waits db" "d_events (put_proposals r db) = d_events db"
  "d_decisions (put_proposals r db) = d_decisions db"
  "d_work_items (put_proposals r db) = d_work_items db"
  "d_workspace_events (put_proposals r db) = d_workspace_events db"
  "d_workspace_seq (put_proposals r db) = d_workspace_seq db"
  by (simp_all add: put_proposals_def Let_def)

lemma put_permissions_sel [simp]:
  "d_permissions (put_permissions r db) = d_permissions db @ [r]"
  "d_teams (put_permissions r db) = d_teams db" "d_members (put_permissions r db) = d_members db"
  "d_tasks (put_permissions r db) = d_tasks db" "d_deps (put_permissions r db) = d_deps db"
  "d_paths (put_permissions r db) = d_paths db"
  "d_messages (put_permissions r db) = d_messages db"
  "d_proposals (put_permissions r db) = d_proposals db"
  "d_activity (put_permissions r db) = d_activity db"
  "d_activity_seq (put_permissions r db) = d_activity_seq db"
  "d_rounds (put_permissions r db) = d_rounds db"
  "d_attempts (put_permissions r db) = d_attempts db" "d_lops (put_permissions r db) = d_lops db"
  "d_inputs (put_permissions r db) = d_inputs db"
  "d_questions (put_permissions r db) = d_questions db"
  "d_research_rounds (put_permissions r db) = d_research_rounds db"
  "d_links (put_permissions r db) = d_links db"
  "d_publications (put_permissions r db) = d_publications db"
  "d_outcomes (put_permissions r db) = d_outcomes db"
  "d_envelopes (put_permissions r db) = d_envelopes db"
  "d_envelope_revisions (put_permissions r db) = d_envelope_revisions db"
  "d_experiments (put_permissions r db) = d_experiments db"
  "d_waits (put_permissions r db) = d_waits db" "d_events (put_permissions r db) = d_events db"
  "d_decisions (put_permissions r db) = d_decisions db"
  "d_work_items (put_permissions r db) = d_work_items db"
  "d_workspace_events (put_permissions r db) = d_workspace_events db"
  "d_workspace_seq (put_permissions r db) = d_workspace_seq db"
  by (simp_all add: put_permissions_def Let_def)

lemma put_rounds_sel [simp]:
  "d_rounds (put_rounds r db) = d_rounds db @ [r]"
  "d_teams (put_rounds r db) = d_teams db" "d_members (put_rounds r db) = d_members db"
  "d_tasks (put_rounds r db) = d_tasks db" "d_deps (put_rounds r db) = d_deps db"
  "d_paths (put_rounds r db) = d_paths db" "d_messages (put_rounds r db) = d_messages db"
  "d_proposals (put_rounds r db) = d_proposals db" "d_activity (put_rounds r db) = d_activity db"
  "d_activity_seq (put_rounds r db) = d_activity_seq db"
  "d_permissions (put_rounds r db) = d_permissions db"
  "d_attempts (put_rounds r db) = d_attempts db" "d_lops (put_rounds r db) = d_lops db"
  "d_inputs (put_rounds r db) = d_inputs db" "d_questions (put_rounds r db) = d_questions db"
  "d_research_rounds (put_rounds r db) = d_research_rounds db"
  "d_links (put_rounds r db) = d_links db" "d_publications (put_rounds r db) = d_publications db"
  "d_outcomes (put_rounds r db) = d_outcomes db" "d_envelopes (put_rounds r db) = d_envelopes db"
  "d_envelope_revisions (put_rounds r db) = d_envelope_revisions db"
  "d_experiments (put_rounds r db) = d_experiments db" "d_waits (put_rounds r db) = d_waits db"
  "d_events (put_rounds r db) = d_events db" "d_decisions (put_rounds r db) = d_decisions db"
  "d_work_items (put_rounds r db) = d_work_items db"
  "d_workspace_events (put_rounds r db) = d_workspace_events db"
  "d_workspace_seq (put_rounds r db) = d_workspace_seq db"
  by (simp_all add: put_rounds_def Let_def)

lemma put_attempts_sel [simp]:
  "d_attempts (put_attempts r db) = d_attempts db @ [r]"
  "d_teams (put_attempts r db) = d_teams db" "d_members (put_attempts r db) = d_members db"
  "d_tasks (put_attempts r db) = d_tasks db" "d_deps (put_attempts r db) = d_deps db"
  "d_paths (put_attempts r db) = d_paths db" "d_messages (put_attempts r db) = d_messages db"
  "d_proposals (put_attempts r db) = d_proposals db"
  "d_activity (put_attempts r db) = d_activity db"
  "d_activity_seq (put_attempts r db) = d_activity_seq db"
  "d_permissions (put_attempts r db) = d_permissions db"
  "d_rounds (put_attempts r db) = d_rounds db" "d_lops (put_attempts r db) = d_lops db"
  "d_inputs (put_attempts r db) = d_inputs db" "d_questions (put_attempts r db) = d_questions db"
  "d_research_rounds (put_attempts r db) = d_research_rounds db"
  "d_links (put_attempts r db) = d_links db"
  "d_publications (put_attempts r db) = d_publications db"
  "d_outcomes (put_attempts r db) = d_outcomes db"
  "d_envelopes (put_attempts r db) = d_envelopes db"
  "d_envelope_revisions (put_attempts r db) = d_envelope_revisions db"
  "d_experiments (put_attempts r db) = d_experiments db"
  "d_waits (put_attempts r db) = d_waits db" "d_events (put_attempts r db) = d_events db"
  "d_decisions (put_attempts r db) = d_decisions db"
  "d_work_items (put_attempts r db) = d_work_items db"
  "d_workspace_events (put_attempts r db) = d_workspace_events db"
  "d_workspace_seq (put_attempts r db) = d_workspace_seq db"
  by (simp_all add: put_attempts_def Let_def)

lemma put_lops_sel [simp]:
  "d_lops (put_lops r db) = d_lops db @ [r]"
  "d_teams (put_lops r db) = d_teams db" "d_members (put_lops r db) = d_members db"
  "d_tasks (put_lops r db) = d_tasks db" "d_deps (put_lops r db) = d_deps db"
  "d_paths (put_lops r db) = d_paths db" "d_messages (put_lops r db) = d_messages db"
  "d_proposals (put_lops r db) = d_proposals db" "d_activity (put_lops r db) = d_activity db"
  "d_activity_seq (put_lops r db) = d_activity_seq db"
  "d_permissions (put_lops r db) = d_permissions db" "d_rounds (put_lops r db) = d_rounds db"
  "d_attempts (put_lops r db) = d_attempts db" "d_inputs (put_lops r db) = d_inputs db"
  "d_questions (put_lops r db) = d_questions db"
  "d_research_rounds (put_lops r db) = d_research_rounds db"
  "d_links (put_lops r db) = d_links db" "d_publications (put_lops r db) = d_publications db"
  "d_outcomes (put_lops r db) = d_outcomes db" "d_envelopes (put_lops r db) = d_envelopes db"
  "d_envelope_revisions (put_lops r db) = d_envelope_revisions db"
  "d_experiments (put_lops r db) = d_experiments db" "d_waits (put_lops r db) = d_waits db"
  "d_events (put_lops r db) = d_events db" "d_decisions (put_lops r db) = d_decisions db"
  "d_work_items (put_lops r db) = d_work_items db"
  "d_workspace_events (put_lops r db) = d_workspace_events db"
  "d_workspace_seq (put_lops r db) = d_workspace_seq db"
  by (simp_all add: put_lops_def Let_def)

lemma put_inputs_sel [simp]:
  "d_inputs (put_inputs r db) = d_inputs db @ [r]"
  "d_teams (put_inputs r db) = d_teams db" "d_members (put_inputs r db) = d_members db"
  "d_tasks (put_inputs r db) = d_tasks db" "d_deps (put_inputs r db) = d_deps db"
  "d_paths (put_inputs r db) = d_paths db" "d_messages (put_inputs r db) = d_messages db"
  "d_proposals (put_inputs r db) = d_proposals db" "d_activity (put_inputs r db) = d_activity db"
  "d_activity_seq (put_inputs r db) = d_activity_seq db"
  "d_permissions (put_inputs r db) = d_permissions db" "d_rounds (put_inputs r db) = d_rounds db"
  "d_attempts (put_inputs r db) = d_attempts db" "d_lops (put_inputs r db) = d_lops db"
  "d_questions (put_inputs r db) = d_questions db"
  "d_research_rounds (put_inputs r db) = d_research_rounds db"
  "d_links (put_inputs r db) = d_links db" "d_publications (put_inputs r db) = d_publications db"
  "d_outcomes (put_inputs r db) = d_outcomes db" "d_envelopes (put_inputs r db) = d_envelopes db"
  "d_envelope_revisions (put_inputs r db) = d_envelope_revisions db"
  "d_experiments (put_inputs r db) = d_experiments db" "d_waits (put_inputs r db) = d_waits db"
  "d_events (put_inputs r db) = d_events db" "d_decisions (put_inputs r db) = d_decisions db"
  "d_work_items (put_inputs r db) = d_work_items db"
  "d_workspace_events (put_inputs r db) = d_workspace_events db"
  "d_workspace_seq (put_inputs r db) = d_workspace_seq db"
  by (simp_all add: put_inputs_def Let_def)

lemma put_envelopes_sel [simp]:
  "d_envelopes (put_envelopes r db) = d_envelopes db @ [r]"
  "d_teams (put_envelopes r db) = d_teams db" "d_members (put_envelopes r db) = d_members db"
  "d_tasks (put_envelopes r db) = d_tasks db" "d_deps (put_envelopes r db) = d_deps db"
  "d_paths (put_envelopes r db) = d_paths db" "d_messages (put_envelopes r db) = d_messages db"
  "d_proposals (put_envelopes r db) = d_proposals db"
  "d_activity (put_envelopes r db) = d_activity db"
  "d_activity_seq (put_envelopes r db) = d_activity_seq db"
  "d_permissions (put_envelopes r db) = d_permissions db"
  "d_rounds (put_envelopes r db) = d_rounds db" "d_attempts (put_envelopes r db) = d_attempts db"
  "d_lops (put_envelopes r db) = d_lops db" "d_inputs (put_envelopes r db) = d_inputs db"
  "d_questions (put_envelopes r db) = d_questions db"
  "d_research_rounds (put_envelopes r db) = d_research_rounds db"
  "d_links (put_envelopes r db) = d_links db"
  "d_publications (put_envelopes r db) = d_publications db"
  "d_outcomes (put_envelopes r db) = d_outcomes db"
  "d_envelope_revisions (put_envelopes r db) = d_envelope_revisions db"
  "d_experiments (put_envelopes r db) = d_experiments db"
  "d_waits (put_envelopes r db) = d_waits db" "d_events (put_envelopes r db) = d_events db"
  "d_decisions (put_envelopes r db) = d_decisions db"
  "d_work_items (put_envelopes r db) = d_work_items db"
  "d_workspace_events (put_envelopes r db) = d_workspace_events db"
  "d_workspace_seq (put_envelopes r db) = d_workspace_seq db"
  by (simp_all add: put_envelopes_def Let_def)

lemma put_envelope_revisions_sel [simp]:
  "d_envelope_revisions (put_envelope_revisions r db) = d_envelope_revisions db @ [r]"
  "d_teams (put_envelope_revisions r db) = d_teams db"
  "d_members (put_envelope_revisions r db) = d_members db"
  "d_tasks (put_envelope_revisions r db) = d_tasks db"
  "d_deps (put_envelope_revisions r db) = d_deps db"
  "d_paths (put_envelope_revisions r db) = d_paths db"
  "d_messages (put_envelope_revisions r db) = d_messages db"
  "d_proposals (put_envelope_revisions r db) = d_proposals db"
  "d_activity (put_envelope_revisions r db) = d_activity db"
  "d_activity_seq (put_envelope_revisions r db) = d_activity_seq db"
  "d_permissions (put_envelope_revisions r db) = d_permissions db"
  "d_rounds (put_envelope_revisions r db) = d_rounds db"
  "d_attempts (put_envelope_revisions r db) = d_attempts db"
  "d_lops (put_envelope_revisions r db) = d_lops db"
  "d_inputs (put_envelope_revisions r db) = d_inputs db"
  "d_questions (put_envelope_revisions r db) = d_questions db"
  "d_research_rounds (put_envelope_revisions r db) = d_research_rounds db"
  "d_links (put_envelope_revisions r db) = d_links db"
  "d_publications (put_envelope_revisions r db) = d_publications db"
  "d_outcomes (put_envelope_revisions r db) = d_outcomes db"
  "d_envelopes (put_envelope_revisions r db) = d_envelopes db"
  "d_experiments (put_envelope_revisions r db) = d_experiments db"
  "d_waits (put_envelope_revisions r db) = d_waits db"
  "d_events (put_envelope_revisions r db) = d_events db"
  "d_decisions (put_envelope_revisions r db) = d_decisions db"
  "d_work_items (put_envelope_revisions r db) = d_work_items db"
  "d_workspace_events (put_envelope_revisions r db) = d_workspace_events db"
  "d_workspace_seq (put_envelope_revisions r db) = d_workspace_seq db"
  by (simp_all add: put_envelope_revisions_def Let_def)

lemma put_experiments_sel [simp]:
  "d_experiments (put_experiments r db) = d_experiments db @ [r]"
  "d_teams (put_experiments r db) = d_teams db" "d_members (put_experiments r db) = d_members db"
  "d_tasks (put_experiments r db) = d_tasks db" "d_deps (put_experiments r db) = d_deps db"
  "d_paths (put_experiments r db) = d_paths db"
  "d_messages (put_experiments r db) = d_messages db"
  "d_proposals (put_experiments r db) = d_proposals db"
  "d_activity (put_experiments r db) = d_activity db"
  "d_activity_seq (put_experiments r db) = d_activity_seq db"
  "d_permissions (put_experiments r db) = d_permissions db"
  "d_rounds (put_experiments r db) = d_rounds db"
  "d_attempts (put_experiments r db) = d_attempts db" "d_lops (put_experiments r db) = d_lops db"
  "d_inputs (put_experiments r db) = d_inputs db"
  "d_questions (put_experiments r db) = d_questions db"
  "d_research_rounds (put_experiments r db) = d_research_rounds db"
  "d_links (put_experiments r db) = d_links db"
  "d_publications (put_experiments r db) = d_publications db"
  "d_outcomes (put_experiments r db) = d_outcomes db"
  "d_envelopes (put_experiments r db) = d_envelopes db"
  "d_envelope_revisions (put_experiments r db) = d_envelope_revisions db"
  "d_waits (put_experiments r db) = d_waits db" "d_events (put_experiments r db) = d_events db"
  "d_decisions (put_experiments r db) = d_decisions db"
  "d_work_items (put_experiments r db) = d_work_items db"
  "d_workspace_events (put_experiments r db) = d_workspace_events db"
  "d_workspace_seq (put_experiments r db) = d_workspace_seq db"
  by (simp_all add: put_experiments_def Let_def)

lemma put_waits_sel [simp]:
  "d_waits (put_waits r db) = d_waits db @ [r]"
  "d_teams (put_waits r db) = d_teams db" "d_members (put_waits r db) = d_members db"
  "d_tasks (put_waits r db) = d_tasks db" "d_deps (put_waits r db) = d_deps db"
  "d_paths (put_waits r db) = d_paths db" "d_messages (put_waits r db) = d_messages db"
  "d_proposals (put_waits r db) = d_proposals db" "d_activity (put_waits r db) = d_activity db"
  "d_activity_seq (put_waits r db) = d_activity_seq db"
  "d_permissions (put_waits r db) = d_permissions db" "d_rounds (put_waits r db) = d_rounds db"
  "d_attempts (put_waits r db) = d_attempts db" "d_lops (put_waits r db) = d_lops db"
  "d_inputs (put_waits r db) = d_inputs db" "d_questions (put_waits r db) = d_questions db"
  "d_research_rounds (put_waits r db) = d_research_rounds db"
  "d_links (put_waits r db) = d_links db" "d_publications (put_waits r db) = d_publications db"
  "d_outcomes (put_waits r db) = d_outcomes db" "d_envelopes (put_waits r db) = d_envelopes db"
  "d_envelope_revisions (put_waits r db) = d_envelope_revisions db"
  "d_experiments (put_waits r db) = d_experiments db" "d_events (put_waits r db) = d_events db"
  "d_decisions (put_waits r db) = d_decisions db"
  "d_work_items (put_waits r db) = d_work_items db"
  "d_workspace_events (put_waits r db) = d_workspace_events db"
  "d_workspace_seq (put_waits r db) = d_workspace_seq db"
  by (simp_all add: put_waits_def Let_def)

lemma put_events_sel [simp]:
  "d_events (put_events r db) = d_events db @ [r]"
  "d_teams (put_events r db) = d_teams db" "d_members (put_events r db) = d_members db"
  "d_tasks (put_events r db) = d_tasks db" "d_deps (put_events r db) = d_deps db"
  "d_paths (put_events r db) = d_paths db" "d_messages (put_events r db) = d_messages db"
  "d_proposals (put_events r db) = d_proposals db" "d_activity (put_events r db) = d_activity db"
  "d_activity_seq (put_events r db) = d_activity_seq db"
  "d_permissions (put_events r db) = d_permissions db" "d_rounds (put_events r db) = d_rounds db"
  "d_attempts (put_events r db) = d_attempts db" "d_lops (put_events r db) = d_lops db"
  "d_inputs (put_events r db) = d_inputs db" "d_questions (put_events r db) = d_questions db"
  "d_research_rounds (put_events r db) = d_research_rounds db"
  "d_links (put_events r db) = d_links db" "d_publications (put_events r db) = d_publications db"
  "d_outcomes (put_events r db) = d_outcomes db" "d_envelopes (put_events r db) = d_envelopes db"
  "d_envelope_revisions (put_events r db) = d_envelope_revisions db"
  "d_experiments (put_events r db) = d_experiments db" "d_waits (put_events r db) = d_waits db"
  "d_decisions (put_events r db) = d_decisions db"
  "d_work_items (put_events r db) = d_work_items db"
  "d_workspace_events (put_events r db) = d_workspace_events db"
  "d_workspace_seq (put_events r db) = d_workspace_seq db"
  by (simp_all add: put_events_def Let_def)

lemma put_decisions_sel [simp]:
  "d_decisions (put_decisions r db) = d_decisions db @ [r]"
  "d_teams (put_decisions r db) = d_teams db" "d_members (put_decisions r db) = d_members db"
  "d_tasks (put_decisions r db) = d_tasks db" "d_deps (put_decisions r db) = d_deps db"
  "d_paths (put_decisions r db) = d_paths db" "d_messages (put_decisions r db) = d_messages db"
  "d_proposals (put_decisions r db) = d_proposals db"
  "d_activity (put_decisions r db) = d_activity db"
  "d_activity_seq (put_decisions r db) = d_activity_seq db"
  "d_permissions (put_decisions r db) = d_permissions db"
  "d_rounds (put_decisions r db) = d_rounds db" "d_attempts (put_decisions r db) = d_attempts db"
  "d_lops (put_decisions r db) = d_lops db" "d_inputs (put_decisions r db) = d_inputs db"
  "d_questions (put_decisions r db) = d_questions db"
  "d_research_rounds (put_decisions r db) = d_research_rounds db"
  "d_links (put_decisions r db) = d_links db"
  "d_publications (put_decisions r db) = d_publications db"
  "d_outcomes (put_decisions r db) = d_outcomes db"
  "d_envelopes (put_decisions r db) = d_envelopes db"
  "d_envelope_revisions (put_decisions r db) = d_envelope_revisions db"
  "d_experiments (put_decisions r db) = d_experiments db"
  "d_waits (put_decisions r db) = d_waits db" "d_events (put_decisions r db) = d_events db"
  "d_work_items (put_decisions r db) = d_work_items db"
  "d_workspace_events (put_decisions r db) = d_workspace_events db"
  "d_workspace_seq (put_decisions r db) = d_workspace_seq db"
  by (simp_all add: put_decisions_def Let_def)

lemma put_activity_sel [simp]:
  "d_activity_seq (put_activity t m k kind summary meta now db) = Suc (d_activity_seq db)"
  "d_teams (put_activity t m k kind summary meta now db) = d_teams db"
  "d_members (put_activity t m k kind summary meta now db) = d_members db"
  "d_tasks (put_activity t m k kind summary meta now db) = d_tasks db"
  "d_deps (put_activity t m k kind summary meta now db) = d_deps db"
  "d_paths (put_activity t m k kind summary meta now db) = d_paths db"
  "d_messages (put_activity t m k kind summary meta now db) = d_messages db"
  "d_proposals (put_activity t m k kind summary meta now db) = d_proposals db"
  "d_permissions (put_activity t m k kind summary meta now db) = d_permissions db"
  "d_rounds (put_activity t m k kind summary meta now db) = d_rounds db"
  "d_attempts (put_activity t m k kind summary meta now db) = d_attempts db"
  "d_lops (put_activity t m k kind summary meta now db) = d_lops db"
  "d_inputs (put_activity t m k kind summary meta now db) = d_inputs db"
  "d_questions (put_activity t m k kind summary meta now db) = d_questions db"
  "d_research_rounds (put_activity t m k kind summary meta now db) = d_research_rounds db"
  "d_links (put_activity t m k kind summary meta now db) = d_links db"
  "d_publications (put_activity t m k kind summary meta now db) = d_publications db"
  "d_outcomes (put_activity t m k kind summary meta now db) = d_outcomes db"
  "d_envelopes (put_activity t m k kind summary meta now db) = d_envelopes db"
  "d_envelope_revisions (put_activity t m k kind summary meta now db) = d_envelope_revisions db"
  "d_experiments (put_activity t m k kind summary meta now db) = d_experiments db"
  "d_waits (put_activity t m k kind summary meta now db) = d_waits db"
  "d_events (put_activity t m k kind summary meta now db) = d_events db"
  "d_decisions (put_activity t m k kind summary meta now db) = d_decisions db"
  "d_work_items (put_activity t m k kind summary meta now db) = d_work_items db"
  "d_workspace_events (put_activity t m k kind summary meta now db) = d_workspace_events db"
  "d_workspace_seq (put_activity t m k kind summary meta now db) = d_workspace_seq db"
  by (simp_all add: put_activity_def Let_def)

lemma append_workspace_event_sel [simp]:
  "d_workspace_seq (append_workspace_event kind project payload db) = Suc (d_workspace_seq db)"
  "d_teams (append_workspace_event kind project payload db) = d_teams db"
  "d_members (append_workspace_event kind project payload db) = d_members db"
  "d_tasks (append_workspace_event kind project payload db) = d_tasks db"
  "d_deps (append_workspace_event kind project payload db) = d_deps db"
  "d_paths (append_workspace_event kind project payload db) = d_paths db"
  "d_messages (append_workspace_event kind project payload db) = d_messages db"
  "d_proposals (append_workspace_event kind project payload db) = d_proposals db"
  "d_activity (append_workspace_event kind project payload db) = d_activity db"
  "d_activity_seq (append_workspace_event kind project payload db) = d_activity_seq db"
  "d_permissions (append_workspace_event kind project payload db) = d_permissions db"
  "d_rounds (append_workspace_event kind project payload db) = d_rounds db"
  "d_attempts (append_workspace_event kind project payload db) = d_attempts db"
  "d_lops (append_workspace_event kind project payload db) = d_lops db"
  "d_inputs (append_workspace_event kind project payload db) = d_inputs db"
  "d_questions (append_workspace_event kind project payload db) = d_questions db"
  "d_research_rounds (append_workspace_event kind project payload db) = d_research_rounds db"
  "d_links (append_workspace_event kind project payload db) = d_links db"
  "d_publications (append_workspace_event kind project payload db) = d_publications db"
  "d_outcomes (append_workspace_event kind project payload db) = d_outcomes db"
  "d_envelopes (append_workspace_event kind project payload db) = d_envelopes db"
  "d_envelope_revisions (append_workspace_event kind project payload db) = d_envelope_revisions db"
  "d_experiments (append_workspace_event kind project payload db) = d_experiments db"
  "d_waits (append_workspace_event kind project payload db) = d_waits db"
  "d_events (append_workspace_event kind project payload db) = d_events db"
  "d_decisions (append_workspace_event kind project payload db) = d_decisions db"
  "d_work_items (append_workspace_event kind project payload db) = d_work_items db"
  by (simp_all add: append_workspace_event_def Let_def)

lemma del_messages_sel [simp]:
  "d_messages (del_messages P db) = delete_where P (d_messages db)"
  "d_teams (del_messages P db) = d_teams db" "d_members (del_messages P db) = d_members db"
  "d_tasks (del_messages P db) = d_tasks db" "d_deps (del_messages P db) = d_deps db"
  "d_paths (del_messages P db) = d_paths db" "d_proposals (del_messages P db) = d_proposals db"
  "d_activity (del_messages P db) = d_activity db"
  "d_activity_seq (del_messages P db) = d_activity_seq db"
  "d_permissions (del_messages P db) = d_permissions db"
  "d_rounds (del_messages P db) = d_rounds db" "d_attempts (del_messages P db) = d_attempts db"
  "d_lops (del_messages P db) = d_lops db" "d_inputs (del_messages P db) = d_inputs db"
  "d_questions (del_messages P db) = d_questions db"
  "d_research_rounds (del_messages P db) = d_research_rounds db"
  "d_links (del_messages P db) = d_links db"
  "d_publications (del_messages P db) = d_publications db"
  "d_outcomes (del_messages P db) = d_outcomes db"
  "d_envelopes (del_messages P db) = d_envelopes db"
  "d_envelope_revisions (del_messages P db) = d_envelope_revisions db"
  "d_experiments (del_messages P db) = d_experiments db"
  "d_waits (del_messages P db) = d_waits db" "d_events (del_messages P db) = d_events db"
  "d_decisions (del_messages P db) = d_decisions db"
  "d_work_items (del_messages P db) = d_work_items db"
  "d_workspace_events (del_messages P db) = d_workspace_events db"
  "d_workspace_seq (del_messages P db) = d_workspace_seq db"
  by (simp_all add: del_messages_def Let_def)

lemma drop_members_sel [simp]:
  "d_members (drop_members P db) = delete_where P (d_members db)"
  "d_rounds (drop_members P db) = delete_where (\<lambda>r. rd_discriminator r \<in> set (gone_members P db)) (d_rounds db)"
  "d_attempts (drop_members P db) = delete_where (\<lambda>a. at_member a \<in> set (gone_members P db)) (d_attempts db)"
  "d_inputs (drop_members P db) = delete_where (\<lambda>u. ui_requester u \<in> set (gone_members P db)) (d_inputs db)"
  "d_teams (drop_members P db) = d_teams db" "d_tasks (drop_members P db) = d_tasks db"
  "d_deps (drop_members P db) = d_deps db" "d_paths (drop_members P db) = d_paths db"
  "d_messages (drop_members P db) = d_messages db"
  "d_proposals (drop_members P db) = d_proposals db"
  "d_activity_seq (drop_members P db) = d_activity_seq db"
  "d_lops (drop_members P db) = d_lops db" "d_questions (drop_members P db) = d_questions db"
  "d_research_rounds (drop_members P db) = d_research_rounds db"
  "d_links (drop_members P db) = d_links db"
  "d_publications (drop_members P db) = d_publications db"
  "d_outcomes (drop_members P db) = d_outcomes db"
  "d_envelopes (drop_members P db) = d_envelopes db"
  "d_envelope_revisions (drop_members P db) = d_envelope_revisions db"
  "d_experiments (drop_members P db) = d_experiments db"
  "d_waits (drop_members P db) = d_waits db" "d_events (drop_members P db) = d_events db"
  "d_decisions (drop_members P db) = d_decisions db"
  "d_work_items (drop_members P db) = d_work_items db"
  "d_workspace_events (drop_members P db) = d_workspace_events db"
  "d_workspace_seq (drop_members P db) = d_workspace_seq db"
  by (simp_all add: drop_members_def Let_def)

subsection \<open>The schema invariant\<close>

definition keys_ok :: "db \<Rightarrow> bool" where
  "keys_ok db \<longleftrightarrow>
    unique_key tm_id (d_teams db) \<and>
    unique_key mb_id (d_members db) \<and>
    unique_key mb_conversation (d_members db) \<and>
    unique_key (\<lambda>m. (mb_team m, mb_name m)) (d_members db) \<and>
    unique_key tk_id (d_tasks db) \<and>
    distinct (d_deps db) \<and>
    distinct (d_paths db) \<and>
    unique_key ms_id (d_messages db) \<and>
    unique_key pp_id (d_proposals db) \<and>
    unique_key pr_id (d_permissions db) \<and>
    unique_key rd_id (d_rounds db) \<and>
    unique_key (\<lambda>r. (rd_team r, rd_round r)) (d_rounds db) \<and>
    unique_key at_id (d_attempts db) \<and>
    unique_key lo_id (d_lops db) \<and>
    unique_key ui_id (d_inputs db) \<and>
    (\<forall>a\<in>set (d_activity db). ac_id a \<le> d_activity_seq db) \<and>
    unique_key ac_id (d_activity db)"

definition refs_ok :: "db \<Rightarrow> bool" where
  "refs_ok db \<longleftrightarrow>
    (\<forall>m\<in>set (d_members db). team_in (mb_team m) db) \<and>
    (\<forall>k\<in>set (d_tasks db). team_in (tk_team k) db \<and> member_in (tk_creator k) db
        \<and> member_in_opt (tk_assignee k) db) \<and>
    (\<forall>d\<in>set (d_deps db). task_in (fst d) db \<and> task_in (snd d) db) \<and>
    (\<forall>p\<in>set (d_paths db). task_in (fst p) db) \<and>
    (\<forall>m\<in>set (d_messages db). team_in (ms_team m) db \<and> member_in (ms_from m) db
        \<and> member_in (ms_to m) db \<and> task_in_opt (ms_task m) db) \<and>
    (\<forall>p\<in>set (d_proposals db). team_in (pp_team p) db) \<and>
    (\<forall>a\<in>set (d_activity db). team_in (ac_team a) db \<and> member_in_opt (ac_member a) db
        \<and> task_in_opt (ac_task a) db) \<and>
    (\<forall>p\<in>set (d_permissions db). team_in (pr_team p) db \<and> member_in (pr_member p) db
        \<and> member_in_opt (pr_decided_by_member p) db) \<and>
    (\<forall>r\<in>set (d_rounds db). team_in (rd_team r) db \<and> member_in (rd_discriminator r) db) \<and>
    (\<forall>a\<in>set (d_attempts db). team_in (at_team a) db \<and> task_in (at_task a) db
        \<and> member_in (at_member a) db) \<and>
    (\<forall>u\<in>set (d_inputs db). team_in (ui_team u) db \<and> member_in (ui_requester u) db)"

text \<open>Keys and references of the execution tables.\<close>

definition exec_ok :: "db \<Rightarrow> bool" where
  "exec_ok db \<longleftrightarrow>
    unique_key en_round (d_envelopes db) \<and>
    unique_key (\<lambda>x. (er_round x, er_revision x)) (d_envelope_revisions db) \<and>
    unique_key ex_id (d_experiments db) \<and>
    unique_key (\<lambda>x. (ex_round x, ex_key x)) (d_experiments db) \<and>
    unique_key wt_id (d_waits db) \<and>
    unique_key ee_id (d_events db) \<and>
    unique_key (\<lambda>x. (ee_experiment x, ee_kind x, ee_subject x)) (d_events db) \<and>
    unique_key ed_id (d_decisions db) \<and>
    unique_key (\<lambda>x. (ed_experiment x, ed_kind x, ed_key x)) (d_decisions db) \<and>
    (\<forall>e\<in>set (d_experiments db). has_key_opt tm_id (ex_team e) (d_teams db)) \<and>
    (\<forall>x\<in>set (d_waits db). has_key ex_id (wt_experiment x) (d_experiments db) \<and> team_in (wt_team x) db) \<and>
    (\<forall>x\<in>set (d_events db). has_key ex_id (ee_experiment x) (d_experiments db)) \<and>
    (\<forall>x\<in>set (d_decisions db). has_key ex_id (ed_experiment x) (d_experiments db))"

definition schema_ok :: "db \<Rightarrow> bool" where
  "schema_ok db \<longleftrightarrow> keys_ok db \<and> refs_ok db \<and> exec_ok db"

lemmas schema_defs = schema_ok_def keys_ok_def refs_ok_def exec_ok_def

lemma schema_ok_empty [simp]: "schema_ok empty_db"
  by (simp add: schema_defs empty_db_def)

subsection \<open>Updates keep the schema\<close>

lemma schema_upd_teams [schema_intro]:
  assumes "schema_ok db"
    "\<And>r. tm_id (f r) = tm_id r"
  shows "schema_ok (upd_teams P f db)"
  using assms by (auto simp: schema_defs tab_simps)

lemma schema_upd_members [schema_intro]:
  assumes "schema_ok db"
    "\<And>r. mb_id (f r) = mb_id r"
    "\<And>r. mb_team (f r) = mb_team r"
    "\<And>r. mb_conversation (f r) = mb_conversation r"
    "\<And>r. mb_name (f r) = mb_name r"
  shows "schema_ok (upd_members P f db)"
  using assms by (auto simp: schema_defs tab_simps)

lemma schema_upd_messages [schema_intro]:
  assumes "schema_ok db"
    "\<And>r. ms_id (f r) = ms_id r"
    "\<And>r. ms_team (f r) = ms_team r"
    "\<And>r. ms_from (f r) = ms_from r"
    "\<And>r. ms_to (f r) = ms_to r"
    "\<And>r. ms_task (f r) = ms_task r"
  shows "schema_ok (upd_messages P f db)"
  using assms by (auto simp: schema_defs tab_simps)

lemma schema_upd_proposals [schema_intro]:
  assumes "schema_ok db"
    "\<And>r. pp_id (f r) = pp_id r"
    "\<And>r. pp_team (f r) = pp_team r"
  shows "schema_ok (upd_proposals P f db)"
  using assms by (auto simp: schema_defs tab_simps)

lemma schema_upd_rounds [schema_intro]:
  assumes "schema_ok db"
    "\<And>r. rd_id (f r) = rd_id r"
    "\<And>r. rd_team (f r) = rd_team r"
    "\<And>r. rd_discriminator (f r) = rd_discriminator r"
    "\<And>r. rd_round (f r) = rd_round r"
  shows "schema_ok (upd_rounds P f db)"
  using assms by (auto simp: schema_defs tab_simps)

lemma schema_upd_attempts [schema_intro]:
  assumes "schema_ok db"
    "\<And>r. at_id (f r) = at_id r"
    "\<And>r. at_team (f r) = at_team r"
    "\<And>r. at_task (f r) = at_task r"
    "\<And>r. at_member (f r) = at_member r"
  shows "schema_ok (upd_attempts P f db)"
  using assms by (auto simp: schema_defs tab_simps)

lemma schema_upd_lops [schema_intro]:
  assumes "schema_ok db"
    "\<And>r. lo_id (f r) = lo_id r"
  shows "schema_ok (upd_lops P f db)"
  using assms by (auto simp: schema_defs tab_simps)

lemma schema_upd_inputs [schema_intro]:
  assumes "schema_ok db"
    "\<And>r. ui_id (f r) = ui_id r"
    "\<And>r. ui_team (f r) = ui_team r"
    "\<And>r. ui_requester (f r) = ui_requester r"
  shows "schema_ok (upd_inputs P f db)"
  using assms by (auto simp: schema_defs tab_simps)

lemma schema_upd_envelopes [schema_intro]:
  assumes "schema_ok db"
    "\<And>r. en_round (f r) = en_round r"
  shows "schema_ok (upd_envelopes P f db)"
  using assms by (auto simp: schema_defs tab_simps)

lemma schema_upd_experiments [schema_intro]:
  assumes "schema_ok db"
    "\<And>r. ex_id (f r) = ex_id r"
    "\<And>r. ex_round (f r) = ex_round r"
    "\<And>r. ex_key (f r) = ex_key r"
    "\<And>r. ex_team (f r) = ex_team r"
  shows "schema_ok (upd_experiments P f db)"
  using assms by (auto simp: schema_defs tab_simps)

lemma schema_upd_waits [schema_intro]:
  assumes "schema_ok db"
    "\<And>r. wt_id (f r) = wt_id r"
    "\<And>r. wt_experiment (f r) = wt_experiment r"
    "\<And>r. wt_team (f r) = wt_team r"
  shows "schema_ok (upd_waits P f db)"
  using assms by (auto simp: schema_defs tab_simps)

lemma schema_upd_events [schema_intro]:
  assumes "schema_ok db"
    "\<And>r. ee_id (f r) = ee_id r"
    "\<And>r. ee_experiment (f r) = ee_experiment r"
    "\<And>r. ee_kind (f r) = ee_kind r"
    "\<And>r. ee_subject (f r) = ee_subject r"
  shows "schema_ok (upd_events P f db)"
  using assms by (auto simp: schema_defs tab_simps)

lemma schema_upd_tasks [schema_intro]:
  assumes "schema_ok db" "\<And>r. tk_id (f r) = tk_id r" "\<And>r. tk_team (f r) = tk_team r"
    "\<And>r. r \<in> set (d_tasks db) \<Longrightarrow> P r \<Longrightarrow> member_in (tk_creator r) db \<Longrightarrow> member_in (tk_creator (f r)) db"
    "\<And>r. r \<in> set (d_tasks db) \<Longrightarrow> P r \<Longrightarrow> member_in_opt (tk_assignee r) db \<Longrightarrow> member_in_opt (tk_assignee (f r)) db"
  shows "schema_ok (upd_tasks P f db)"
  using assms by (auto simp: schema_defs tab_simps)

lemma schema_upd_permissions [schema_intro]:
  assumes "schema_ok db" "\<And>r. pr_id (f r) = pr_id r" "\<And>r. pr_team (f r) = pr_team r"
    "\<And>r. pr_member (f r) = pr_member r"
    "\<And>r. r \<in> set (d_permissions db) \<Longrightarrow> P r \<Longrightarrow> member_in_opt (pr_decided_by_member r) db \<Longrightarrow>
        member_in_opt (pr_decided_by_member (f r)) db"
  shows "schema_ok (upd_permissions P f db)"
  using assms by (auto simp: schema_defs tab_simps)

subsection \<open>Insertions keep the schema\<close>

lemma schema_ins_team_rows [schema_intro]:
  "ins_teams r0 db = Some db' \<Longrightarrow> schema_ok db \<Longrightarrow> schema_ok db'"
  "ins_members r1 db = Some db' \<Longrightarrow> schema_ok db \<Longrightarrow> schema_ok db'"
  "ins_tasks r2 db = Some db' \<Longrightarrow> schema_ok db \<Longrightarrow> schema_ok db'"
  "ins_deps r3 db = Some db' \<Longrightarrow> schema_ok db \<Longrightarrow> schema_ok db'"
  "ins_paths r4 db = Some db' \<Longrightarrow> schema_ok db \<Longrightarrow> schema_ok db'"
  "ins_messages r5 db = Some db' \<Longrightarrow> schema_ok db \<Longrightarrow> schema_ok db'"
  unfolding ins_teams_def ins_members_def ins_tasks_def ins_deps_def ins_paths_def ins_messages_def schema_defs
  by (clarsimp split: if_split_asm simp del: has_key_append has_key_opt_Some;
      intro conjI; (assumption | (simp; fail) | blast intro: has_key_appendI has_key_opt_appendI))+

lemma schema_ins_work_rows [schema_intro]:
  "ins_proposals r0 db = Some db' \<Longrightarrow> schema_ok db \<Longrightarrow> schema_ok db'"
  "ins_permissions r1 db = Some db' \<Longrightarrow> schema_ok db \<Longrightarrow> schema_ok db'"
  "ins_rounds r2 db = Some db' \<Longrightarrow> schema_ok db \<Longrightarrow> schema_ok db'"
  "ins_attempts r3 db = Some db' \<Longrightarrow> schema_ok db \<Longrightarrow> schema_ok db'"
  "ins_lops r4 db = Some db' \<Longrightarrow> schema_ok db \<Longrightarrow> schema_ok db'"
  "ins_inputs r5 db = Some db' \<Longrightarrow> schema_ok db \<Longrightarrow> schema_ok db'"
  unfolding ins_proposals_def ins_permissions_def ins_rounds_def ins_attempts_def ins_lops_def ins_inputs_def schema_defs
  by (clarsimp split: if_split_asm simp del: has_key_append has_key_opt_Some;
      intro conjI; (assumption | (simp; fail) | blast intro: has_key_appendI has_key_opt_appendI))+

lemma schema_ins_exec_rows [schema_intro]:
  "ins_envelopes r0 db = Some db' \<Longrightarrow> schema_ok db \<Longrightarrow> schema_ok db'"
  "ins_envelope_revisions r1 db = Some db' \<Longrightarrow> schema_ok db \<Longrightarrow> schema_ok db'"
  "ins_experiments r2 db = Some db' \<Longrightarrow> schema_ok db \<Longrightarrow> schema_ok db'"
  "ins_waits r3 db = Some db' \<Longrightarrow> schema_ok db \<Longrightarrow> schema_ok db'"
  "ins_events r4 db = Some db' \<Longrightarrow> schema_ok db \<Longrightarrow> schema_ok db'"
  "ins_decisions r5 db = Some db' \<Longrightarrow> schema_ok db \<Longrightarrow> schema_ok db'"
  unfolding ins_envelopes_def ins_envelope_revisions_def ins_experiments_def ins_waits_def ins_events_def ins_decisions_def schema_defs
  by (clarsimp split: if_split_asm simp del: has_key_append has_key_opt_Some;
      intro conjI; (assumption | (simp; fail) | blast intro: has_key_appendI has_key_opt_appendI))+

lemma schema_ins_activity [schema_intro]:
  "ins_activity t m k kind summary meta now db = Some db' \<Longrightarrow> schema_ok db \<Longrightarrow> schema_ok db'"
  unfolding ins_activity_def schema_defs put_activity_def
  by (clarsimp split: if_split_asm simp del: has_key_append has_key_opt_Some;
      intro conjI; (assumption | (simp; fail) | fastforce simp: has_key_iff))

lemma schema_append_workspace_event [schema_intro]:
  "schema_ok db \<Longrightarrow> schema_ok (append_workspace_event kind project payload db)"
  by (simp add: schema_defs)

subsection \<open>Deletions keep the schema\<close>

lemma schema_del_messages [schema_intro]: "schema_ok db \<Longrightarrow> schema_ok (del_messages P db)"
  by (simp add: schema_defs tab_simps unique_key_delete_where)

lemma cut_ref_None [simp]: "cut_ref ids None = None"
  by (simp add: cut_ref_def)

lemma cut_ref_Some: "cut_ref ids m = Some x \<longleftrightarrow> m = Some x \<and> x \<notin> set ids"
  by (auto simp: cut_ref_def split: option.splits)

lemma has_key_opt_iff: "has_key_opt key m rows \<longleftrightarrow> (\<forall>x. m = Some x \<longrightarrow> has_key key x rows)"
  by (cases m) auto

lemma unique_key_map:
  "(\<And>r. key (f r) = key r) \<Longrightarrow> unique_key key (map f rows) = unique_key key rows"
  by (simp add: unique_key_def comp_def)

lemma schema_del_members [schema_intro]:
  assumes "del_members P db = Some db'" "schema_ok db"
  shows "schema_ok db'"
proof -
  define gone where "gone = gone_members P db"
  have stays: "has_key mb_id x (delete_where P (d_members db))"
    if "has_key mb_id x (d_members db)" "x \<notin> set gone" for x
    using that by (auto simp: has_key_iff set_delete_where gone_def gone_members_def)
  have stays_opt: "has_key_opt mb_id (cut_ref gone m) (delete_where P (d_members db))"
    if "has_key_opt mb_id m (d_members db)" for m
    using that stays by (auto simp: has_key_opt_iff cut_ref_Some)
  have no_task: "\<forall>k\<in>set (d_tasks db). tk_creator k \<notin> set gone \<and> (\<forall>a. tk_assignee k = Some a \<longrightarrow> a \<notin> set gone)"
    and no_msg: "\<forall>m\<in>set (d_messages db). ms_from m \<notin> set gone \<and> ms_to m \<notin> set gone"
    using assms(1) unfolding del_members_def members_referenced_def gone_def [symmetric] list_ex_iff
    by (auto split: if_split_asm)
  have db': "db' = db\<lparr>
       d_members := delete_where P (d_members db),
       d_permissions := map (\<lambda>p. p\<lparr>pr_decided_by_member := cut_ref gone (pr_decided_by_member p)\<rparr>)
         (delete_where (\<lambda>p. pr_member p \<in> set gone) (d_permissions db)),
       d_rounds := delete_where (\<lambda>r. rd_discriminator r \<in> set gone) (d_rounds db),
       d_attempts := delete_where (\<lambda>a. at_member a \<in> set gone) (d_attempts db),
       d_inputs := delete_where (\<lambda>u. ui_requester u \<in> set gone) (d_inputs db),
       d_activity := map (\<lambda>a. a\<lparr>ac_member := cut_ref gone (ac_member a)\<rparr>) (d_activity db)\<rparr>"
    using assms(1) by (auto simp: del_members_def drop_members_def gone_def Let_def split: if_split_asm)
  have ok: "keys_ok db" "refs_ok db" "exec_ok db" using assms(2) by (simp_all add: schema_ok_def)
  have "keys_ok db'"
    using ok(1) by (simp add: db' keys_ok_def unique_key_delete_where unique_key_map)
  moreover have "exec_ok db'"
    using ok(3) by (simp add: db' exec_ok_def)
  moreover have "refs_ok db'"
    unfolding refs_ok_def
  proof (intro conjI)
    show "\<forall>k\<in>set (d_tasks db'). team_in (tk_team k) db' \<and> member_in (tk_creator k) db'
        \<and> member_in_opt (tk_assignee k) db'"
      using ok(2) no_task stays by (simp add: db' refs_ok_def has_key_opt_iff)
    show "\<forall>m\<in>set (d_messages db'). team_in (ms_team m) db' \<and> member_in (ms_from m) db'
        \<and> member_in (ms_to m) db' \<and> task_in_opt (ms_task m) db'"
      using ok(2) no_msg stays by (simp add: db' refs_ok_def)
  qed (use ok(2) stays stays_opt in \<open>simp_all add: db' refs_ok_def set_delete_where\<close>)
  ultimately show ?thesis by (simp add: schema_ok_def)
qed

end
