(* ===== verification/TeamMembers.thy ===== *)
theory TeamMembers
  imports Schema
begin

text \<open>
  Members of a team (\<open>src/server/src/team_store/members.rs\<close>): the role checks every other
  operation starts with, adding and removing teammates and discriminators, and the status and
  permission profile of a member.
\<close>

subsection \<open>Role checks\<close>

definition member_role :: "string \<Rightarrow> string \<Rightarrow> db \<Rightarrow> team_error + team_role" where
  "member_role t m db =
    (case find (\<lambda>r. mb_id r = m \<and> mb_team r = t) (d_members db) of
       None \<Rightarrow> Inl WrongTeam | Some r \<Rightarrow> Inr (mb_role r))"

definition require_leader :: "string \<Rightarrow> string \<Rightarrow> db \<Rightarrow> team_error + unit" where
  "require_leader t m db =
    ebind (member_role t m db) (\<lambda>role. guard (role = Leader) LeaderRequired)"

definition require_teammate :: "string \<Rightarrow> string \<Rightarrow> db \<Rightarrow> team_error + unit" where
  "require_teammate t m db =
    ebind (member_role t m db) (\<lambda>role. guard (role = Teammate) TaskUnavailable)"

definition require_team_member :: "string \<Rightarrow> string \<Rightarrow> db \<Rightarrow> team_error + unit" where
  "require_team_member t m db =
    (case row_of mb_id m (d_members db) of
       None \<Rightarrow> Inl (MemberNotFound m)
     | Some r \<Rightarrow> guard (mb_team r = t) WrongTeam)"

subsection \<open>Reading members\<close>

definition get_member :: "string \<Rightarrow> db \<Rightarrow> team_error + team_member" where
  "get_member m db = opt_err (MemberNotFound m) (row_of mb_id m (d_members db))"

definition member_for_conversation :: "string \<Rightarrow> db \<Rightarrow> team_member option" where
  "member_for_conversation c db = row_of mb_conversation c (d_members db)"

definition list_members :: "string \<Rightarrow> db \<Rightarrow> team_member list" where
  "list_members t db =
    sort_key (\<lambda>m. (if mb_role m = Leader then 0 else 1 :: nat, mb_created_at m, mb_id m))
      (filter (\<lambda>m. mb_team m = t) (d_members db))"

subsection \<open>Status and permission profile\<close>

definition update_member :: "string \<Rightarrow> (team_member \<Rightarrow> team_member) \<Rightarrow> db \<Rightarrow> team_error + (team_member \<times> db)" where
  "update_member m f db =
    ebind (guard (changed (\<lambda>r. mb_id r = m) (d_members db) \<noteq> 0) (MemberNotFound m)) (\<lambda>_.
    let db' = upd_members (\<lambda>r. mb_id r = m) f db in
    ebind (get_member m db') (\<lambda>r. Inr (r, db')))"

definition mark_permission_profile_applied ::
    "string \<Rightarrow> string option \<Rightarrow> nat \<Rightarrow> db \<Rightarrow> team_error + (team_member \<times> db)" where
  "mark_permission_profile_applied m previous now db =
    update_member m (\<lambda>r. r\<lparr>mb_profile_applied := True, mb_previous_mode := previous,
                            mb_updated_at := now\<rparr>) db"

definition clear_permission_profile :: "string \<Rightarrow> nat \<Rightarrow> db \<Rightarrow> team_error + (team_member \<times> db)" where
  "clear_permission_profile m now db =
    update_member m (\<lambda>r. r\<lparr>mb_profile_applied := False, mb_previous_mode := None,
                            mb_updated_at := now\<rparr>) db"

definition set_member_status ::
    "string \<Rightarrow> member_status \<Rightarrow> nat \<Rightarrow> db \<Rightarrow> team_error + (team_member \<times> db)" where
  "set_member_status m status now db =
    update_member m (\<lambda>r. r\<lparr>mb_status := status, mb_updated_at := now\<rparr>) db"

subsection \<open>Adding members\<close>

definition teammate_count :: "string \<Rightarrow> db \<Rightarrow> nat" where
  "teammate_count t db = count_where (\<lambda>m. mb_team m = t \<and> mb_role m = Teammate) (d_members db)"

definition new_member_row :: "string \<Rightarrow> string \<Rightarrow> string \<Rightarrow> string \<Rightarrow> team_role \<Rightarrow> member_status
    \<Rightarrow> member_workspace \<Rightarrow> string option \<Rightarrow> nat \<Rightarrow> team_member" where
  "new_member_row i t c n role status mode base now =
    \<lparr>mb_id = i, mb_team = t, mb_conversation = c, mb_name = n, mb_role = role, mb_status = status,
     mb_workspace = mode, mb_base_tree = base, mb_profile_applied = False, mb_previous_mode = None,
     mb_created_at = now, mb_updated_at = now\<rparr>"

text \<open>
  \<open>is_unique_violation\<close> answers yes for every failed constraint of the insertion, so each of them
  is reported as a duplicate name.
\<close>

definition add_teammate ::
    "new_teammate \<Rightarrow> string \<Rightarrow> nat \<Rightarrow> db \<Rightarrow> team_error + (team_member \<times> db)" where
  "add_teammate input uuid now db =
    (let name = normalized_name (nm_name input) in
     ebind (require_leader (nm_team input) (nm_caller input) db) (\<lambda>_.
     ebind (opt_err QueryReturnedNoRows (row_of tm_id (nm_team input) (d_teams db))) (\<lambda>team.
     ebind (guard (teammate_count (nm_team input) db < tm_max_teammates team) MemberLimit) (\<lambda>_.
     ebind (opt_err (DuplicateMemberName name)
             (ins_members (new_member_row uuid (nm_team input) (nm_conversation input) name
                Teammate MbStarting (nm_workspace input) (nm_base_tree input) now) db)) (\<lambda>db'.
     ebind (get_member uuid db') (\<lambda>m. Inr (m, db')))))))"

definition add_discriminator ::
    "new_discriminator \<Rightarrow> string \<Rightarrow> nat \<Rightarrow> db \<Rightarrow> team_error + (team_member \<times> db)" where
  "add_discriminator input uuid now db =
    (let name = normalized_name (nd_name input) in
     ebind (require_leader (nd_team input) (nd_caller input) db) (\<lambda>_.
     ebind (opt_err QueryReturnedNoRows (row_of tm_id (nd_team input) (d_teams db))) (\<lambda>team.
     ebind (guard (tm_mode team = Yolo \<and> tm_status team = TmActive) InvalidTeamState) (\<lambda>_.
     ebind (opt_err ConstraintViolation
             (del_members (\<lambda>m. mb_team m = nd_team input \<and> mb_role m = Discriminator) db)) (\<lambda>db1.
     ebind (opt_err ConstraintViolation
             (ins_members (new_member_row uuid (nd_team input) (nd_conversation input) name
                Discriminator MbIdle MwShared None now) db1)) (\<lambda>db2.
     ebind (get_member uuid db2) (\<lambda>m. Inr (m, db2))))))))"

subsection \<open>Removing members\<close>

definition remove_discriminators :: "string \<Rightarrow> db \<Rightarrow> team_error + (team_member list \<times> db)" where
  "remove_discriminators t db =
    (let gone = filter (\<lambda>m. mb_role m = Discriminator) (list_members t db) in
     ebind (opt_err ConstraintViolation
             (del_members (\<lambda>m. mb_team m = t \<and> mb_role m = Discriminator) db)) (\<lambda>db'.
     Inr (gone, db')))"

definition released :: "task_status \<Rightarrow> bool" where
  "released s = (s \<in> {TkInProgress, TkPlanReview, TkResultReview, TkChangesRequested, TkFailed})"

definition release_task :: "nat \<Rightarrow> team_task \<Rightarrow> team_task" where
  "release_task now k =
    k\<lparr>tk_assignee := None,
      tk_status := (if released (tk_status k) then TkPending else tk_status k),
      tk_result := (if released (tk_status k) then None else tk_result k),
      tk_verification := (if released (tk_status k) then None else tk_verification k),
      tk_updated_at := now\<rparr>"

definition remove_teammate ::
    "string \<Rightarrow> string \<Rightarrow> string \<Rightarrow> nat \<Rightarrow> db \<Rightarrow> team_error + (unit \<times> db)" where
  "remove_teammate t caller m now db =
    ebind (require_leader t caller db) (\<lambda>_.
    ebind (member_role t m db) (\<lambda>role.
    ebind (guard (role \<noteq> Leader) LeaderCannotBeRemoved) (\<lambda>_.
    ebind (guard (role \<noteq> Discriminator) DiscriminatorCannotWork) (\<lambda>_.
    let db1 = upd_members (\<lambda>r. mb_id r = m) (\<lambda>r. r\<lparr>mb_status := MbRemoving, mb_updated_at := now\<rparr>) db;
        db2 = del_messages (\<lambda>x. ms_from x = m \<or> ms_to x = m) db1;
        db3 = upd_tasks (\<lambda>k. tk_creator k = m) (\<lambda>k. k\<lparr>tk_creator := caller, tk_updated_at := now\<rparr>) db2;
        db4 = upd_tasks (\<lambda>k. tk_assignee k = Some m) (release_task now) db3 in
    ebind (opt_err ConstraintViolation (del_members (\<lambda>r. mb_id r = m) db4)) (\<lambda>db5.
    Inr ((), upd_teams (\<lambda>r. tm_id r = t) (\<lambda>r. r\<lparr>tm_updated_at := now\<rparr>) db5))))))"

subsection \<open>Facts about the checks\<close>

lemma member_role_Inr:
  assumes "member_role t m db = Inr role"
  obtains r where "r \<in> set (d_members db)" "mb_id r = m" "mb_team r = t" "mb_role r = role"
  using assms by (auto simp: member_role_def split: option.splits dest!: find_SomeD)

lemma member_role_iff:
  assumes "unique_key mb_id (d_members db)"
  shows "member_role t m db = Inr role \<longleftrightarrow>
    (\<exists>r\<in>set (d_members db). mb_id r = m \<and> mb_team r = t \<and> mb_role r = role)"
proof
  assume "\<exists>r\<in>set (d_members db). mb_id r = m \<and> mb_team r = t \<and> mb_role r = role"
  then obtain r where r: "r \<in> set (d_members db)" "mb_id r = m" "mb_team r = t" "mb_role r = role"
    by auto
  then obtain s where s: "find (\<lambda>r. mb_id r = m \<and> mb_team r = t) (d_members db) = Some s"
    by (cases "find (\<lambda>r. mb_id r = m \<and> mb_team r = t) (d_members db)") (auto simp: find_None_iff)
  then have "s \<in> set (d_members db)" "mb_id s = m" by (auto simp: find_Some_iff)
  with r assms have "s = r" by (metis unique_key_eqD)
  with s r show "member_role t m db = Inr role" by (simp add: member_role_def)
qed (auto elim: member_role_Inr)

lemma member_role_in: "member_role t m db = Inr role \<Longrightarrow> member_in m db"
  by (auto simp: has_key_iff elim: member_role_Inr)

lemma require_leader_Inr: "require_leader t m db = Inr u \<longleftrightarrow> member_role t m db = Inr Leader"
  by (auto simp: require_leader_def err_simps)

lemma require_teammate_Inr: "require_teammate t m db = Inr u \<longleftrightarrow> member_role t m db = Inr Teammate"
  by (auto simp: require_teammate_def err_simps)

lemma require_team_member_Inr:
  "require_team_member t m db = Inr u \<Longrightarrow> \<exists>r\<in>set (d_members db). mb_id r = m \<and> mb_team r = t"
  by (auto simp: require_team_member_def err_simps split: option.splits dest!: row_of_SomeD)

lemma row_of_update_key:
  assumes "has_key key k rows" "\<And>r. key (f r) = key r"
  shows "\<exists>r. row_of key k (update_where (\<lambda>r. key r = k) f rows) = Some (f r) \<and> row_of key k rows = Some r"
  using row_of_exists [OF assms(1)] assms(2) by (auto simp: row_of_update_where dest: row_of_SomeD)

lemma update_member_Inr:
  assumes "\<And>r. mb_id (f r) = mb_id r"
  shows "update_member m f db = Inr (r, db') \<longleftrightarrow>
    (\<exists>r0. row_of mb_id m (d_members db) = Some r0 \<and> r = f r0
      \<and> db' = upd_members (\<lambda>r. mb_id r = m) f db)"
  using assms
  by (auto simp: update_member_def err_simps get_member_def upd_members_def row_of_update_where
      Let_def dest: row_of_SomeD)

lemma update_member_total:
  assumes "\<And>r. mb_id (f r) = mb_id r"
  shows "update_member m f db = (case row_of mb_id m (d_members db) of
      None \<Rightarrow> Inl (MemberNotFound m)
    | Some r \<Rightarrow> Inr (f r, upd_members (\<lambda>r. mb_id r = m) f db))"
proof (cases "row_of mb_id m (d_members db)")
  case None
  then have "\<forall>r\<in>set (d_members db). mb_id r \<noteq> m" by (simp add: row_of_None has_key_iff)
  then show ?thesis using None by (simp add: update_member_def)
next
  case (Some r)
  then show ?thesis using update_member_Inr [OF assms, of m db "f r"] by simp
qed

lemma del_members_Some_iff:
  "del_members P db = Some db' \<Longrightarrow> d_members db' = delete_where P (d_members db)
    \<and> d_teams db' = d_teams db \<and> d_tasks db' = d_tasks db \<and> d_messages db' = d_messages db"
  by (auto simp: del_members_def split: if_split_asm)

subsection \<open>The operations keep the schema\<close>

lemma schema_update_member:
  assumes "update_member m f db = Inr (r, db')" "schema_ok db"
    "\<And>r. mb_id (f r) = mb_id r" "\<And>r. mb_team (f r) = mb_team r"
    "\<And>r. mb_conversation (f r) = mb_conversation r" "\<And>r. mb_name (f r) = mb_name r"
  shows "schema_ok db'"
  using assms by (auto simp: update_member_Inr intro: schema_upd_members)

lemma schema_mark_permission_profile_applied:
  "mark_permission_profile_applied m p now db = Inr (r, db') \<Longrightarrow> schema_ok db \<Longrightarrow> schema_ok db'"
  unfolding mark_permission_profile_applied_def by (erule schema_update_member) simp_all

lemma schema_clear_permission_profile:
  "clear_permission_profile m now db = Inr (r, db') \<Longrightarrow> schema_ok db \<Longrightarrow> schema_ok db'"
  unfolding clear_permission_profile_def by (erule schema_update_member) simp_all

lemma schema_set_member_status:
  "set_member_status m s now db = Inr (r, db') \<Longrightarrow> schema_ok db \<Longrightarrow> schema_ok db'"
  unfolding set_member_status_def by (erule schema_update_member) simp_all

lemma schema_add_teammate:
  "add_teammate input uuid now db = Inr (r, db') \<Longrightarrow> schema_ok db \<Longrightarrow> schema_ok db'"
  by (auto simp: add_teammate_def err_simps Let_def intro: schema_intro)

lemma schema_add_discriminator:
  "add_discriminator input uuid now db = Inr (r, db') \<Longrightarrow> schema_ok db \<Longrightarrow> schema_ok db'"
  by (auto simp: add_discriminator_def err_simps Let_def intro: schema_intro)

lemma schema_remove_discriminators:
  "remove_discriminators t db = Inr (r, db') \<Longrightarrow> schema_ok db \<Longrightarrow> schema_ok db'"
  by (auto simp: remove_discriminators_def err_simps Let_def intro: schema_intro)

lemma release_task_simps [simp]:
  "tk_id (release_task now k) = tk_id k" "tk_team (release_task now k) = tk_team k"
  "tk_creator (release_task now k) = tk_creator k" "tk_assignee (release_task now k) = None"
  by (simp_all add: release_task_def)

lemma schema_remove_teammate:
  assumes "remove_teammate t caller m now db = Inr (u, db')" "schema_ok db"
  shows "schema_ok db'"
proof -
  have caller: "member_in caller db"
    using assms(1) by (auto simp: remove_teammate_def err_simps require_leader_Inr dest: member_role_in)
  show ?thesis
    using assms
    by (auto simp: remove_teammate_def err_simps Let_def intro!: schema_upd_teams
        elim!: schema_del_members intro!: schema_upd_tasks schema_del_messages schema_upd_members)
      (simp_all add: prims tab_simps caller)
qed

end
