(* ===== verification/TeamMailbox.thy ===== *)
theory TeamMailbox
  imports TeamMembers
begin

text \<open>
  The mailbox of a team (\<open>src/server/src/team_store/mailbox.rs\<close>): sending a message, reading and
  acknowledging, and the delivery state machine with its bounded attempts and lease.
\<close>

subsection \<open>Operations\<close>

definition new_message_row :: "string \<Rightarrow> string \<Rightarrow> string \<Rightarrow> string \<Rightarrow> message_kind \<Rightarrow> string option
    \<Rightarrow> string \<Rightarrow> nat \<Rightarrow> team_message" where
  "new_message_row i t from_m to_m kind task body now =
    \<lparr>ms_id = i, ms_team = t, ms_from = from_m, ms_to = to_m, ms_kind = kind, ms_task = task,
     ms_body = body, ms_read_at = None, ms_delivery = DvPending, ms_attempts = 0,
     ms_delivered_at = None, ms_last_error = None, ms_created_at = now\<rparr>"

definition check_message_task :: "string \<Rightarrow> string option \<Rightarrow> db \<Rightarrow> team_error + unit" where
  "check_message_task t task db =
    (case task of None \<Rightarrow> Inr ()
     | Some k \<Rightarrow> (case row_of tk_id k (d_tasks db) of
         None \<Rightarrow> Inl (TaskNotFound k)
       | Some r \<Rightarrow> guard (tk_team r = t) WrongTeam))"

definition send_message :: "string \<Rightarrow> string \<Rightarrow> string \<Rightarrow> message_kind \<Rightarrow> string option \<Rightarrow> string
    \<Rightarrow> string \<Rightarrow> nat \<Rightarrow> db \<Rightarrow> team_error + (team_message \<times> db)" where
  "send_message t from_m to_m kind task body uuid now db =
    ebind (require_team_member t from_m db) (\<lambda>_.
    ebind (require_team_member t to_m db) (\<lambda>_.
    ebind (check_message_task t task db) (\<lambda>_.
    let row = new_message_row uuid t from_m to_m kind task (trim body) now in
    ebind (opt_err ConstraintViolation (ins_messages row db)) (\<lambda>db'.
    Inr (row, db')))))"

definition unread :: "string \<Rightarrow> team_message \<Rightarrow> bool" where
  "unread m x \<longleftrightarrow> ms_to x = m \<and> ms_read_at x = None"

definition mailbox_order :: "team_message list \<Rightarrow> team_message list" where
  "mailbox_order xs = sort_key (\<lambda>x. (ms_created_at x, ms_id x)) xs"

definition unread_messages :: "string \<Rightarrow> db \<Rightarrow> team_message list" where
  "unread_messages m db = mailbox_order (filter (unread m) (d_messages db))"

definition acknowledge :: "nat \<Rightarrow> team_message \<Rightarrow> team_message" where
  "acknowledge now x = x\<lparr>ms_read_at := Some now, ms_delivery := DvAcknowledged\<rparr>"

definition read_messages :: "string \<Rightarrow> nat \<Rightarrow> db \<Rightarrow> team_message list \<times> db" where
  "read_messages m now db =
    (mailbox_order (filter (unread m) (d_messages db)), upd_messages (unread m) (acknowledge now) db)"

definition deliverable :: "string \<Rightarrow> team_message \<Rightarrow> bool" where
  "deliverable m x \<longleftrightarrow> ms_to x = m \<and> ms_delivery x \<in> {DvPending, DvFailed} \<and> ms_attempts x < 3"

definition pending_messages :: "string \<Rightarrow> db \<Rightarrow> team_message list" where
  "pending_messages m db = mailbox_order (filter (deliverable m) (d_messages db))"

definition lease_expired :: "nat \<Rightarrow> nat \<Rightarrow> team_message \<Rightarrow> bool" where
  "lease_expired lease now x \<longleftrightarrow>
    ms_delivery x = DvDelivered \<and> ms_read_at x = None \<and> ms_attempts x < 3 \<and>
    (case ms_delivered_at x of None \<Rightarrow> False | Some at \<Rightarrow> at + lease \<le> now)"

definition requeue_expired_deliveries :: "nat \<Rightarrow> nat \<Rightarrow> db \<Rightarrow> nat \<times> db" where
  "requeue_expired_deliveries lease now db =
    (changed (lease_expired lease now) (d_messages db),
     upd_messages (lease_expired lease now)
       (\<lambda>x. x\<lparr>ms_delivery := DvPending, ms_delivered_at := None,
               ms_last_error := Some ''delivery acknowledgement lease expired''\<rparr>) db)"

definition mark_message_delivered :: "string \<Rightarrow> nat \<Rightarrow> db \<Rightarrow> db" where
  "mark_message_delivered i now db =
    upd_messages (\<lambda>x. ms_id x = i \<and> ms_delivery x \<in> {DvPending, DvFailed})
      (\<lambda>x. x\<lparr>ms_delivery := DvDelivered, ms_delivered_at := Some now,
              ms_attempts := ms_attempts x + 1, ms_last_error := None\<rparr>) db"

definition mark_message_failed :: "string \<Rightarrow> string \<Rightarrow> db \<Rightarrow> db" where
  "mark_message_failed i err db =
    upd_messages (\<lambda>x. ms_id x = i \<and> ms_delivery x \<notin> {DvAcknowledged, DvCancelled})
      (\<lambda>x. x\<lparr>ms_delivery := DvFailed, ms_attempts := ms_attempts x + 1, ms_last_error := Some err\<rparr>) db"

definition mark_messages_read :: "string \<Rightarrow> nat \<Rightarrow> db \<Rightarrow> nat \<times> db" where
  "mark_messages_read m now db =
    (let P = (\<lambda>x. unread m x \<and> ms_delivery x \<noteq> DvCancelled) in
     (changed P (d_messages db), upd_messages P (acknowledge now) db))"

text \<open>
  Cancelling the open messages of a task: the statement \<open>cancel_task\<close> runs, and the statement
  \<open>from_database\<close> runs at start-up over every cancelled task.
\<close>

definition undelivered :: "team_message \<Rightarrow> bool" where
  "undelivered x \<longleftrightarrow> ms_delivery x \<in> {DvPending, DvDelivered, DvFailed}"

definition close_message :: "delivery_status \<Rightarrow> nat \<Rightarrow> team_message \<Rightarrow> team_message" where
  "close_message s now x =
    x\<lparr>ms_delivery := s, ms_read_at := (case ms_read_at x of None \<Rightarrow> Some now | Some r \<Rightarrow> Some r)\<rparr>"

subsection \<open>Schema\<close>

lemma acknowledge_simps [simp]:
  "ms_id (acknowledge now x) = ms_id x" "ms_team (acknowledge now x) = ms_team x"
  "ms_from (acknowledge now x) = ms_from x" "ms_to (acknowledge now x) = ms_to x"
  "ms_task (acknowledge now x) = ms_task x" "ms_delivery (acknowledge now x) = DvAcknowledged"
  "ms_read_at (acknowledge now x) = Some now" "ms_kind (acknowledge now x) = ms_kind x"
  "ms_attempts (acknowledge now x) = ms_attempts x"
  by (simp_all add: acknowledge_def)

lemma close_message_simps [simp]:
  "ms_id (close_message s now x) = ms_id x" "ms_team (close_message s now x) = ms_team x"
  "ms_from (close_message s now x) = ms_from x" "ms_to (close_message s now x) = ms_to x"
  "ms_task (close_message s now x) = ms_task x" "ms_delivery (close_message s now x) = s"
  "ms_read_at (close_message s now x) \<noteq> None" "ms_attempts (close_message s now x) = ms_attempts x"
  by (simp_all add: close_message_def split: option.split)

lemma new_message_row_simps [simp]:
  "ms_id (new_message_row i t f g k task b now) = i"
  "ms_team (new_message_row i t f g k task b now) = t"
  "ms_from (new_message_row i t f g k task b now) = f"
  "ms_to (new_message_row i t f g k task b now) = g"
  "ms_task (new_message_row i t f g k task b now) = task"
  "ms_kind (new_message_row i t f g k task b now) = k"
  "ms_delivery (new_message_row i t f g k task b now) = DvPending"
  "ms_read_at (new_message_row i t f g k task b now) = None"
  "ms_attempts (new_message_row i t f g k task b now) = 0"
  by (simp_all add: new_message_row_def)

lemma schema_send_message:
  "send_message t f g kind task body uuid now db = Inr (r, db') \<Longrightarrow> schema_ok db \<Longrightarrow> schema_ok db'"
  by (auto simp: send_message_def err_simps Let_def intro: schema_intro)

lemma schema_read_messages: "schema_ok db \<Longrightarrow> schema_ok (snd (read_messages m now db))"
  by (simp add: read_messages_def schema_upd_messages)

lemma schema_requeue_expired: "schema_ok db \<Longrightarrow> schema_ok (snd (requeue_expired_deliveries l now db))"
  by (simp add: requeue_expired_deliveries_def schema_upd_messages)

lemma schema_mark_message_delivered: "schema_ok db \<Longrightarrow> schema_ok (mark_message_delivered i now db)"
  by (simp add: mark_message_delivered_def schema_upd_messages)

lemma schema_mark_message_failed: "schema_ok db \<Longrightarrow> schema_ok (mark_message_failed i e db)"
  by (simp add: mark_message_failed_def schema_upd_messages)

lemma schema_mark_messages_read: "schema_ok db \<Longrightarrow> schema_ok (snd (mark_messages_read m now db))"
  by (simp add: mark_messages_read_def Let_def schema_upd_messages)

subsection \<open>The delivery life cycle\<close>

text \<open>
  The moves of one message under the mailbox operations.  Acknowledged and cancelled messages are
  final, and both carry a read time.
\<close>

definition delivery_final :: "delivery_status \<Rightarrow> bool" where
  "delivery_final s \<longleftrightarrow> s \<in> {DvAcknowledged, DvCancelled}"

definition delivery_edge :: "delivery_status \<Rightarrow> delivery_status \<Rightarrow> bool" where
  "delivery_edge s s' \<longleftrightarrow> s' = s \<or> (\<not> delivery_final s \<and>
     (case s' of DvPending \<Rightarrow> s = DvDelivered
      | DvDelivered \<Rightarrow> s = DvPending \<or> s = DvFailed
      | _ \<Rightarrow> True))"

interpretation delivery: life_cycle delivery_edge delivery_final
  by unfold_locales (simp add: delivery_edge_def)

definition message_ok :: "team_message \<Rightarrow> bool" where
  "message_ok x \<longleftrightarrow> (delivery_final (ms_delivery x) \<longrightarrow> ms_read_at x \<noteq> None)"

definition mailbox_ok :: "db \<Rightarrow> bool" where
  "mailbox_ok db \<longleftrightarrow> (\<forall>x\<in>set (d_messages db). message_ok x)"

text \<open>
  \<open>moved xs ys\<close>: every message of \<open>xs\<close> is still there in \<open>ys\<close>, at most one edge further.
\<close>

definition moved :: "team_message list \<Rightarrow> team_message list \<Rightarrow> bool" where
  "moved xs ys \<longleftrightarrow> (\<forall>x\<in>set xs. \<exists>y\<in>set ys. ms_id y = ms_id x
     \<and> delivery_edge (ms_delivery x) (ms_delivery y))"

lemma delivery_edge_refl [simp]: "delivery_edge s s"
  by (simp add: delivery_edge_def)

lemma moved_refl [simp]: "moved xs xs"
  by (auto simp: moved_def)

lemma moved_update:
  assumes "\<And>x. x \<in> set xs \<Longrightarrow> P x \<Longrightarrow> ms_id (f x) = ms_id x \<and> delivery_edge (ms_delivery x) (ms_delivery (f x))"
  shows "moved xs (update_where P f xs)"
  unfolding moved_def
proof
  fix x assume x: "x \<in> set xs"
  then have "(if P x then f x else x) \<in> set (update_where P f xs)" by (simp add: update_where_def)
  then show "\<exists>y\<in>set (update_where P f xs). ms_id y = ms_id x \<and> delivery_edge (ms_delivery x) (ms_delivery y)"
    using assms [OF x] by (intro bexI) auto
qed

lemma moved_append [simp]: "moved xs (xs @ ys)"
  by (auto simp: moved_def)

lemma mailbox_ok_upd:
  assumes "mailbox_ok db" "\<And>x. x \<in> set (d_messages db) \<Longrightarrow> P x \<Longrightarrow> message_ok x \<Longrightarrow> message_ok (f x)"
  shows "mailbox_ok (upd_messages P f db)"
  using assms by (auto simp: mailbox_ok_def upd_messages_def ball_update_where)

lemma send_message_step:
  assumes "send_message t f g kind task body uuid now db = Inr (r, db')" "mailbox_ok db"
  shows "mailbox_ok db'" "moved (d_messages db) (d_messages db')"
  using assms
  by (auto simp: send_message_def err_simps Let_def ins_messages_def mailbox_ok_def message_ok_def
      delivery_final_def split: if_split_asm)

lemma unread_not_final: "mailbox_ok db \<Longrightarrow> x \<in> set (d_messages db) \<Longrightarrow> unread m x \<Longrightarrow> \<not> delivery_final (ms_delivery x)"
  by (auto simp: mailbox_ok_def message_ok_def unread_def)

lemma read_messages_step:
  assumes "mailbox_ok db"
  shows "mailbox_ok (snd (read_messages m now db))"
    "moved (d_messages db) (d_messages (snd (read_messages m now db)))"
proof -
  show "mailbox_ok (snd (read_messages m now db))"
    using assms by (auto simp: read_messages_def message_ok_def intro!: mailbox_ok_upd)
  show "moved (d_messages db) (d_messages (snd (read_messages m now db)))"
    using unread_not_final [OF assms]
    by (auto simp: read_messages_def upd_messages_def delivery_edge_def intro!: moved_update)
qed

lemma mark_messages_read_step:
  assumes "mailbox_ok db"
  shows "mailbox_ok (snd (mark_messages_read m now db))"
    "moved (d_messages db) (d_messages (snd (mark_messages_read m now db)))"
proof -
  show "mailbox_ok (snd (mark_messages_read m now db))"
    using assms by (auto simp: mark_messages_read_def Let_def message_ok_def intro!: mailbox_ok_upd)
  show "moved (d_messages db) (d_messages (snd (mark_messages_read m now db)))"
    using unread_not_final [OF assms]
    by (auto simp: mark_messages_read_def Let_def upd_messages_def delivery_edge_def intro!: moved_update)
qed

lemma requeue_expired_step:
  assumes "mailbox_ok db"
  shows "mailbox_ok (snd (requeue_expired_deliveries l now db))"
    "moved (d_messages db) (d_messages (snd (requeue_expired_deliveries l now db)))"
proof -
  show "mailbox_ok (snd (requeue_expired_deliveries l now db))"
    using assms by (auto simp: requeue_expired_deliveries_def message_ok_def delivery_final_def intro!: mailbox_ok_upd)
  show "moved (d_messages db) (d_messages (snd (requeue_expired_deliveries l now db)))"
    by (auto simp: requeue_expired_deliveries_def upd_messages_def delivery_edge_def delivery_final_def
        lease_expired_def intro!: moved_update)
qed

lemma mark_message_delivered_step:
  assumes "mailbox_ok db"
  shows "mailbox_ok (mark_message_delivered i now db)"
    "moved (d_messages db) (d_messages (mark_message_delivered i now db))"
proof -
  show "mailbox_ok (mark_message_delivered i now db)"
    using assms by (auto simp: mark_message_delivered_def message_ok_def delivery_final_def intro!: mailbox_ok_upd)
  show "moved (d_messages db) (d_messages (mark_message_delivered i now db))"
    by (auto simp: mark_message_delivered_def upd_messages_def delivery_edge_def delivery_final_def
        intro!: moved_update)
qed

lemma mark_message_failed_step:
  assumes "mailbox_ok db"
  shows "mailbox_ok (mark_message_failed i e db)"
    "moved (d_messages db) (d_messages (mark_message_failed i e db))"
proof -
  show "mailbox_ok (mark_message_failed i e db)"
    using assms by (auto simp: mark_message_failed_def message_ok_def delivery_final_def intro!: mailbox_ok_upd)
  show "moved (d_messages db) (d_messages (mark_message_failed i e db))"
    by (auto simp: mark_message_failed_def upd_messages_def delivery_edge_def delivery_final_def
        intro!: moved_update)
qed

subsection \<open>Reading empties the mailbox\<close>

lemma mailbox_order_set [simp]: "set (mailbox_order xs) = set xs"
  by (simp add: mailbox_order_def)

lemma mailbox_order_sorted: "sorted (map (\<lambda>x. (ms_created_at x, ms_id x)) (mailbox_order xs))"
  by (simp add: mailbox_order_def)

lemma read_messages_returns_unread: "fst (read_messages m now db) = unread_messages m db"
  by (simp add: read_messages_def unread_messages_def)

lemma read_messages_empties: "unread_messages m (snd (read_messages m now db)) = []"
  by (simp add: read_messages_def unread_messages_def mailbox_order_def upd_messages_def
      update_where_def filter_map comp_def unread_def filter_empty_conv)

text \<open>A message is handed out at most three times through the pending list and the lease.\<close>

lemma pending_attempts_bounded: "x \<in> set (pending_messages m db) \<Longrightarrow> ms_attempts x \<le> 2"
  by (simp add: pending_messages_def deliverable_def)

end
