(* ===== verification/TeamTasks.thy ===== *)
theory TeamTasks
  imports TeamMailbox
begin

text \<open>
  Tasks, their attempts and the discrimination rounds (\<open>src/server/src/team_store/tasks.rs\<close>).
  The theory holds the operations and shows that each keeps the schema; the invariants of the
  task machine are in \<open>TaskInvariants\<close>.
\<close>

subsection \<open>Reading tasks\<close>

definition get_task :: "string \<Rightarrow> db \<Rightarrow> team_error + task_view" where
  "get_task k db =
    ebind (opt_err (TaskNotFound k) (row_of tk_id k (d_tasks db))) (\<lambda>t.
    Inr \<lparr>tv_task = t,
         tv_dependencies = sort (map snd (filter (\<lambda>d. fst d = k) (d_deps db))),
         tv_owned_paths = sort (map snd (filter (\<lambda>p. fst p = k) (d_paths db)))\<rparr>)"

definition list_tasks :: "string \<Rightarrow> db \<Rightarrow> team_error + task_view list" where
  "list_tasks t db =
    emap (\<lambda>k. get_task k db)
      (map tk_id (sort_key (\<lambda>k. (tk_created_at k, tk_id k)) (filter (\<lambda>k. tk_team k = t) (d_tasks db))))"

definition task_team_id :: "string \<Rightarrow> db \<Rightarrow> team_error + string" where
  "task_team_id k db =
    (case row_of tk_id k (d_tasks db) of None \<Rightarrow> Inl (TaskNotFound k) | Some r \<Rightarrow> Inr (tk_team r))"

definition return_task :: "string \<Rightarrow> db \<Rightarrow> team_error + (task_view \<times> db)" where
  "return_task k db = ebind (get_task k db) (\<lambda>v. Inr (v, db))"

subsection \<open>Creating tasks\<close>

fun validate_dependencies :: "string \<Rightarrow> string list \<Rightarrow> db \<Rightarrow> team_error + unit" where
  "validate_dependencies t [] db = Inr ()"
| "validate_dependencies t (d # ds) db =
    (if list_ex (\<lambda>k. tk_id k = d \<and> tk_team k = t) (d_tasks db)
     then validate_dependencies t ds db else Inl (TaskNotFound d))"

fun ins_all :: "('r \<Rightarrow> db \<Rightarrow> db option) \<Rightarrow> 'r list \<Rightarrow> db \<Rightarrow> db option" where
  "ins_all ins [] db = Some db"
| "ins_all ins (r # rs) db = (case ins r db of None \<Rightarrow> None | Some db' \<Rightarrow> ins_all ins rs db')"

definition new_task_row :: "new_task \<Rightarrow> string \<Rightarrow> nat \<Rightarrow> team_task" where
  "new_task_row input uuid now =
    \<lparr>tk_id = uuid, tk_team = nk_team input, tk_creator = nk_creator input, tk_assignee = None,
     tk_title = trim (nk_title input), tk_description = trim (nk_description input),
     tk_status = (if nk_dependencies input = [] then TkPending else TkBlocked),
     tk_required = True, tk_plan_approval = nk_plan_approval input, tk_plan = None,
     tk_mutates = nk_mutates input, tk_result = None, tk_verification = None,
     tk_created_at = now, tk_updated_at = now\<rparr>"

definition create_task :: "new_task \<Rightarrow> string \<Rightarrow> nat \<Rightarrow> db \<Rightarrow> team_error + (task_view \<times> db)" where
  "create_task input uuid now db =
    ebind (require_leader (nk_team input) (nk_creator input) db) (\<lambda>_.
    ebind (validate_dependencies (nk_team input) (nk_dependencies input) db) (\<lambda>_.
    ebind (opt_err ConstraintViolation (ins_tasks (new_task_row input uuid now) db)) (\<lambda>db1.
    ebind (opt_err ConstraintViolation
            (ins_all ins_deps (map (Pair uuid) (nk_dependencies input)) db1)) (\<lambda>db2.
    ebind (opt_err ConstraintViolation
            (ins_all ins_paths (map (\<lambda>p. (uuid, trim p)) (nk_owned_paths input)) db2)) (\<lambda>db3.
    return_task uuid db3)))))"

subsection \<open>Assigning tasks\<close>

definition new_attempt_row :: "string \<Rightarrow> string \<Rightarrow> string \<Rightarrow> string \<Rightarrow> attempt_status \<Rightarrow> nat \<Rightarrow> task_attempt" where
  "new_attempt_row i t k m s now =
    \<lparr>at_id = i, at_team = t, at_task = k, at_member = m, at_run = None, at_status = s,
     at_failure = None, at_error = None, at_created_at = now, at_updated_at = now,
     at_completed_at = None\<rparr>"

definition touch_team :: "string \<Rightarrow> nat \<Rightarrow> db \<Rightarrow> db" where
  "touch_team t now db = upd_teams (\<lambda>r. tm_id r = t) (\<lambda>r. r\<lparr>tm_updated_at := now\<rparr>) db"

definition assign_row :: "string \<Rightarrow> nat \<Rightarrow> team_task \<Rightarrow> team_task" where
  "assign_row m now k = k\<lparr>tk_assignee := Some m, tk_status := TkInProgress, tk_updated_at := now\<rparr>"

definition delegate_task :: "string \<Rightarrow> string \<Rightarrow> string \<Rightarrow> string \<Rightarrow> string \<Rightarrow> nat \<Rightarrow> db
    \<Rightarrow> team_error + (task_view \<times> db)" where
  "delegate_task k leader m message_uuid attempt_uuid now db =
    ebind (task_team_id k db) (\<lambda>t.
    ebind (require_leader t leader db) (\<lambda>_.
    ebind (require_teammate t m db) (\<lambda>_.
    let P = (\<lambda>r. tk_id r = k \<and> tk_status r = TkPending) in
    ebind (guard (changed P (d_tasks db) \<noteq> 0) TaskUnavailable) (\<lambda>_.
    let db1 = upd_tasks P (assign_row m now) db in
    ebind (opt_err QueryReturnedNoRows (row_of tk_id k (d_tasks db1))) (\<lambda>task.
    ebind (opt_err ConstraintViolation (ins_messages
        (new_message_row message_uuid t leader m MkTaskAssigned (Some k)
          (''Assigned task: '' @ tk_title task) now) db1)) (\<lambda>db2.
    ebind (opt_err ConstraintViolation (ins_attempts
        (new_attempt_row attempt_uuid t k m AtQueued now) db2)) (\<lambda>db3.
    return_task k (touch_team t now db3))))))))"

definition claim_task :: "string \<Rightarrow> string \<Rightarrow> string \<Rightarrow> nat \<Rightarrow> db \<Rightarrow> team_error + (task_view \<times> db)" where
  "claim_task k m attempt_uuid now db =
    ebind (task_team_id k db) (\<lambda>t.
    ebind (require_teammate t m db) (\<lambda>_.
    let P = (\<lambda>r. tk_id r = k \<and> tk_status r = TkPending \<and> tk_assignee r = None) in
    ebind (guard (changed P (d_tasks db) \<noteq> 0) TaskUnavailable) (\<lambda>_.
    let db1 = upd_tasks P (assign_row m now) db in
    ebind (opt_err ConstraintViolation (ins_attempts
        (new_attempt_row attempt_uuid t k m AtRunning now) db1)) (\<lambda>db2.
    return_task k db2))))"

subsection \<open>Attempts\<close>

text \<open>\<open>ORDER BY created_at DESC, id DESC LIMIT 1\<close>, and the update of the row so selected.\<close>

definition latest_attempt :: "(task_attempt \<Rightarrow> bool) \<Rightarrow> db \<Rightarrow> task_attempt option" where
  "latest_attempt P db = latest (\<lambda>a. (at_created_at a, at_id a)) P (d_attempts db)"

definition upd_latest_attempt ::
    "(task_attempt \<Rightarrow> bool) \<Rightarrow> (task_attempt \<Rightarrow> task_attempt) \<Rightarrow> db \<Rightarrow> db" where
  "upd_latest_attempt P f db =
    upd_attempts (\<lambda>a. Some (at_id a) = map_option at_id (latest_attempt P db)) f db"

definition attempt_active :: "attempt_status \<Rightarrow> bool" where
  "attempt_active s \<longleftrightarrow> s \<in> {AtQueued, AtRunning, AtNeedsReport}"

definition active_attempt_for_member :: "string \<Rightarrow> db \<Rightarrow> task_attempt option" where
  "active_attempt_for_member m db =
    latest_attempt (\<lambda>a. at_member a = m \<and> attempt_active (at_status a)) db"

definition bind_task_attempt_run :: "string \<Rightarrow> string \<Rightarrow> nat \<Rightarrow> db
    \<Rightarrow> team_error + (task_attempt option \<times> db)" where
  "bind_task_attempt_run m run now db =
    (case active_attempt_for_member m db of
       None \<Rightarrow> Inr (None, db)
     | Some a \<Rightarrow>
        let db' = upd_attempts (\<lambda>x. at_id x = at_id a)
              (\<lambda>x. x\<lparr>at_run := Some run,
                      at_status := (if at_status x = AtNeedsReport then AtNeedsReport else AtRunning),
                      at_updated_at := now\<rparr>) db in
        ebind (opt_err QueryReturnedNoRows (row_of at_id (at_id a) (d_attempts db'))) (\<lambda>x.
        Inr (Some x, db')))"

definition member_has_open_wait :: "string \<Rightarrow> string \<Rightarrow> db \<Rightarrow> bool" where
  "member_has_open_wait t m db =
    list_ex (\<lambda>w. wt_team w = t \<and> wt_owner w = m \<and> wt_state w = WtOpen) (d_waits db)"

definition mark_attempt_needs_report :: "string \<Rightarrow> nat \<Rightarrow> db \<Rightarrow> task_attempt option \<times> db" where
  "mark_attempt_needs_report m now db =
    (let P = (\<lambda>a. at_member a = m \<and> at_status a = AtRunning);
         db' = upd_latest_attempt P (\<lambda>a. a\<lparr>at_status := AtNeedsReport, at_updated_at := now\<rparr>) db in
     if latest_attempt P db = None then (None, db) else (active_attempt_for_member m db', db'))"

definition fail_active_attempt :: "string \<Rightarrow> failure_kind \<Rightarrow> string \<Rightarrow> nat \<Rightarrow> db
    \<Rightarrow> team_error + (task_attempt option \<times> db)" where
  "fail_active_attempt m kind err now db =
    (case active_attempt_for_member m db of
       None \<Rightarrow> Inr (None, db)
     | Some a \<Rightarrow>
        let db1 = upd_attempts (\<lambda>x. at_id x = at_id a)
              (\<lambda>x. x\<lparr>at_status := AtFailed, at_failure := Some kind, at_error := Some (trim err),
                      at_completed_at := Some now, at_updated_at := now\<rparr>) db;
            db2 = upd_tasks (\<lambda>k. tk_id k = at_task a)
              (\<lambda>k. k\<lparr>tk_status := TkFailed, tk_updated_at := now\<rparr>) db1 in
        ebind (opt_err QueryReturnedNoRows (row_of at_id (at_id a) (d_attempts db2))) (\<lambda>x.
        Inr (Some x, db2)))"

definition list_task_attempts :: "string \<Rightarrow> db \<Rightarrow> task_attempt list" where
  "list_task_attempts t db =
    sort_key (\<lambda>a. (at_created_at a, at_id a)) (filter (\<lambda>a. at_team a = t) (d_attempts db))"

subsection \<open>Results and plans\<close>

definition submit_result :: "string \<Rightarrow> string \<Rightarrow> string \<Rightarrow> string \<Rightarrow> string \<Rightarrow> nat \<Rightarrow> db
    \<Rightarrow> team_error + (task_view \<times> db)" where
  "submit_result k m result verification message_uuid now db =
    ebind (opt_err (TaskNotFound k) (row_of tk_id k (d_tasks db))) (\<lambda>task.
    ebind (opt_err (TaskNotFound k) (row_of tm_id (tk_team task) (d_teams db))) (\<lambda>team.
    let P = (\<lambda>r. tk_id r = k \<and> tk_assignee r = Some m
               \<and> tk_status r \<in> {TkInProgress, TkChangesRequested}) in
    ebind (guard (changed P (d_tasks db) \<noteq> 0) TaskNotAssigned) (\<lambda>_.
    let db1 = upd_tasks P (\<lambda>r. r\<lparr>tk_status := TkResultReview, tk_result := Some (trim result),
              tk_verification := Some (trim verification), tk_updated_at := now\<rparr>) db;
        db2 = upd_latest_attempt (\<lambda>a. at_task a = k \<and> at_member a = m \<and> attempt_active (at_status a))
              (\<lambda>a. a\<lparr>at_status := AtResultSubmitted, at_updated_at := now\<rparr>) db1 in
    ebind (opt_err ConstraintViolation (ins_messages
        (new_message_row message_uuid (tk_team task) m (tm_leader team) MkResultReady (Some k)
          (trim result) now) db2)) (\<lambda>db3.
    ebind (opt_err ConstraintViolation (ins_activity (tk_team task) (Some m) (Some k)
        ''task_result_submitted'' (tk_title task) None now db3)) (\<lambda>db4.
    return_task k db4)))))"

definition submit_plan :: "string \<Rightarrow> string \<Rightarrow> string \<Rightarrow> nat \<Rightarrow> db \<Rightarrow> team_error + (task_view \<times> db)" where
  "submit_plan k m plan now db =
    (let P = (\<lambda>r. tk_id r = k \<and> tk_assignee r = Some m \<and> tk_plan_approval r
                \<and> tk_status r = TkInProgress) in
     ebind (guard (changed P (d_tasks db) \<noteq> 0) TaskNotAssigned) (\<lambda>_.
     return_task k (upd_tasks P (\<lambda>r. r\<lparr>tk_status := TkPlanReview, tk_plan := Some (trim plan),
        tk_updated_at := now\<rparr>) db)))"

definition keep_or :: "string option \<Rightarrow> string option \<Rightarrow> string option" where
  "keep_or new old = (case new of None \<Rightarrow> old | Some v \<Rightarrow> Some v)"

definition review_plan :: "string \<Rightarrow> string \<Rightarrow> bool \<Rightarrow> string option \<Rightarrow> nat \<Rightarrow> db
    \<Rightarrow> team_error + (task_view \<times> db)" where
  "review_plan k leader accept feedback now db =
    ebind (task_team_id k db) (\<lambda>t.
    ebind (require_leader t leader db) (\<lambda>_.
    let next = (if accept then TkInProgress else TkChangesRequested);
        P = (\<lambda>r. tk_id r = k \<and> tk_status r = TkPlanReview) in
    ebind (guard (changed P (d_tasks db) \<noteq> 0) TaskUnavailable) (\<lambda>_.
    return_task k (upd_tasks P (\<lambda>r. r\<lparr>tk_status := next,
        tk_result := keep_or (map_option trim feedback) (tk_result r), tk_updated_at := now\<rparr>) db))))"

definition deps_accepted :: "string \<Rightarrow> db \<Rightarrow> bool" where
  "deps_accepted k db \<longleftrightarrow>
    \<not> list_ex (\<lambda>d. fst d = k \<and> list_ex (\<lambda>x. tk_id x = snd d \<and> tk_status x \<noteq> TkAccepted) (d_tasks db))
        (d_deps db)"

definition unblockable :: "string \<Rightarrow> db \<Rightarrow> team_task \<Rightarrow> bool" where
  "unblockable k db r \<longleftrightarrow>
    tk_status r = TkBlocked \<and> (tk_id r, k) \<in> set (d_deps db) \<and> deps_accepted (tk_id r) db"

definition unblock_dependents :: "string \<Rightarrow> nat \<Rightarrow> db \<Rightarrow> db" where
  "unblock_dependents k now db =
    upd_tasks (unblockable k db) (\<lambda>r. r\<lparr>tk_status := TkPending, tk_updated_at := now\<rparr>) db"

definition ack_results :: "string \<Rightarrow> string \<Rightarrow> nat \<Rightarrow> db \<Rightarrow> db" where
  "ack_results k leader now db =
    upd_messages (\<lambda>x. ms_task x = Some k \<and> ms_to x = leader \<and> ms_kind x = MkResultReady \<and> undelivered x)
      (close_message DvAcknowledged now) db"

definition review_row :: "bool \<Rightarrow> string option \<Rightarrow> nat \<Rightarrow> team_task \<Rightarrow> team_task" where
  "review_row accept feedback now r =
    r\<lparr>tk_status := (if accept then TkAccepted else TkChangesRequested),
      tk_result := keep_or (if accept then None else map_option trim feedback) (tk_result r),
      tk_updated_at := now\<rparr>"

definition review_attempt :: "bool \<Rightarrow> nat \<Rightarrow> task_attempt \<Rightarrow> task_attempt" where
  "review_attempt accept now a =
    a\<lparr>at_status := (if accept then AtCompleted else AtRunning),
      at_completed_at := (if accept then Some now else None), at_updated_at := now\<rparr>"

definition changes_message :: "string \<Rightarrow> string \<Rightarrow> string \<Rightarrow> string option \<Rightarrow> string \<Rightarrow> string option
    \<Rightarrow> nat \<Rightarrow> db \<Rightarrow> db option" where
  "changes_message t k leader assignee message_uuid feedback now db =
    (case assignee of None \<Rightarrow> Some db
     | Some m \<Rightarrow> ins_messages (new_message_row message_uuid t leader m MkChangesRequested (Some k)
          (trim (case feedback of None \<Rightarrow> ''Changes requested'' | Some f \<Rightarrow> f)) now) db)"

definition review_result :: "string \<Rightarrow> string \<Rightarrow> bool \<Rightarrow> string option \<Rightarrow> string \<Rightarrow> nat \<Rightarrow> db
    \<Rightarrow> team_error + (task_view \<times> db)" where
  "review_result k leader accept feedback message_uuid now db =
    ebind (task_team_id k db) (\<lambda>t.
    ebind (require_leader t leader db) (\<lambda>_.
    ebind (opt_err QueryReturnedNoRows (row_of tk_id k (d_tasks db))) (\<lambda>task.
    let P = (\<lambda>r. tk_id r = k \<and> tk_status r = TkResultReview) in
    ebind (guard (changed P (d_tasks db) \<noteq> 0) TaskUnavailable) (\<lambda>_.
    let db1 = upd_tasks P (review_row accept feedback now) db;
        db2 = (if accept then unblock_dependents k now db1 else db1);
        db3 = upd_latest_attempt (\<lambda>a. at_task a = k) (review_attempt accept now) db2;
        db4 = ack_results k leader now db3 in
    ebind (opt_err ConstraintViolation
        (if accept then Some db4
         else changes_message t k leader (tk_assignee task) message_uuid feedback now db4)) (\<lambda>db5.
    ebind (opt_err ConstraintViolation (ins_activity t (Some leader) (Some k)
        (if accept then ''task_result_accepted'' else ''task_changes_requested'') (tk_title task)
        (map_option trim feedback) now db5)) (\<lambda>db6.
    return_task k db6))))))"

subsection \<open>Retry and cancel\<close>

definition retry_task :: "string \<Rightarrow> string \<Rightarrow> nat \<Rightarrow> db \<Rightarrow> team_error + (task_view \<times> db)" where
  "retry_task k leader now db =
    ebind (task_team_id k db) (\<lambda>t.
    ebind (require_leader t leader db) (\<lambda>_.
    let P = (\<lambda>r. tk_id r = k \<and> tk_status r \<in> {TkFailed, TkCancelled});
        next = (if deps_accepted k db then TkPending else TkBlocked) in
    ebind (guard (changed P (d_tasks db) \<noteq> 0) TaskUnavailable) (\<lambda>_.
    let db1 = upd_tasks P (\<lambda>r. r\<lparr>tk_status := next, tk_assignee := None, tk_required := True,
          tk_result := None, tk_verification := None, tk_updated_at := now\<rparr>) db in
    ebind (opt_err QueryReturnedNoRows (row_of tk_id k (d_tasks db1))) (\<lambda>task.
    ebind (opt_err ConstraintViolation (ins_activity (tk_team task) (Some leader) (Some k)
        ''task_retried'' (tk_title task) None now db1)) (\<lambda>db2.
    return_task k db2)))))"

definition attempt_open :: "attempt_status \<Rightarrow> bool" where
  "attempt_open s \<longleftrightarrow> s \<in> {AtQueued, AtRunning, AtNeedsReport, AtResultSubmitted}"

definition cancel_task :: "string \<Rightarrow> string \<Rightarrow> string option \<Rightarrow> nat \<Rightarrow> db
    \<Rightarrow> team_error + (task_view \<times> db)" where
  "cancel_task k leader reason now db =
    ebind (task_team_id k db) (\<lambda>t.
    ebind (require_leader t leader db) (\<lambda>_.
    let P = (\<lambda>r. tk_id r = k \<and> tk_status r \<noteq> TkAccepted) in
    ebind (guard (changed P (d_tasks db) \<noteq> 0) TaskUnavailable) (\<lambda>_.
    let db1 = upd_tasks P (\<lambda>r. r\<lparr>tk_status := TkCancelled, tk_assignee := None, tk_required := False,
          tk_verification := trim_nonempty reason, tk_updated_at := now\<rparr>) db;
        db2 = upd_attempts (\<lambda>a. at_task a = k \<and> attempt_open (at_status a))
          (\<lambda>a. a\<lparr>at_status := AtCancelled, at_completed_at := Some now, at_updated_at := now\<rparr>) db1;
        db3 = upd_messages (\<lambda>x. ms_task x = Some k \<and> undelivered x) (close_message DvCancelled now) db2 in
    ebind (opt_err QueryReturnedNoRows (row_of tk_id k (d_tasks db3))) (\<lambda>task.
    ebind (opt_err ConstraintViolation (ins_activity (tk_team task) (Some leader) (Some k)
        ''task_cancelled'' (tk_title task) (map_option trim reason) now db3)) (\<lambda>db4.
    return_task k (touch_team t now db4))))))"

subsection \<open>Discrimination rounds\<close>

definition required_count :: "string \<Rightarrow> db \<Rightarrow> nat" where
  "required_count t db = count_where (\<lambda>k. tk_team k = t \<and> tk_required k) (d_tasks db)"

definition accepted_count :: "string \<Rightarrow> db \<Rightarrow> nat" where
  "accepted_count t db =
    count_where (\<lambda>k. tk_team k = t \<and> tk_required k \<and> tk_status k = TkAccepted) (d_tasks db)"

definition required_tasks_are_accepted :: "string \<Rightarrow> db \<Rightarrow> bool" where
  "required_tasks_are_accepted t db \<longleftrightarrow> 0 < required_count t db \<and> required_count t db = accepted_count t db"

definition discrimination_budget :: "string \<Rightarrow> db \<Rightarrow> team_error + (nat \<times> nat)" where
  "discrimination_budget t db =
    ebind (opt_err QueryReturnedNoRows (row_of tm_id t (d_teams db))) (\<lambda>team.
    ebind (guard (tm_mode team = Yolo \<and> tm_status team = TmActive
                  \<and> tm_current_round team < tm_max_review_rounds team
                  \<and> required_tasks_are_accepted t db) CompletionBlocked) (\<lambda>_.
    Inr (tm_current_round team, tm_max_review_rounds team)))"

definition get_discrimination_round :: "string \<Rightarrow> db \<Rightarrow> team_error + review_round" where
  "get_discrimination_round i db = opt_err (DiscriminationNotFound i) (row_of rd_id i (d_rounds db))"

definition request_discrimination :: "string \<Rightarrow> string \<Rightarrow> string \<Rightarrow> string \<Rightarrow> string \<Rightarrow> nat \<Rightarrow> db
    \<Rightarrow> team_error + (review_round \<times> db)" where
  "request_discrimination t leader d fingerprint uuid now db =
    ebind (require_leader t leader db) (\<lambda>_.
    ebind (member_role t d db) (\<lambda>role.
    ebind (guard (role = Discriminator) DiscriminatorRequired) (\<lambda>_.
    ebind (discrimination_budget t db) (\<lambda>(current, _).
    let n = current + 1 in
    ebind (opt_err ConstraintViolation (ins_rounds
        \<lparr>rd_id = uuid, rd_team = t, rd_discriminator = d, rd_round = n, rd_fingerprint = fingerprint,
         rd_status = RdRunning, rd_verdict = None, rd_evidence = None, rd_created_at = now,
         rd_resolved_at = None\<rparr> db)) (\<lambda>db1.
    let db2 = upd_teams (\<lambda>r. tm_id r = t) (\<lambda>r. r\<lparr>tm_status := TmVerifying, tm_current_round := n,
          tm_fingerprint := Some fingerprint, tm_updated_at := now\<rparr>) db1 in
    ebind (get_discrimination_round uuid db2) (\<lambda>r. Inr (r, db2)))))))"

definition validate_discrimination_request :: "string \<Rightarrow> string \<Rightarrow> db \<Rightarrow> team_error + unit" where
  "validate_discrimination_request t leader db =
    ebind (require_leader t leader db) (\<lambda>_.
    ebind (discrimination_budget t db) (\<lambda>_. Inr ()))"

definition submit_discrimination_verdict :: "string \<Rightarrow> string \<Rightarrow> bool \<Rightarrow> string \<Rightarrow> string \<Rightarrow> nat \<Rightarrow> db
    \<Rightarrow> team_error + (review_round \<times> db)" where
  "submit_discrimination_verdict i d passed verdict evidence now db =
    ebind (get_discrimination_round i db) (\<lambda>r.
    ebind (guard (rd_discriminator r = d) DiscriminatorRequired) (\<lambda>_.
    ebind (member_role (rd_team r) d db) (\<lambda>role.
    ebind (guard (role = Discriminator) DiscriminatorRequired) (\<lambda>_.
    ebind (guard (rd_status r = RdRunning) InvalidTeamState) (\<lambda>_.
    let db1 = upd_rounds (\<lambda>x. rd_id x = i \<and> rd_status x = RdRunning)
          (\<lambda>x. x\<lparr>rd_status := (if passed then RdPassed else RdRejected), rd_verdict := Some (trim verdict),
                  rd_evidence := Some (trim evidence), rd_resolved_at := Some now\<rparr>) db in
    ebind (opt_err QueryReturnedNoRows (row_of tm_id (rd_team r) (d_teams db1))) (\<lambda>team.
    let next = (if \<not> passed \<and> rd_round r \<ge> tm_max_review_rounds team then TmNeedsAttention else TmActive);
        db2 = upd_teams (\<lambda>x. tm_id x = rd_team r) (\<lambda>x. x\<lparr>tm_status := next, tm_updated_at := now\<rparr>) db1 in
    ebind (get_discrimination_round i db2) (\<lambda>x. Inr (x, db2))))))))"

definition list_discrimination_rounds :: "string \<Rightarrow> db \<Rightarrow> review_round list" where
  "list_discrimination_rounds t db = sort_key rd_round (filter (\<lambda>r. rd_team r = t) (d_rounds db))"

subsection \<open>The operations keep the schema\<close>

lemma schema_ins_all:
  assumes "\<And>r db db'. ins r db = Some db' \<Longrightarrow> schema_ok db \<Longrightarrow> schema_ok db'"
  shows "ins_all ins rs db = Some db' \<Longrightarrow> schema_ok db \<Longrightarrow> schema_ok db'"
  by (induction rs arbitrary: db) (auto split: option.splits dest: assms)

lemma return_task_Inr: "return_task k db = Inr (v, db') \<longleftrightarrow> db' = db \<and> get_task k db = Inr v"
  by (auto simp: return_task_def err_simps)

lemma assign_row_simps [simp]:
  "tk_id (assign_row m now k) = tk_id k" "tk_team (assign_row m now k) = tk_team k"
  "tk_creator (assign_row m now k) = tk_creator k" "tk_assignee (assign_row m now k) = Some m"
  "tk_status (assign_row m now k) = TkInProgress" "tk_required (assign_row m now k) = tk_required k"
  by (simp_all add: assign_row_def)

lemma review_row_simps [simp]:
  "tk_id (review_row acc f now k) = tk_id k" "tk_team (review_row acc f now k) = tk_team k"
  "tk_creator (review_row acc f now k) = tk_creator k"
  "tk_assignee (review_row acc f now k) = tk_assignee k"
  "tk_status (review_row acc f now k) = (if acc then TkAccepted else TkChangesRequested)"
  "tk_required (review_row acc f now k) = tk_required k"
  by (simp_all add: review_row_def)

lemma review_attempt_simps [simp]:
  "at_id (review_attempt acc now a) = at_id a" "at_team (review_attempt acc now a) = at_team a"
  "at_task (review_attempt acc now a) = at_task a" "at_member (review_attempt acc now a) = at_member a"
  "at_status (review_attempt acc now a) = (if acc then AtCompleted else AtRunning)"
  by (simp_all add: review_attempt_def)

lemma new_attempt_row_simps [simp]:
  "at_id (new_attempt_row i t k m s now) = i" "at_team (new_attempt_row i t k m s now) = t"
  "at_task (new_attempt_row i t k m s now) = k" "at_member (new_attempt_row i t k m s now) = m"
  "at_status (new_attempt_row i t k m s now) = s"
  by (simp_all add: new_attempt_row_def)

lemma new_task_row_simps [simp]:
  "tk_id (new_task_row input uuid now) = uuid" "tk_team (new_task_row input uuid now) = nk_team input"
  "tk_creator (new_task_row input uuid now) = nk_creator input"
  "tk_assignee (new_task_row input uuid now) = None"
  "tk_required (new_task_row input uuid now) = True"
  "tk_status (new_task_row input uuid now) = (if nk_dependencies input = [] then TkPending else TkBlocked)"
  by (simp_all add: new_task_row_def)

lemma schema_touch_team [schema_intro]: "schema_ok db \<Longrightarrow> schema_ok (touch_team t now db)"
  by (simp add: touch_team_def schema_upd_teams)

lemma schema_upd_latest_attempt [schema_intro]:
  assumes "schema_ok db" "\<And>r. at_id (f r) = at_id r" "\<And>r. at_team (f r) = at_team r"
    "\<And>r. at_task (f r) = at_task r" "\<And>r. at_member (f r) = at_member r"
  shows "schema_ok (upd_latest_attempt P f db)"
  using assms by (simp add: upd_latest_attempt_def schema_upd_attempts)

lemma schema_create_task:
  "create_task input uuid now db = Inr (r, db') \<Longrightarrow> schema_ok db \<Longrightarrow> schema_ok db'"
  by (auto simp: create_task_def err_simps return_task_Inr
      elim!: schema_ins_all [of ins_paths, rotated] schema_ins_all [of ins_deps, rotated]
      intro: schema_intro)

lemma schema_assign:
  assumes "member_role t m db = Inr role" "schema_ok db"
  shows "schema_ok (upd_tasks P (assign_row m now) db)"
  using assms member_role_in [OF assms(1)] by (intro schema_upd_tasks) auto

lemma schema_delegate_task:
  "delegate_task k l m u v now db = Inr (r, db') \<Longrightarrow> schema_ok db \<Longrightarrow> schema_ok db'"
  by (auto simp: delegate_task_def err_simps Let_def return_task_Inr require_leader_Inr require_teammate_Inr
      intro!: schema_touch_team elim!: schema_ins_work_rows schema_ins_team_rows
      intro: schema_assign)

lemma schema_claim_task:
  "claim_task k m u now db = Inr (r, db') \<Longrightarrow> schema_ok db \<Longrightarrow> schema_ok db'"
  by (auto simp: claim_task_def err_simps Let_def return_task_Inr require_teammate_Inr
      elim!: schema_ins_work_rows intro: schema_assign)

lemma schema_bind_task_attempt_run:
  "bind_task_attempt_run m run now db = Inr (r, db') \<Longrightarrow> schema_ok db \<Longrightarrow> schema_ok db'"
  by (auto simp: bind_task_attempt_run_def err_simps Let_def intro!: schema_upd_attempts
      split: option.splits)

lemma schema_mark_attempt_needs_report:
  "schema_ok db \<Longrightarrow> schema_ok (snd (mark_attempt_needs_report m now db))"
  by (auto simp: mark_attempt_needs_report_def Let_def intro!: schema_upd_latest_attempt)

lemma schema_fail_active_attempt:
  "fail_active_attempt m kind e now db = Inr (r, db') \<Longrightarrow> schema_ok db \<Longrightarrow> schema_ok db'"
  by (auto simp: fail_active_attempt_def err_simps Let_def intro!: schema_upd_tasks schema_upd_attempts
      split: option.splits)

lemma schema_submit_result:
  "submit_result k m res ver u now db = Inr (r, db') \<Longrightarrow> schema_ok db \<Longrightarrow> schema_ok db'"
  by (auto simp: submit_result_def err_simps Let_def return_task_Inr
      elim!: schema_ins_activity schema_ins_team_rows intro!: schema_upd_latest_attempt schema_upd_tasks)

lemma schema_submit_plan:
  "submit_plan k m plan now db = Inr (r, db') \<Longrightarrow> schema_ok db \<Longrightarrow> schema_ok db'"
  by (auto simp: submit_plan_def err_simps Let_def return_task_Inr intro!: schema_upd_tasks)

lemma schema_review_plan:
  "review_plan k l acc f now db = Inr (r, db') \<Longrightarrow> schema_ok db \<Longrightarrow> schema_ok db'"
  by (auto simp: review_plan_def err_simps Let_def return_task_Inr intro!: schema_upd_tasks)

lemma schema_unblock_dependents [schema_intro]: "schema_ok db \<Longrightarrow> schema_ok (unblock_dependents k now db)"
  by (auto simp: unblock_dependents_def intro!: schema_upd_tasks)

lemma schema_ack_results [schema_intro]: "schema_ok db \<Longrightarrow> schema_ok (ack_results k l now db)"
  by (auto simp: ack_results_def intro!: schema_upd_messages)

lemma schema_changes_message [schema_intro]:
  "changes_message t k l a u f now db = Some db' \<Longrightarrow> schema_ok db \<Longrightarrow> schema_ok db'"
  by (auto simp: changes_message_def split: option.splits intro: schema_intro)

lemma schema_review_result:
  "review_result k l acc f u now db = Inr (r, db') \<Longrightarrow> schema_ok db \<Longrightarrow> schema_ok db'"
  by (cases acc)
    (auto simp: review_result_def err_simps Let_def return_task_Inr
      elim!: schema_ins_activity schema_changes_message
      intro!: schema_ack_results schema_upd_latest_attempt schema_unblock_dependents schema_upd_tasks)

lemma schema_retry_task:
  "retry_task k l now db = Inr (r, db') \<Longrightarrow> schema_ok db \<Longrightarrow> schema_ok db'"
  by (auto simp: retry_task_def err_simps Let_def return_task_Inr elim!: schema_ins_activity
      intro!: schema_upd_tasks)

lemma schema_cancel_task:
  "cancel_task k l reason now db = Inr (r, db') \<Longrightarrow> schema_ok db \<Longrightarrow> schema_ok db'"
  by (auto simp: cancel_task_def err_simps Let_def return_task_Inr elim!: schema_ins_activity
      intro!: schema_touch_team schema_upd_messages schema_upd_attempts schema_upd_tasks)

lemma schema_request_discrimination:
  "request_discrimination t l d fp u now db = Inr (r, db') \<Longrightarrow> schema_ok db \<Longrightarrow> schema_ok db'"
  by (auto simp: request_discrimination_def err_simps Let_def elim!: schema_ins_work_rows
      intro!: schema_upd_teams)

lemma schema_submit_discrimination_verdict:
  "submit_discrimination_verdict i d p v e now db = Inr (r, db') \<Longrightarrow> schema_ok db \<Longrightarrow> schema_ok db'"
  by (auto simp: submit_discrimination_verdict_def err_simps Let_def
      intro!: schema_upd_teams schema_upd_rounds)

lemmas task_op_defs = create_task_def delegate_task_def claim_task_def bind_task_attempt_run_def
  mark_attempt_needs_report_def fail_active_attempt_def submit_result_def submit_plan_def
  review_plan_def review_result_def retry_task_def cancel_task_def request_discrimination_def
  submit_discrimination_verdict_def

end
