(* ===== verification/TeamPermissions.thy ===== *)
theory TeamPermissions
  imports TeamMembers
begin

text \<open>
  Permission requests of team members (\<open>src/server/src/team_store/permissions.rs\<close>), which the
  leader resolves or escalates and the user resolves, and the membership proposals of
  \<open>src/server/src/team_store/proposals.rs\<close>.

  \<open>options_json\<close> is parsed by \<open>serde_json\<close>; the operations take that parser as the argument
  \<open>parse\<close>: the error text, or for each offered option the string under its key \<open>id\<close>, if any.
\<close>

type_synonym options_parser = "string \<Rightarrow> string + string option list"

subsection \<open>Permission requests\<close>

definition get_permission_request :: "string \<Rightarrow> db \<Rightarrow> team_error + permission_request" where
  "get_permission_request i db = opt_err (PermissionNotFound i) (row_of pr_id i (d_permissions db))"

definition new_permission_row :: "new_permission \<Rightarrow> nat \<Rightarrow> permission_request" where
  "new_permission_row input now =
    \<lparr>pr_id = np_id input, pr_team = np_team input, pr_member = np_member input,
     pr_conversation = np_conversation input, pr_run = np_run input, pr_tool = np_tool input,
     pr_input_json = np_input_json input, pr_options_json = np_options_json input,
     pr_status = PrPendingLeader, pr_selected = None, pr_reason = None, pr_decided_by = None,
     pr_decided_by_member = None, pr_created_at = now, pr_resolved_at = None\<rparr>"

definition create_permission_request ::
    "new_permission \<Rightarrow> nat \<Rightarrow> db \<Rightarrow> team_error + (permission_request \<times> db)" where
  "create_permission_request input now db =
    ebind (require_team_member (np_team input) (np_member input) db) (\<lambda>_.
    ebind (opt_err ConstraintViolation (ins_permissions (new_permission_row input now) db)) (\<lambda>db'.
    ebind (get_permission_request (np_id input) db') (\<lambda>r. Inr (r, db'))))"

definition open_permission :: "permission_request \<Rightarrow> bool" where
  "open_permission p \<longleftrightarrow> pr_status p \<in> {PrPendingLeader, PrWaitingUser}"

definition pending_permission_requests :: "string \<Rightarrow> db \<Rightarrow> team_error + permission_request list" where
  "pending_permission_requests t db =
    ebind (guard (team_in t db) (TeamNotFound t)) (\<lambda>_.
    Inr (sort_key (\<lambda>p. (pr_created_at p, pr_id p))
          (filter (\<lambda>p. pr_team p = t \<and> open_permission p) (d_permissions db))))"

definition validate_permission_option ::
    "options_parser \<Rightarrow> permission_request \<Rightarrow> string \<Rightarrow> team_error + unit" where
  "validate_permission_option parse p option_id =
    (case parse (pr_options_json p) of
       Inl err \<Rightarrow> Inl (InvalidStoredValue err)
     | Inr ids \<Rightarrow> guard (Some option_id \<in> set ids) (InvalidPermissionOption option_id))"

definition update_permission_request :: "options_parser \<Rightarrow> string \<Rightarrow> string option
    \<Rightarrow> permission_status \<Rightarrow> string option \<Rightarrow> string option \<Rightarrow> string \<Rightarrow> nat \<Rightarrow> db
    \<Rightarrow> team_error + (permission_request \<times> db)" where
  "update_permission_request parse i leader status option_id reason decided_by now db =
    ebind (get_permission_request i db) (\<lambda>p.
    ebind (guard (pr_status p = PrPendingLeader) PermissionNotPending) (\<lambda>_.
    ebind (opt_err LeaderRequired leader) (\<lambda>l.
    ebind (require_leader (pr_team p) l db) (\<lambda>_.
    ebind (case option_id of None \<Rightarrow> Inr () | Some x \<Rightarrow> validate_permission_option parse p x) (\<lambda>_.
    let db' = upd_permissions (\<lambda>r. pr_id r = i \<and> pr_status r = PrPendingLeader)
          (\<lambda>r. r\<lparr>pr_status := status, pr_selected := option_id, pr_reason := trim_nonempty reason,
                  pr_decided_by := Some decided_by, pr_decided_by_member := Some l,
                  pr_resolved_at := (if status = PrResolved then Some now else None)\<rparr>) db in
    ebind (get_permission_request i db') (\<lambda>r. Inr (r, db')))))))"

definition resolve_permission_as_leader :: "options_parser \<Rightarrow> string \<Rightarrow> string \<Rightarrow> string
    \<Rightarrow> string option \<Rightarrow> nat \<Rightarrow> db \<Rightarrow> team_error + (permission_request \<times> db)" where
  "resolve_permission_as_leader parse i leader option_id reason now db =
    update_permission_request parse i (Some leader) PrResolved (Some option_id) reason ''leader'' now db"

definition escalate_permission :: "options_parser \<Rightarrow> string \<Rightarrow> string \<Rightarrow> string option \<Rightarrow> nat \<Rightarrow> db
    \<Rightarrow> team_error + (permission_request \<times> db)" where
  "escalate_permission parse i leader reason now db =
    update_permission_request parse i (Some leader) PrWaitingUser None reason ''leader'' now db"

definition resolve_permission_as_user :: "options_parser \<Rightarrow> string \<Rightarrow> string \<Rightarrow> nat \<Rightarrow> db
    \<Rightarrow> team_error + (permission_request option \<times> db)" where
  "resolve_permission_as_user parse i option_id now db =
    (case row_of pr_id i (d_permissions db) of
       None \<Rightarrow> Inr (None, db)
     | Some p \<Rightarrow>
        ebind (guard (pr_status p = PrWaitingUser) PermissionNotPending) (\<lambda>_.
        ebind (validate_permission_option parse p option_id) (\<lambda>_.
        let P = (\<lambda>r. pr_id r = i \<and> pr_status r = PrWaitingUser) in
        ebind (guard (changed P (d_permissions db) \<noteq> 0) PermissionNotPending) (\<lambda>_.
        let db' = upd_permissions P
              (\<lambda>r. r\<lparr>pr_status := PrResolved, pr_selected := Some option_id,
                      pr_decided_by := Some ''user'', pr_resolved_at := Some now\<rparr>) db in
        ebind (get_permission_request i db') (\<lambda>r. Inr (Some r, db'))))))"

definition cancel_permission_request :: "string \<Rightarrow> nat \<Rightarrow> db
    \<Rightarrow> team_error + (permission_request option \<times> db)" where
  "cancel_permission_request i now db =
    (let P = (\<lambda>r. pr_id r = i \<and> open_permission r);
         db' = upd_permissions P (\<lambda>r. r\<lparr>pr_status := PrCancelled, pr_resolved_at := Some now\<rparr>) db in
     if changed P (d_permissions db) = 0 then Inr (row_of pr_id i (d_permissions db), db)
     else ebind (get_permission_request i db') (\<lambda>r. Inr (Some r, db')))"

subsection \<open>Proposals\<close>

definition get_proposal :: "string \<Rightarrow> db \<Rightarrow> team_error + team_proposal" where
  "get_proposal i db = opt_err (ProposalNotFound i) (row_of pp_id i (d_proposals db))"

definition create_proposal :: "string \<Rightarrow> string \<Rightarrow> string \<Rightarrow> string \<Rightarrow> nat \<Rightarrow> db
    \<Rightarrow> team_error + (team_proposal \<times> db)" where
  "create_proposal t summary members_json uuid now db =
    ebind (guard (team_in t db) (TeamNotFound t)) (\<lambda>_.
    ebind (opt_err ConstraintViolation (ins_proposals
        \<lparr>pp_id = uuid, pp_team = t, pp_summary = trim summary, pp_members_json = members_json,
         pp_status = PpPending, pp_created_at = now, pp_resolved_at = None\<rparr> db)) (\<lambda>db'.
    ebind (get_proposal uuid db') (\<lambda>r. Inr (r, db'))))"

definition resolve_proposal :: "string \<Rightarrow> string \<Rightarrow> proposal_status \<Rightarrow> nat \<Rightarrow> db
    \<Rightarrow> team_error + (team_proposal \<times> db)" where
  "resolve_proposal t i status now db =
    ebind (guard (status \<noteq> PpPending) InvalidProposalDecision) (\<lambda>_.
    let P = (\<lambda>r. pp_id r = i \<and> pp_team r = t \<and> pp_status r = PpPending) in
    if changed P (d_proposals db) = 0
    then ebind (get_proposal i db) (\<lambda>p. Inl (if pp_team p = t then ProposalNotFound i else WrongTeam))
    else let db' = upd_proposals P (\<lambda>r. r\<lparr>pp_status := status, pp_resolved_at := Some now\<rparr>) db in
         ebind (get_proposal i db') (\<lambda>r. Inr (r, db')))"

definition latest_proposal :: "string \<Rightarrow> db \<Rightarrow> team_proposal option" where
  "latest_proposal t db = latest (\<lambda>p. (pp_created_at p, pp_id p)) (\<lambda>p. pp_team p = t) (d_proposals db)"

subsection \<open>Schema\<close>

lemma schema_create_permission_request:
  "create_permission_request input now db = Inr (r, db') \<Longrightarrow> schema_ok db \<Longrightarrow> schema_ok db'"
  by (auto simp: create_permission_request_def err_simps intro: schema_intro)

lemma schema_update_permission_request:
  "update_permission_request parse i l s opt reason who now db = Inr (r, db') \<Longrightarrow> schema_ok db \<Longrightarrow> schema_ok db'"
  by (auto simp: update_permission_request_def err_simps Let_def require_leader_Inr
      intro!: schema_upd_permissions dest: member_role_in)

lemma schema_resolve_permission_as_user:
  "resolve_permission_as_user parse i opt now db = Inr (r, db') \<Longrightarrow> schema_ok db \<Longrightarrow> schema_ok db'"
  by (auto simp: resolve_permission_as_user_def err_simps Let_def intro!: schema_upd_permissions
      split: option.splits)

lemma schema_cancel_permission_request:
  "cancel_permission_request i now db = Inr (r, db') \<Longrightarrow> schema_ok db \<Longrightarrow> schema_ok db'"
  by (auto simp: cancel_permission_request_def err_simps Let_def intro!: schema_upd_permissions
      split: if_split_asm)

lemma schema_create_proposal:
  "create_proposal t s m uuid now db = Inr (r, db') \<Longrightarrow> schema_ok db \<Longrightarrow> schema_ok db'"
  by (auto simp: create_proposal_def err_simps intro: schema_intro)

lemma schema_resolve_proposal:
  "resolve_proposal t i s now db = Inr (r, db') \<Longrightarrow> schema_ok db \<Longrightarrow> schema_ok db'"
  by (auto simp: resolve_proposal_def err_simps Let_def intro!: schema_upd_proposals split: if_split_asm)

subsection \<open>The permission life cycle\<close>

definition permission_final :: "permission_status \<Rightarrow> bool" where
  "permission_final s \<longleftrightarrow> s \<in> {PrResolved, PrCancelled}"

definition permission_edge :: "permission_status \<Rightarrow> permission_status \<Rightarrow> bool" where
  "permission_edge s s' \<longleftrightarrow> s' = s \<or>
    (s, s') \<in> {(PrPendingLeader, PrResolved), (PrPendingLeader, PrWaitingUser),
               (PrPendingLeader, PrCancelled), (PrWaitingUser, PrResolved), (PrWaitingUser, PrCancelled)}"

interpretation permission: life_cycle permission_edge permission_final
  by unfold_locales (auto simp: permission_edge_def permission_final_def)

text \<open>
  A resolved request names an option its Agent offered, and who decided it.  The parser stays
  fixed over a run.
\<close>

definition permission_ok :: "options_parser \<Rightarrow> permission_request \<Rightarrow> bool" where
  "permission_ok parse p \<longleftrightarrow>
    (pr_status p = PrResolved \<longrightarrow>
       (\<exists>opt. pr_selected p = Some opt \<and> validate_permission_option parse p opt = Inr ())
       \<and> (pr_decided_by p = Some ''leader'' \<or> pr_decided_by p = Some ''user''))
    \<and> (permission_final (pr_status p) \<longleftrightarrow> pr_resolved_at p \<noteq> None)"

definition permissions_ok :: "options_parser \<Rightarrow> db \<Rightarrow> bool" where
  "permissions_ok parse db \<longleftrightarrow> (\<forall>p\<in>set (d_permissions db). permission_ok parse p)"

lemma validate_permission_option_cong:
  "pr_options_json p = pr_options_json q \<Longrightarrow>
   validate_permission_option parse p opt = validate_permission_option parse q opt"
  by (simp add: validate_permission_option_def)

lemma permissions_ok_upd:
  assumes "permissions_ok parse db"
    "\<And>p. p \<in> set (d_permissions db) \<Longrightarrow> P p \<Longrightarrow> permission_ok parse p \<Longrightarrow> permission_ok parse (f p)"
  shows "permissions_ok parse (upd_permissions P f db)"
  using assms by (auto simp: permissions_ok_def upd_permissions_def ball_update_where)

lemma permissions_ok_create:
  "create_permission_request input now db = Inr (r, db') \<Longrightarrow> permissions_ok parse db \<Longrightarrow> permissions_ok parse db'"
  by (auto simp: create_permission_request_def err_simps permissions_ok_def ins_permissions_def
      permission_ok_def permission_final_def new_permission_row_def split: if_split_asm)

lemma permissions_ok_update:
  assumes "update_permission_request parse i l s opt reason ''leader'' now db = Inr (r, db')"
    "permissions_ok parse db" "schema_ok db"
    "s = PrResolved \<and> opt \<noteq> None \<or> s = PrWaitingUser"
  shows "permissions_ok parse db'"
proof -
  obtain p m where p: "row_of pr_id i (d_permissions db) = Some p"
    and v: "(case opt of None \<Rightarrow> Inr () | Some x \<Rightarrow> validate_permission_option parse p x) = Inr ()"
    and db': "db' = upd_permissions (\<lambda>r. pr_id r = i \<and> pr_status r = PrPendingLeader)
          (\<lambda>r. r\<lparr>pr_status := s, pr_selected := opt, pr_reason := trim_nonempty reason,
                  pr_decided_by := Some ''leader'', pr_decided_by_member := Some m,
                  pr_resolved_at := (if s = PrResolved then Some now else None)\<rparr>) db"
    using assms(1) by (auto simp: update_permission_request_def err_simps Let_def get_permission_request_def)
  have "q = p" if "q \<in> set (d_permissions db)" "pr_id q = i" for q
    using that row_of_SomeD [OF p] assms(3) by (auto simp: schema_defs dest: unique_key_eqD)
  then show ?thesis
    unfolding db' using assms(2,4) v
    by (intro permissions_ok_upd)
      (auto simp: permission_ok_def permission_final_def validate_permission_option_def split: option.splits)
qed

lemma permissions_ok_user:
  assumes "resolve_permission_as_user parse i opt now db = Inr (r, db')"
    "permissions_ok parse db" "schema_ok db"
  shows "permissions_ok parse db'"
proof (cases "row_of pr_id i (d_permissions db)")
  case None
  then show ?thesis using assms by (auto simp: resolve_permission_as_user_def)
next
  case (Some p)
  have "q = p" if "q \<in> set (d_permissions db)" "pr_id q = i" for q
    using that row_of_SomeD [OF Some] assms(3) by (auto simp: schema_defs dest: unique_key_eqD)
  moreover obtain v: "validate_permission_option parse p opt = Inr ()"
    and db': "db' = upd_permissions (\<lambda>r. pr_id r = i \<and> pr_status r = PrWaitingUser)
        (\<lambda>r. r\<lparr>pr_status := PrResolved, pr_selected := Some opt, pr_decided_by := Some ''user'',
                pr_resolved_at := Some now\<rparr>) db"
    using assms(1) Some by (auto simp: resolve_permission_as_user_def err_simps Let_def)
  ultimately show ?thesis
    unfolding db' using assms(2)
    by (intro permissions_ok_upd)
      (auto simp: permission_ok_def permission_final_def validate_permission_option_def)
qed

lemma permissions_ok_cancel:
  "cancel_permission_request i now db = Inr (r, db') \<Longrightarrow> permissions_ok parse db \<Longrightarrow> permissions_ok parse db'"
  by (auto simp: cancel_permission_request_def err_simps Let_def permission_ok_def permission_final_def
      intro!: permissions_ok_upd split: if_split_asm)

end
