(* ===== verification/TeamLifecycle.thy ===== *)
theory TeamLifecycle
  imports TeamTasks TeamPermissions
begin

text \<open>
  The team itself (\<open>src/server/src/team_store/lifecycle.rs\<close> and the start-up statements and the
  activity log of \<open>src/server/src/team_store/mod.rs\<close>): its life cycle from draft to completed or
  disbanding, the durable lifecycle operations with their retry back-off, and the requests for
  user input.
\<close>

subsection \<open>Creating and reading teams\<close>

definition get_team :: "string \<Rightarrow> db \<Rightarrow> team_error + team" where
  "get_team t db = opt_err (TeamNotFound t) (row_of tm_id t (d_teams db))"

definition return_team :: "string \<Rightarrow> db \<Rightarrow> team_error + (team \<times> db)" where
  "return_team t db = ebind (get_team t db) (\<lambda>r. Inr (r, db))"

definition new_team_row :: "new_team \<Rightarrow> string \<Rightarrow> string \<Rightarrow> nat \<Rightarrow> team" where
  "new_team_row input team_uuid leader_uuid now =
    \<lparr>tm_id = team_uuid, tm_project_id = nt_project_id input, tm_leader = leader_uuid,
     tm_session = nt_session input, tm_title = normalize_title (nt_title input), tm_status = TmDraft,
     tm_workspace = nt_workspace input, tm_workspace_path = nt_workspace_path input,
     tm_policy = PolicyAsk, tm_max_parallel_runs = 3, tm_requested_mode = Standard,
     tm_mode = Standard, tm_fallback = None, tm_goal = [], tm_criteria = [],
     tm_agents = supported_agents, tm_max_teammates = 3, tm_max_review_rounds = 3,
     tm_current_round = 0, tm_fingerprint = None, tm_final_summary = None, tm_started_at = None,
     tm_completed_at = None, tm_created_at = now, tm_updated_at = now\<rparr>"

definition create_team :: "new_team \<Rightarrow> string \<Rightarrow> string \<Rightarrow> nat \<Rightarrow> db \<Rightarrow> team_error + (team \<times> db)" where
  "create_team input team_uuid leader_uuid now db =
    ebind (opt_err ConstraintViolation
            (ins_teams (new_team_row input team_uuid leader_uuid now) db)) (\<lambda>db1.
    ebind (opt_err ConstraintViolation
            (ins_members (new_member_row leader_uuid team_uuid (nt_conversation input)
               (normalized_name (nt_leader_name input)) Leader MbIdle MwShared None now) db1)) (\<lambda>db2.
    return_team team_uuid db2))"

definition list_teams :: "string \<Rightarrow> db \<Rightarrow> team list" where
  "list_teams project db =
    rev (sort_key tm_updated_at (rev (sort_key tm_id (filter (\<lambda>t. tm_project_id t = project) (d_teams db)))))"

definition reconcilable :: "team_status \<Rightarrow> bool" where
  "reconcilable s \<longleftrightarrow> s \<in> {TmStarting, TmActive, TmVerifying, TmNeedsAttention, TmDisbanding}"

definition list_reconcilable_teams :: "db \<Rightarrow> team list" where
  "list_reconcilable_teams db =
    sort_key (\<lambda>t. (tm_updated_at t, tm_id t)) (filter (\<lambda>t. reconcilable (tm_status t)) (d_teams db))"

definition team_for_conversation :: "string \<Rightarrow> db \<Rightarrow> team option" where
  "team_for_conversation c db =
    (case row_of mb_conversation c (d_members db) of None \<Rightarrow> None
     | Some m \<Rightarrow> row_of tm_id (mb_team m) (d_teams db))"

subsection \<open>Guarded status changes\<close>

text \<open>
  Most life cycle operations are one \<open>UPDATE teams SET ... WHERE id = ?1 AND <guard>\<close>, an
  \<open>InvalidTeamState\<close> when no row changed, and a read of the row.
\<close>

definition update_team_if :: "team_error \<Rightarrow> string \<Rightarrow> (team \<Rightarrow> bool) \<Rightarrow> (team \<Rightarrow> team) \<Rightarrow> db
    \<Rightarrow> team_error + (team \<times> db)" where
  "update_team_if err t C f db =
    ebind (guard (changed (\<lambda>r. tm_id r = t \<and> C r) (d_teams db) \<noteq> 0) err) (\<lambda>_.
    return_team t (upd_teams (\<lambda>r. tm_id r = t \<and> C r) f db))"

definition set_status :: "team_status \<Rightarrow> nat \<Rightarrow> team \<Rightarrow> team" where
  "set_status s now r = r\<lparr>tm_status := s, tm_updated_at := now\<rparr>"

definition update_team_settings :: "string \<Rightarrow> management_policy \<Rightarrow> nat \<Rightarrow> nat \<Rightarrow> db
    \<Rightarrow> team_error + (team \<times> db)" where
  "update_team_settings t policy max_runs now db =
    ebind (guard (1 \<le> max_runs \<and> max_runs \<le> MAX_TEAMMATES) InvalidConcurrency) (\<lambda>_.
    update_team_if (TeamNotFound t) t (\<lambda>_. True)
      (\<lambda>r. r\<lparr>tm_policy := policy, tm_max_parallel_runs := max_runs, tm_updated_at := now\<rparr>) db)"

definition startable :: "start_request \<Rightarrow> db \<Rightarrow> team \<Rightarrow> bool" where
  "startable input db r \<longleftrightarrow>
    tm_status r \<in> {TmDraft, TmNeedsAttention} \<and>
    (tm_status r = TmDraft \<or> st_max_review_rounds input > tm_current_round r) \<and>
    \<not> list_ex (\<lambda>u. ui_team u = tm_id r \<and> ui_status u = UiPending) (d_inputs db)"

definition start_row :: "start_request \<Rightarrow> string list \<Rightarrow> string list \<Rightarrow> nat \<Rightarrow> team \<Rightarrow> team" where
  "start_row input criteria agents now r =
    r\<lparr>tm_status := TmStarting, tm_requested_mode := st_mode input, tm_mode := st_mode input,
      tm_fallback := None, tm_goal := trim (st_goal input), tm_criteria := criteria,
      tm_agents := agents, tm_max_teammates := st_max_teammates input,
      tm_max_parallel_runs := st_max_parallel_runs input,
      tm_max_review_rounds := st_max_review_rounds input,
      tm_current_round := (if tm_status r = TmDraft then 0 else tm_current_round r),
      tm_fingerprint := None, tm_final_summary := None, tm_started_at := Some now,
      tm_completed_at := None, tm_updated_at := now\<rparr>"

definition start_team :: "start_request \<Rightarrow> nat \<Rightarrow> db \<Rightarrow> team_error + (team \<times> db)" where
  "start_team input now db =
    ebind (guard (trim (st_goal input) \<noteq> []) GoalRequired) (\<lambda>_.
    let criteria = normalized_strings (st_criteria input) in
    ebind (guard (criteria \<noteq> []) AcceptanceCriteriaRequired) (\<lambda>_.
    ebind (normalized_agent_ids (st_agents input)) (\<lambda>agents.
    ebind (guard (agents \<noteq> []) AllowedAgentsRequired) (\<lambda>_.
    ebind (guard (1 \<le> st_max_teammates input \<and> st_max_teammates input \<le> MAX_TEAMMATES) InvalidMemberLimit) (\<lambda>_.
    ebind (guard (1 \<le> st_max_parallel_runs input \<and> st_max_parallel_runs input \<le> st_max_teammates input)
            InvalidConcurrency) (\<lambda>_.
    ebind (guard (1 \<le> st_max_review_rounds input \<and> st_max_review_rounds input \<le> 10) InvalidReviewRounds) (\<lambda>_.
    ebind (require_leader (st_team input) (st_leader input) db) (\<lambda>_.
    update_team_if InvalidTeamState (st_team input) (startable input db)
      (start_row input criteria agents now) db))))))))"

definition activate_team :: "string \<Rightarrow> nat \<Rightarrow> db \<Rightarrow> team_error + (team \<times> db)" where
  "activate_team t now db =
    update_team_if InvalidTeamState t (\<lambda>r. tm_status r = TmStarting) (set_status TmActive now) db"

definition pause_team :: "string \<Rightarrow> nat \<Rightarrow> db \<Rightarrow> team_error + (team \<times> db)" where
  "pause_team t now db =
    update_team_if InvalidTeamState t (\<lambda>r. tm_status r \<in> {TmActive, TmVerifying, TmNeedsAttention})
      (set_status TmPaused now) db"

definition resume_team :: "string \<Rightarrow> nat \<Rightarrow> db \<Rightarrow> team_error + (team \<times> db)" where
  "resume_team t now db =
    update_team_if InvalidTeamState t (\<lambda>r. tm_status r = TmPaused) (set_status TmActive now) db"

definition mark_team_needs_attention :: "string \<Rightarrow> nat \<Rightarrow> db \<Rightarrow> team_error + (team \<times> db)" where
  "mark_team_needs_attention t now db =
    update_team_if InvalidTeamState t (\<lambda>r. tm_status r \<in> {TmActive, TmVerifying})
      (set_status TmNeedsAttention now) db"

definition downgrade_to_standard :: "string \<Rightarrow> string \<Rightarrow> string \<Rightarrow> string \<Rightarrow> nat \<Rightarrow> db
    \<Rightarrow> team_error + (team \<times> db)" where
  "downgrade_to_standard t agent code reason now db =
    update_team_if InvalidTeamState t (\<lambda>r. tm_requested_mode r = Yolo)
      (\<lambda>r. r\<lparr>tm_mode := Standard,
              tm_fallback := Some \<lparr>mf_agent_id = agent, mf_reason_code = code,
                                  mf_reason = trim reason, mf_occurred_at = now\<rparr>,
              tm_updated_at := now\<rparr>) db"

definition abort_start :: "string \<Rightarrow> nat \<Rightarrow> db \<Rightarrow> team_error + (team \<times> db)" where
  "abort_start t now db =
    update_team_if InvalidTeamState t (\<lambda>r. tm_status r \<in> {TmStarting, TmActive})
      (\<lambda>r. r\<lparr>tm_status := TmDraft, tm_requested_mode := Standard, tm_mode := Standard,
              tm_fallback := None, tm_started_at := None, tm_updated_at := now\<rparr>) db"

definition mark_team_disbanding :: "string \<Rightarrow> nat \<Rightarrow> db \<Rightarrow> team_error + (team \<times> db)" where
  "mark_team_disbanding t now db =
    ebind (get_team t db) (\<lambda>current.
    if tm_status current = TmDisbanding then Inr (current, db)
    else update_team_if InvalidTeamState t (\<lambda>r. tm_status r \<notin> {TmDisbanding, TmRemoved})
           (set_status TmDisbanding now) db)"

subsection \<open>Completing a team\<close>

definition record_pending_research_outcome :: "string \<Rightarrow> nat \<Rightarrow> db \<Rightarrow> db" where
  "record_pending_research_outcome t now db =
    (case find (\<lambda>l. rl_kind l = ''team'' \<and> rl_ref l = t) (d_links db) of
       None \<Rightarrow> db
     | Some l \<Rightarrow>
       (case row_of tm_id t (d_teams db) of
          None \<Rightarrow> db
        | Some team \<Rightarrow>
          let round = map_option rr_id (find (\<lambda>r. rr_team r = Some t) (d_research_rounds db));
              published = map_option pb_id (find (\<lambda>_. True)
                 (sort_key (\<lambda>p. (pb_created_at p, pb_id p))
                   (filter (\<lambda>p. pb_research p = rl_research l \<and> pb_team p = Some t) (d_publications db))));
              inserted = \<not> has_key po_team t (d_outcomes db);
              db1 = (if inserted then db\<lparr>d_outcomes := d_outcomes db @
                  [\<lparr>po_team = t, po_research = rl_research l, po_round = round,
                    po_status = (if published = None then OutcomePending else OutcomeRecorded),
                    po_publication = published,
                    po_resolved_at = (if published = None then None else Some now)\<rparr>]\<rparr> else db) in
          if inserted \<and> published = None
          then append_workspace_event ''research_updated'' (tm_project_id team)
                 [(''research_id'', rl_research l), (''change'', ''outcome_pending'')] db1
          else db1))"

definition unresolved_count :: "string \<Rightarrow> db \<Rightarrow> nat" where
  "unresolved_count t db =
    count_where (\<lambda>p. pr_team p = t \<and> open_permission p) (d_permissions db)
    + count_where (\<lambda>x. ms_team x = t \<and> undelivered x) (d_messages db)
    + count_where (\<lambda>e. ex_team e = Some t \<and> (is_active (ex_state e) \<or> ex_analysis e = AnPending))
        (d_experiments db)
    + count_where (\<lambda>w. wt_team w = t \<and> wt_state w = WtOpen) (d_waits db)"

definition last_passed :: "string \<Rightarrow> db \<Rightarrow> review_round option" where
  "last_passed t db = latest rd_round (\<lambda>r. rd_team r = t \<and> rd_status r = RdPassed) (d_rounds db)"

definition complete_row :: "string \<Rightarrow> string \<Rightarrow> nat \<Rightarrow> team \<Rightarrow> team" where
  "complete_row summary fingerprint now r =
    r\<lparr>tm_status := TmCompleted, tm_final_summary := Some (trim summary),
      tm_fingerprint := Some fingerprint, tm_completed_at := Some now, tm_updated_at := now\<rparr>"

definition complete_team :: "string \<Rightarrow> string \<Rightarrow> string \<Rightarrow> string \<Rightarrow> nat \<Rightarrow> db
    \<Rightarrow> team_error + (team \<times> db)" where
  "complete_team t leader summary fingerprint now db =
    ebind (require_leader t leader db) (\<lambda>_.
    ebind (opt_err QueryReturnedNoRows (row_of tm_id t (d_teams db))) (\<lambda>team.
    ebind (guard (tm_status team = TmActive \<and> required_count t db \<noteq> 0
                  \<and> required_count t db = accepted_count t db) CompletionBlocked) (\<lambda>_.
    ebind (guard (unresolved_count t db = 0) CompletionBlocked) (\<lambda>_.
    ebind (guard (tm_mode team = Yolo \<longrightarrow>
                   map_option rd_fingerprint (last_passed t db) = Some fingerprint) CompletionBlocked) (\<lambda>_.
    let db1 = upd_teams (\<lambda>r. tm_id r = t) (complete_row summary fingerprint now) db in
    return_team t (record_pending_research_outcome t now db1))))))"

subsection \<open>Lifecycle operations\<close>

definition get_lifecycle_operation :: "string \<Rightarrow> db \<Rightarrow> team_error + lifecycle_op" where
  "get_lifecycle_operation i db = opt_err (LifecycleOperationNotFound i) (row_of lo_id i (d_lops db))"

definition return_lop :: "string \<Rightarrow> db \<Rightarrow> team_error + (lifecycle_op \<times> db)" where
  "return_lop i db = ebind (get_lifecycle_operation i db) (\<lambda>r. Inr (r, db))"

text \<open>\<open>valid_json\<close> is \<open>serde_json\<close>: the error text of the payload, if it does not parse.\<close>

definition create_lifecycle_operation :: "(string \<Rightarrow> string option) \<Rightarrow> string \<Rightarrow> string
    \<Rightarrow> lifecycle_kind \<Rightarrow> string option \<Rightarrow> string option \<Rightarrow> string \<Rightarrow> string \<Rightarrow> nat \<Rightarrow> db
    \<Rightarrow> team_error + (lifecycle_op \<times> db)" where
  "create_lifecycle_operation json_error t project kind m c payload uuid now db =
    ebind (case json_error payload of None \<Rightarrow> Inr () | Some e \<Rightarrow> Inl (InvalidStoredValue e)) (\<lambda>_.
    ebind (opt_err ConstraintViolation (ins_lops
        \<lparr>lo_id = uuid, lo_team = t, lo_project = project, lo_kind = kind, lo_status = LsPending,
         lo_member = m, lo_conversation = c, lo_payload = payload, lo_attempts = 0,
         lo_next_attempt_at = None, lo_last_error = None, lo_created_at = now, lo_updated_at = now,
         lo_completed_at = None\<rparr> db)) (\<lambda>db1.
    return_lop uuid db1))"

definition list_lifecycle_operations :: "string \<Rightarrow> db \<Rightarrow> lifecycle_op list" where
  "list_lifecycle_operations t db =
    sort_key (\<lambda>p. (lo_created_at p, lo_id p)) (filter (\<lambda>p. lo_team p = t) (d_lops db))"

definition due :: "nat \<Rightarrow> lifecycle_op \<Rightarrow> bool" where
  "due now p \<longleftrightarrow> lo_kind p = LkProviderCleanup \<and> lo_status p \<in> {LsPending, LsRetryScheduled}
     \<and> (case lo_next_attempt_at p of None \<Rightarrow> True | Some at \<Rightarrow> at \<le> now)"

definition due_lifecycle_operations :: "nat \<Rightarrow> db \<Rightarrow> lifecycle_op list" where
  "due_lifecycle_operations now db =
    sort_key (\<lambda>p. (lo_created_at p, lo_id p)) (filter (due now) (d_lops db))"

definition update_lop_if :: "string \<Rightarrow> (lifecycle_op \<Rightarrow> bool) \<Rightarrow> (lifecycle_op \<Rightarrow> lifecycle_op) \<Rightarrow> db
    \<Rightarrow> team_error + (lifecycle_op \<times> db)" where
  "update_lop_if i C f db =
    ebind (guard (changed (\<lambda>p. lo_id p = i \<and> C p) (d_lops db) \<noteq> 0) (LifecycleOperationNotFound i)) (\<lambda>_.
    return_lop i (upd_lops (\<lambda>p. lo_id p = i \<and> C p) f db))"

definition mark_lifecycle_operation_running :: "string \<Rightarrow> nat \<Rightarrow> db \<Rightarrow> team_error + (lifecycle_op \<times> db)" where
  "mark_lifecycle_operation_running i now db =
    update_lop_if i (\<lambda>p. lo_status p \<in> {LsPending, LsRetryScheduled})
      (\<lambda>p. p\<lparr>lo_status := LsRunning, lo_attempts := lo_attempts p + 1, lo_next_attempt_at := None,
              lo_updated_at := now\<rparr>) db"

definition retry_delay :: "nat \<Rightarrow> nat option" where
  "retry_delay attempts =
    (if attempts \<le> 1 then Some 5 else if attempts = 2 then Some 30 else if attempts = 3 then Some (2 * 60)
     else if attempts = 4 then Some (10 * 60) else if attempts = 5 then Some (60 * 60) else None)"

definition failed_lop :: "nat option \<Rightarrow> string \<Rightarrow> nat \<Rightarrow> lifecycle_op \<Rightarrow> lifecycle_op" where
  "failed_lop delay err now p =
    p\<lparr>lo_status := (if delay = None then LsFailed else LsRetryScheduled),
      lo_next_attempt_at := map_option (\<lambda>d. now + d) delay,
      lo_last_error := Some (trim err), lo_updated_at := now\<rparr>"

definition mark_lifecycle_operation_failed :: "string \<Rightarrow> string \<Rightarrow> nat \<Rightarrow> db
    \<Rightarrow> team_error + (lifecycle_op \<times> db)" where
  "mark_lifecycle_operation_failed i err now db =
    ebind (get_lifecycle_operation i db) (\<lambda>p.
    return_lop i (upd_lops (\<lambda>q. lo_id q = i) (failed_lop (retry_delay (lo_attempts p)) err now) db))"

definition mark_lifecycle_operation_completed :: "string \<Rightarrow> nat \<Rightarrow> db \<Rightarrow> team_error + (lifecycle_op \<times> db)" where
  "mark_lifecycle_operation_completed i now db =
    update_lop_if i (\<lambda>_. True)
      (\<lambda>p. p\<lparr>lo_status := LsCompleted, lo_next_attempt_at := None, lo_last_error := None,
              lo_completed_at := Some now, lo_updated_at := now\<rparr>) db"

definition mark_lifecycle_operation_terminal_failure :: "string \<Rightarrow> string \<Rightarrow> nat \<Rightarrow> db
    \<Rightarrow> team_error + (lifecycle_op \<times> db)" where
  "mark_lifecycle_operation_terminal_failure i err now db =
    update_lop_if i (\<lambda>_. True)
      (\<lambda>p. p\<lparr>lo_status := LsFailed, lo_next_attempt_at := None, lo_last_error := Some (trim err),
              lo_updated_at := now\<rparr>) db"

definition retry_lifecycle_operation :: "string \<Rightarrow> nat \<Rightarrow> db \<Rightarrow> team_error + (lifecycle_op \<times> db)" where
  "retry_lifecycle_operation i now db =
    update_lop_if i (\<lambda>p. lo_status p = LsFailed)
      (\<lambda>p. p\<lparr>lo_status := LsPending, lo_attempts := 0, lo_next_attempt_at := None,
              lo_last_error := None, lo_completed_at := None, lo_updated_at := now\<rparr>) db"

subsection \<open>User input\<close>

definition get_user_input_request :: "string \<Rightarrow> db \<Rightarrow> team_error + user_input" where
  "get_user_input_request i db = opt_err (UserInputRequestNotFound i) (row_of ui_id i (d_inputs db))"

definition request_user_input :: "string \<Rightarrow> string \<Rightarrow> string \<Rightarrow> string \<Rightarrow> string \<Rightarrow> nat \<Rightarrow> db
    \<Rightarrow> team_error + (user_input \<times> db)" where
  "request_user_input t leader title prompt uuid now db =
    ebind (require_leader t leader db) (\<lambda>_.
    ebind (opt_err QueryReturnedNoRows (row_of tm_id t (d_teams db))) (\<lambda>team.
    ebind (guard (tm_status team \<in> {TmActive, TmVerifying}) InvalidTeamState) (\<lambda>_.
    ebind (opt_err ConstraintViolation (ins_inputs
        \<lparr>ui_id = uuid, ui_team = t, ui_requester = leader, ui_title = trim title, ui_prompt = trim prompt,
         ui_resume_status = tm_status team, ui_status = UiPending, ui_answer = None,
         ui_created_at = now, ui_resolved_at = None\<rparr> db)) (\<lambda>db1.
    let db2 = upd_teams (\<lambda>r. tm_id r = t) (set_status TmNeedsAttention now) db1 in
    ebind (get_user_input_request uuid db2) (\<lambda>r. Inr (r, db2))))))"

definition pending_user_input_requests :: "string \<Rightarrow> db \<Rightarrow> user_input list" where
  "pending_user_input_requests t db =
    sort_key (\<lambda>u. (ui_created_at u, ui_id u))
      (filter (\<lambda>u. ui_team u = t \<and> ui_status u = UiPending) (d_inputs db))"

definition resolve_user_input :: "string \<Rightarrow> string \<Rightarrow> string \<Rightarrow> nat \<Rightarrow> db
    \<Rightarrow> team_error + (user_input \<times> db)" where
  "resolve_user_input t i answer now db =
    (let P = (\<lambda>u. ui_id u = i \<and> ui_team u = t \<and> ui_status u = UiPending) in
     if changed P (d_inputs db) = 0
     then Inl (if list_ex (\<lambda>u. ui_id u = i \<and> ui_team u = t) (d_inputs db)
               then UserInputRequestNotPending else UserInputRequestNotFound i)
     else
       let db1 = upd_inputs P (\<lambda>u. u\<lparr>ui_status := UiResolved, ui_answer := Some (trim answer),
             ui_resolved_at := Some now\<rparr>) db in
       ebind (if count_where (\<lambda>u. ui_team u = t \<and> ui_status u = UiPending) (d_inputs db1) = 0
              then ebind (opt_err QueryReturnedNoRows (row_of ui_id i (d_inputs db1))) (\<lambda>u.
                   Inr (upd_teams (\<lambda>r. tm_id r = t \<and> tm_status r = TmNeedsAttention)
                     (set_status (ui_resume_status u) now) db1))
              else Inr db1) (\<lambda>db2.
       ebind (get_user_input_request i db2) (\<lambda>r. Inr (r, db2))))"

subsection \<open>Activity log\<close>

definition append_activity :: "string \<Rightarrow> string option \<Rightarrow> string option \<Rightarrow> string \<Rightarrow> string
    \<Rightarrow> string option \<Rightarrow> nat \<Rightarrow> db \<Rightarrow> team_error + (team_activity \<times> db)" where
  "append_activity t m k kind summary meta now db =
    ebind (get_team t db) (\<lambda>_.
    ebind (opt_err ConstraintViolation (ins_activity t m k kind (trim summary) meta now db)) (\<lambda>db1.
    ebind (opt_err QueryReturnedNoRows (row_of ac_id (d_activity_seq db1) (d_activity db1))) (\<lambda>a.
    Inr (a, db1))))"

definition list_activity :: "string \<Rightarrow> nat \<Rightarrow> db \<Rightarrow> team_activity list" where
  "list_activity t limit db =
    take (min (max limit 1) 200) (rev (sort_key ac_id (filter (\<lambda>a. ac_team a = t) (d_activity db))))"

subsection \<open>Start-up\<close>

text \<open>The statements \<open>TeamStore::from_database\<close> runs on the stored rows when the server starts.\<close>

definition boot_mode :: "db \<Rightarrow> team \<Rightarrow> team" where
  "boot_mode db r =
    r\<lparr>tm_requested_mode := (if tm_requested_mode r = Standard \<and> tm_mode r = Yolo \<and> tm_fallback r = None
                            then tm_mode r else tm_requested_mode r),
      tm_max_teammates := min 8 (max (tm_max_teammates r) (teammate_count (tm_id r) db))\<rparr>"

definition boot_lop :: "nat \<Rightarrow> lifecycle_op \<Rightarrow> lifecycle_op" where
  "boot_lop now p =
    p\<lparr>lo_status := (if lo_kind p = LkProviderCleanup then LsPending else LsFailed),
      lo_next_attempt_at := None,
      lo_last_error := (if lo_kind p = LkProviderCleanup then lo_last_error p
                        else Some ''operation interrupted by server restart''),
      lo_updated_at := now\<rparr>"

definition team_store_boot :: "nat \<Rightarrow> db \<Rightarrow> db" where
  "team_store_boot now db =
    (let db1 = upd_tasks (\<lambda>k. tk_status k = TkCancelled \<and> tk_required k) (\<lambda>k. k\<lparr>tk_required := False\<rparr>) db;
         db2 = upd_messages (\<lambda>x. (case ms_task x of None \<Rightarrow> False
                 | Some k \<Rightarrow> list_ex (\<lambda>t. tk_id t = k \<and> tk_status t = TkCancelled) (d_tasks db1)) \<and> undelivered x)
               (close_message DvCancelled now) db1;
         db3 = upd_permissions open_permission
               (\<lambda>p. p\<lparr>pr_status := PrCancelled, pr_resolved_at := Some now\<rparr>) db2;
         db4 = upd_teams (\<lambda>_. True) (boot_mode db3) db3 in
     upd_lops (\<lambda>p. lo_status p = LsRunning) (boot_lop now) db4)"

subsection \<open>The operations keep the schema\<close>

lemma return_team_Inr: "return_team t db = Inr (r, db') \<longleftrightarrow> db' = db \<and> get_team t db = Inr r"
  by (auto simp: return_team_def err_simps)

lemma return_lop_Inr: "return_lop i db = Inr (r, db') \<longleftrightarrow> db' = db \<and> get_lifecycle_operation i db = Inr r"
  by (auto simp: return_lop_def err_simps)

lemma update_team_if_Inr:
  "update_team_if e t C f db = Inr (r, db') \<Longrightarrow> db' = upd_teams (\<lambda>r. tm_id r = t \<and> C r) f db"
  by (auto simp: update_team_if_def err_simps return_team_Inr)

lemma update_lop_if_Inr:
  "update_lop_if i C f db = Inr (r, db') \<Longrightarrow> db' = upd_lops (\<lambda>p. lo_id p = i \<and> C p) f db"
  by (auto simp: update_lop_if_def err_simps return_lop_Inr)

lemma set_status_simps [simp]:
  "tm_id (set_status s now r) = tm_id r" "tm_status (set_status s now r) = s"
  "tm_leader (set_status s now r) = tm_leader r"
  "tm_max_teammates (set_status s now r) = tm_max_teammates r"
  "tm_max_parallel_runs (set_status s now r) = tm_max_parallel_runs r"
  "tm_max_review_rounds (set_status s now r) = tm_max_review_rounds r"
  "tm_current_round (set_status s now r) = tm_current_round r"
  by (simp_all add: set_status_def)

lemma schema_update_team_if:
  "update_team_if e t C f db = Inr (r, db') \<Longrightarrow> schema_ok db \<Longrightarrow> (\<And>r. tm_id (f r) = tm_id r) \<Longrightarrow> schema_ok db'"
  by (auto dest!: update_team_if_Inr intro: schema_upd_teams)

lemma schema_update_lop_if:
  "update_lop_if i C f db = Inr (r, db') \<Longrightarrow> schema_ok db \<Longrightarrow> (\<And>r. lo_id (f r) = lo_id r) \<Longrightarrow> schema_ok db'"
  by (auto dest!: update_lop_if_Inr intro: schema_upd_lops)

lemma schema_create_team:
  "create_team input u v now db = Inr (r, db') \<Longrightarrow> schema_ok db \<Longrightarrow> schema_ok db'"
  by (auto simp: create_team_def err_simps return_team_Inr intro: schema_intro)

lemmas status_op_defs = update_team_settings_def start_team_def activate_team_def pause_team_def
  resume_team_def mark_team_needs_attention_def downgrade_to_standard_def abort_start_def
  mark_team_disbanding_def

lemma schema_status_ops:
  "update_team_settings t p n now db = Inr (r, db') \<Longrightarrow> schema_ok db \<Longrightarrow> schema_ok db'"
  "start_team input now db = Inr (r, db') \<Longrightarrow> schema_ok db \<Longrightarrow> schema_ok db'"
  "activate_team t now db = Inr (r, db') \<Longrightarrow> schema_ok db \<Longrightarrow> schema_ok db'"
  "pause_team t now db = Inr (r, db') \<Longrightarrow> schema_ok db \<Longrightarrow> schema_ok db'"
  "resume_team t now db = Inr (r, db') \<Longrightarrow> schema_ok db \<Longrightarrow> schema_ok db'"
  "mark_team_needs_attention t now db = Inr (r, db') \<Longrightarrow> schema_ok db \<Longrightarrow> schema_ok db'"
  "downgrade_to_standard t a c reason now db = Inr (r, db') \<Longrightarrow> schema_ok db \<Longrightarrow> schema_ok db'"
  "abort_start t now db = Inr (r, db') \<Longrightarrow> schema_ok db \<Longrightarrow> schema_ok db'"
  "mark_team_disbanding t now db = Inr (r, db') \<Longrightarrow> schema_ok db \<Longrightarrow> schema_ok db'"
  by (auto simp: status_op_defs err_simps Let_def start_row_def elim!: schema_update_team_if
      split: if_split_asm)

lemma schema_outcomes [simp]: "schema_ok (db\<lparr>d_outcomes := xs\<rparr>) = schema_ok db"
  by (simp add: schema_defs)

lemma schema_record_pending_research_outcome [schema_intro]:
  "schema_ok db \<Longrightarrow> schema_ok (record_pending_research_outcome t now db)"
  by (auto simp: record_pending_research_outcome_def Let_def split: option.split
      intro!: schema_append_workspace_event)

lemma schema_complete_team:
  "complete_team t l s f now db = Inr (r, db') \<Longrightarrow> schema_ok db \<Longrightarrow> schema_ok db'"
  by (auto simp: complete_team_def err_simps Let_def return_team_Inr complete_row_def
      intro!: schema_record_pending_research_outcome schema_upd_teams)

lemma failed_lop_id [simp]: "lo_id (failed_lop delay err now p) = lo_id p"
  by (simp add: failed_lop_def)

lemma schema_lop_ops:
  "create_lifecycle_operation je t p kind m c pl u now db = Inr (s, db') \<Longrightarrow> schema_ok db \<Longrightarrow> schema_ok db'"
  "mark_lifecycle_operation_running i now db = Inr (s, db') \<Longrightarrow> schema_ok db \<Longrightarrow> schema_ok db'"
  "mark_lifecycle_operation_failed i e now db = Inr (s, db') \<Longrightarrow> schema_ok db \<Longrightarrow> schema_ok db'"
  "mark_lifecycle_operation_completed i now db = Inr (s, db') \<Longrightarrow> schema_ok db \<Longrightarrow> schema_ok db'"
  "mark_lifecycle_operation_terminal_failure i e now db = Inr (s, db') \<Longrightarrow> schema_ok db \<Longrightarrow> schema_ok db'"
  "retry_lifecycle_operation i now db = Inr (s, db') \<Longrightarrow> schema_ok db \<Longrightarrow> schema_ok db'"
  by (auto simp: create_lifecycle_operation_def mark_lifecycle_operation_running_def
      mark_lifecycle_operation_failed_def mark_lifecycle_operation_completed_def
      mark_lifecycle_operation_terminal_failure_def retry_lifecycle_operation_def
      err_simps Let_def return_lop_Inr elim!: schema_update_lop_if schema_ins_work_rows intro!: schema_upd_lops)

lemma schema_request_user_input:
  "request_user_input t l ti p u now db = Inr (r, db') \<Longrightarrow> schema_ok db \<Longrightarrow> schema_ok db'"
  by (auto simp: request_user_input_def err_simps Let_def elim!: schema_ins_work_rows
      intro!: schema_upd_teams)

lemma schema_resolve_user_input:
  "resolve_user_input t i a now db = Inr (r, db') \<Longrightarrow> schema_ok db \<Longrightarrow> schema_ok db'"
  by (auto simp: resolve_user_input_def err_simps Let_def intro!: schema_upd_teams schema_upd_inputs
      split: if_split_asm)

lemma schema_append_activity:
  "append_activity t m k kind s meta now db = Inr (r, db') \<Longrightarrow> schema_ok db \<Longrightarrow> schema_ok db'"
  by (auto simp: append_activity_def err_simps elim!: schema_ins_activity)

lemma schema_team_store_boot: "schema_ok db \<Longrightarrow> schema_ok (team_store_boot now db)"
  by (auto simp: team_store_boot_def Let_def boot_mode_def boot_lop_def
      intro!: schema_upd_lops schema_upd_teams schema_upd_permissions schema_upd_messages schema_upd_tasks)

lemmas lop_op_defs = create_lifecycle_operation_def mark_lifecycle_operation_running_def
  mark_lifecycle_operation_failed_def mark_lifecycle_operation_completed_def
  mark_lifecycle_operation_terminal_failure_def retry_lifecycle_operation_def

end
