(* ===== verification/TeamSystem.thy ===== *)
theory TeamSystem
  imports TeamLifecycle
begin

text \<open>
  The team store as one transition system: a step is a committed operation of the store, labelled
  by the operation, on the shared database.  Identifiers, clocks and texts are arbitrary.  The
  schema invariant, the mailbox invariant and the permission invariant are shown to hold in every
  reachable database.
\<close>

datatype team_op =
    CreateTeam | UpdateTeamSettings | StartTeam | ActivateTeam | PauseTeam | ResumeTeam
  | NeedsAttention | Downgrade | AbortStart | CompleteTeam | Disbanding | ApplyProfile
  | ClearProfile | SetMemberStatus | AddTeammate | AddDiscriminator | RemoveDiscriminators | RemoveTeammate
  | CreateTask | DelegateTask | ClaimTask | SubmitResult | SubmitPlan | ReviewPlan
  | ReviewResult | RetryTask | CancelTask | BindRun | FailAttempt | RequestDiscrimination
  | SubmitVerdict | SendMessage | CreatePermission | LeaderResolves | LeaderEscalates | UserResolves
  | CancelPermission | CreateProposal | ResolveProposal | CreateLifecycleOp | LifecycleRunning | LifecycleFailed
  | LifecycleCompleted | LifecycleTerminal | LifecycleRetry | RequestInput | ResolveInput | AppendActivity
  | NeedsReport | ReadMessages | RequeueExpired | MessageDelivered | MessageFailed | MessagesRead
  | Boot

inductive team_step :: "options_parser \<Rightarrow> team_op \<Rightarrow> db \<Rightarrow> db \<Rightarrow> bool" for parse where
  do_create_team: "create_team input u v now db = Inr (r, db') \<Longrightarrow> team_step parse CreateTeam db db'"
| do_update_team_settings: "update_team_settings t policy n now db = Inr (r, db') \<Longrightarrow> team_step parse UpdateTeamSettings db db'"
| do_start_team: "start_team sreq now db = Inr (r, db') \<Longrightarrow> team_step parse StartTeam db db'"
| do_activate_team: "activate_team t now db = Inr (r, db') \<Longrightarrow> team_step parse ActivateTeam db db'"
| do_pause_team: "pause_team t now db = Inr (r, db') \<Longrightarrow> team_step parse PauseTeam db db'"
| do_resume_team: "resume_team t now db = Inr (r, db') \<Longrightarrow> team_step parse ResumeTeam db db'"
| do_needs_attention: "mark_team_needs_attention t now db = Inr (r, db') \<Longrightarrow> team_step parse NeedsAttention db db'"
| do_downgrade: "downgrade_to_standard t agent code reason now db = Inr (r, db') \<Longrightarrow> team_step parse Downgrade db db'"
| do_abort_start: "abort_start t now db = Inr (r, db') \<Longrightarrow> team_step parse AbortStart db db'"
| do_complete_team: "complete_team t l summary fp now db = Inr (r, db') \<Longrightarrow> team_step parse CompleteTeam db db'"
| do_disbanding: "mark_team_disbanding t now db = Inr (r, db') \<Longrightarrow> team_step parse Disbanding db db'"
| do_apply_profile: "mark_permission_profile_applied m prev now db = Inr (mr, db') \<Longrightarrow> team_step parse ApplyProfile db db'"
| do_clear_profile: "clear_permission_profile m now db = Inr (mr, db') \<Longrightarrow> team_step parse ClearProfile db db'"
| do_set_member_status: "set_member_status m ms now db = Inr (mr, db') \<Longrightarrow> team_step parse SetMemberStatus db db'"
| do_add_teammate: "add_teammate mreq u now db = Inr (mr, db') \<Longrightarrow> team_step parse AddTeammate db db'"
| do_add_discriminator: "add_discriminator dreq u now db = Inr (mr, db') \<Longrightarrow> team_step parse AddDiscriminator db db'"
| do_remove_discriminators: "remove_discriminators t db = Inr (mrs, db') \<Longrightarrow> team_step parse RemoveDiscriminators db db'"
| do_remove_teammate: "remove_teammate t l m now db = Inr (un, db') \<Longrightarrow> team_step parse RemoveTeammate db db'"
| do_create_task: "create_task kreq u now db = Inr (tv, db') \<Longrightarrow> team_step parse CreateTask db db'"
| do_delegate_task: "delegate_task k l m u v now db = Inr (tv, db') \<Longrightarrow> team_step parse DelegateTask db db'"
| do_claim_task: "claim_task k m u now db = Inr (tv, db') \<Longrightarrow> team_step parse ClaimTask db db'"
| do_submit_result: "submit_result k m res ver u now db = Inr (tv, db') \<Longrightarrow> team_step parse SubmitResult db db'"
| do_submit_plan: "submit_plan k m plan now db = Inr (tv, db') \<Longrightarrow> team_step parse SubmitPlan db db'"
| do_review_plan: "review_plan k l acc fb now db = Inr (tv, db') \<Longrightarrow> team_step parse ReviewPlan db db'"
| do_review_result: "review_result k l acc fb u now db = Inr (tv, db') \<Longrightarrow> team_step parse ReviewResult db db'"
| do_retry_task: "retry_task k l now db = Inr (tv, db') \<Longrightarrow> team_step parse RetryTask db db'"
| do_cancel_task: "cancel_task k l why now db = Inr (tv, db') \<Longrightarrow> team_step parse CancelTask db db'"
| do_bind_run: "bind_task_attempt_run m run now db = Inr (ao, db') \<Longrightarrow> team_step parse BindRun db db'"
| do_fail_attempt: "fail_active_attempt m fkind err now db = Inr (ao, db') \<Longrightarrow> team_step parse FailAttempt db db'"
| do_request_discrimination: "request_discrimination t l d fp u now db = Inr (rr, db') \<Longrightarrow> team_step parse RequestDiscrimination db db'"
| do_submit_verdict: "submit_discrimination_verdict i d passed verdict ev now db = Inr (rr, db') \<Longrightarrow> team_step parse SubmitVerdict db db'"
| do_send_message: "send_message t f g kind task body u now db = Inr (msg, db') \<Longrightarrow> team_step parse SendMessage db db'"
| do_create_permission: "create_permission_request preq now db = Inr (pr, db') \<Longrightarrow> team_step parse CreatePermission db db'"
| do_leader_resolves: "resolve_permission_as_leader parse i l opt why now db = Inr (pr, db') \<Longrightarrow> team_step parse LeaderResolves db db'"
| do_leader_escalates: "escalate_permission parse i l why now db = Inr (pr, db') \<Longrightarrow> team_step parse LeaderEscalates db db'"
| do_user_resolves: "resolve_permission_as_user parse i opt now db = Inr (pro, db') \<Longrightarrow> team_step parse UserResolves db db'"
| do_cancel_permission: "cancel_permission_request i now db = Inr (pro, db') \<Longrightarrow> team_step parse CancelPermission db db'"
| do_create_proposal: "create_proposal t summary mj u now db = Inr (pp, db') \<Longrightarrow> team_step parse CreateProposal db db'"
| do_resolve_proposal: "resolve_proposal t i pst now db = Inr (pp, db') \<Longrightarrow> team_step parse ResolveProposal db db'"
| do_create_lifecycle_op: "create_lifecycle_operation je t proj lk mo co pl u now db = Inr (lop, db') \<Longrightarrow> team_step parse CreateLifecycleOp db db'"
| do_lifecycle_running: "mark_lifecycle_operation_running i now db = Inr (lop, db') \<Longrightarrow> team_step parse LifecycleRunning db db'"
| do_lifecycle_failed: "mark_lifecycle_operation_failed i err now db = Inr (lop, db') \<Longrightarrow> team_step parse LifecycleFailed db db'"
| do_lifecycle_completed: "mark_lifecycle_operation_completed i now db = Inr (lop, db') \<Longrightarrow> team_step parse LifecycleCompleted db db'"
| do_lifecycle_terminal: "mark_lifecycle_operation_terminal_failure i err now db = Inr (lop, db') \<Longrightarrow> team_step parse LifecycleTerminal db db'"
| do_lifecycle_retry: "retry_lifecycle_operation i now db = Inr (lop, db') \<Longrightarrow> team_step parse LifecycleRetry db db'"
| do_request_input: "request_user_input t l title prompt u now db = Inr (ui, db') \<Longrightarrow> team_step parse RequestInput db db'"
| do_resolve_input: "resolve_user_input t i ans now db = Inr (ui, db') \<Longrightarrow> team_step parse ResolveInput db db'"
| do_append_activity: "append_activity t mo ko akind summary meta now db = Inr (act, db') \<Longrightarrow> team_step parse AppendActivity db db'"
| do_needs_report: "team_step parse NeedsReport db (snd (mark_attempt_needs_report m now db))"
| do_read_messages: "team_step parse ReadMessages db (snd (read_messages m now db))"
| do_requeue_expired: "team_step parse RequeueExpired db (snd (requeue_expired_deliveries lease now db))"
| do_message_delivered: "team_step parse MessageDelivered db (mark_message_delivered i now db)"
| do_message_failed: "team_step parse MessageFailed db (mark_message_failed i err db)"
| do_messages_read: "team_step parse MessagesRead db (snd (mark_messages_read m now db))"
| do_boot: "team_step parse Boot db (team_store_boot now db)"

definition team_moves :: "options_parser \<Rightarrow> db \<Rightarrow> db \<Rightarrow> bool" where
  "team_moves parse db db' \<longleftrightarrow> (\<exists>op. team_step parse op db db')"

definition is_empty_db :: "db \<Rightarrow> bool" where
  "is_empty_db db \<longleftrightarrow> db = empty_db"

subsection \<open>Schema\<close>

lemmas schema_steps =
  schema_create_team schema_status_ops schema_complete_team schema_mark_permission_profile_applied
  schema_clear_permission_profile schema_set_member_status schema_add_teammate
  schema_add_discriminator schema_remove_discriminators schema_remove_teammate schema_create_task
  schema_delegate_task schema_claim_task schema_submit_result schema_submit_plan schema_review_plan
  schema_review_result schema_retry_task schema_cancel_task schema_bind_task_attempt_run
  schema_fail_active_attempt schema_request_discrimination schema_submit_discrimination_verdict
  schema_send_message schema_create_permission_request schema_update_permission_request
  schema_resolve_permission_as_user schema_cancel_permission_request schema_create_proposal
  schema_resolve_proposal schema_lop_ops schema_request_user_input schema_resolve_user_input
  schema_append_activity

lemmas schema_plain_steps =
  schema_mark_attempt_needs_report schema_read_messages schema_requeue_expired
  schema_mark_message_delivered schema_mark_message_failed schema_mark_messages_read
  schema_team_store_boot

lemma schema_step: "team_step parse op db db' \<Longrightarrow> schema_ok db \<Longrightarrow> schema_ok db'"
  by (induction rule: team_step.induct)
    (erule (1) schema_steps | simp add: schema_plain_steps
     | simp add: resolve_permission_as_leader_def escalate_permission_def schema_update_permission_request)+

subsection \<open>Frames\<close>

text \<open>Which operations leave a table as it is.\<close>

lemmas member_op_defs = mark_permission_profile_applied_def clear_permission_profile_def
  set_member_status_def add_teammate_def add_discriminator_def remove_discriminators_def
  remove_teammate_def

lemmas mailbox_op_defs = send_message_def read_messages_def requeue_expired_deliveries_def
  mark_message_delivered_def mark_message_failed_def mark_messages_read_def

lemmas permission_op_defs = create_permission_request_def resolve_permission_as_leader_def
  escalate_permission_def update_permission_request_def resolve_permission_as_user_def
  cancel_permission_request_def create_proposal_def resolve_proposal_def

lemmas team_op_defs = create_team_def complete_team_def request_user_input_def
  resolve_user_input_def append_activity_def team_store_boot_def

lemmas all_op_defs = member_op_defs mailbox_op_defs permission_op_defs team_op_defs task_op_defs
  lop_op_defs status_op_defs

lemma update_member_db:
  "update_member m f db = Inr (r, db') \<Longrightarrow> db' = upd_members (\<lambda>r. mb_id r = m) f db"
  by (auto simp: update_member_def err_simps Let_def)

lemma ins_all_frame:
  assumes "\<And>r db db'. ins r db = Some db' \<Longrightarrow> g db' = g db"
  shows "ins_all ins rs db = Some db' \<Longrightarrow> g db' = g db"
  by (induction rs arbitrary: db) (auto split: option.splits dest: assms)

lemmas return_Inr = return_task_Inr return_team_Inr return_lop_Inr

lemma ins_all_deps_frames:
  assumes "ins_all ins_deps rs db = Some db'"
  shows "d_messages db' = d_messages db" "d_tasks db' = d_tasks db" "d_members db' = d_members db"
    "d_teams db' = d_teams db" "d_permissions db' = d_permissions db" "d_attempts db' = d_attempts db"
    "d_paths db' = d_paths db" "d_rounds db' = d_rounds db" "d_inputs db' = d_inputs db"
    "d_lops db' = d_lops db" "d_experiments db' = d_experiments db" "d_waits db' = d_waits db"
    "d_envelopes db' = d_envelopes db" "d_envelope_revisions db' = d_envelope_revisions db"
    "d_events db' = d_events db" "d_decisions db' = d_decisions db"
    "d_questions db' = d_questions db" "d_research_rounds db' = d_research_rounds db"
  by (rule ins_all_frame [OF _ assms], force simp: ins_deps_def split: if_split_asm)+

lemma ins_all_paths_frames:
  assumes "ins_all ins_paths rs db = Some db'"
  shows "d_messages db' = d_messages db" "d_tasks db' = d_tasks db" "d_members db' = d_members db"
    "d_teams db' = d_teams db" "d_permissions db' = d_permissions db" "d_attempts db' = d_attempts db"
    "d_deps db' = d_deps db" "d_rounds db' = d_rounds db" "d_inputs db' = d_inputs db"
    "d_lops db' = d_lops db" "d_experiments db' = d_experiments db" "d_waits db' = d_waits db"
    "d_envelopes db' = d_envelopes db" "d_envelope_revisions db' = d_envelope_revisions db"
    "d_events db' = d_events db" "d_decisions db' = d_decisions db"
    "d_questions db' = d_questions db" "d_research_rounds db' = d_research_rounds db"
  by (rule ins_all_frame [OF _ assms], force simp: ins_paths_def split: if_split_asm)+

lemma outcome_frames [simp]:
  "d_messages (record_pending_research_outcome t now db) = d_messages db"
  "d_tasks (record_pending_research_outcome t now db) = d_tasks db"
  "d_members (record_pending_research_outcome t now db) = d_members db"
  "d_teams (record_pending_research_outcome t now db) = d_teams db"
  "d_permissions (record_pending_research_outcome t now db) = d_permissions db"
  "d_attempts (record_pending_research_outcome t now db) = d_attempts db"
  "d_deps (record_pending_research_outcome t now db) = d_deps db"
  "d_rounds (record_pending_research_outcome t now db) = d_rounds db"
  "d_inputs (record_pending_research_outcome t now db) = d_inputs db"
  "d_lops (record_pending_research_outcome t now db) = d_lops db"
  "d_experiments (record_pending_research_outcome t now db) = d_experiments db"
  "d_waits (record_pending_research_outcome t now db) = d_waits db"
  "d_envelopes (record_pending_research_outcome t now db) = d_envelopes db"
  "d_envelope_revisions (record_pending_research_outcome t now db) = d_envelope_revisions db"
  "d_events (record_pending_research_outcome t now db) = d_events db"
  "d_decisions (record_pending_research_outcome t now db) = d_decisions db"
  "d_questions (record_pending_research_outcome t now db) = d_questions db"
  "d_research_rounds (record_pending_research_outcome t now db) = d_research_rounds db"
  by (simp_all add: record_pending_research_outcome_def Let_def split: option.split)

definition messages_ops :: "team_op set" where
  "messages_ops = {SendMessage, ReadMessages, RequeueExpired, MessageDelivered, MessageFailed,
     MessagesRead, DelegateTask, SubmitResult, ReviewResult, CancelTask, RemoveTeammate,
     Boot}"

definition tasks_ops :: "team_op set" where
  "tasks_ops = {CreateTask, DelegateTask, ClaimTask, SubmitResult, SubmitPlan, ReviewPlan, ReviewResult,
     RetryTask, CancelTask, FailAttempt, RemoveTeammate, Boot}"

definition members_ops :: "team_op set" where
  "members_ops = {CreateTeam, ApplyProfile, ClearProfile, SetMemberStatus, AddTeammate, AddDiscriminator,
     RemoveDiscriminators, RemoveTeammate}"

definition teams_ops :: "team_op set" where
  "teams_ops = {CreateTeam, UpdateTeamSettings, StartTeam, ActivateTeam, PauseTeam, ResumeTeam,
     NeedsAttention, Downgrade, AbortStart, Disbanding, CompleteTeam, RemoveTeammate,
     DelegateTask, CancelTask, RequestDiscrimination, SubmitVerdict, RequestInput,
     ResolveInput, Boot}"

definition deps_ops :: "team_op set" where
  "deps_ops = {CreateTask}"

definition attempts_ops :: "team_op set" where
  "attempts_ops = {DelegateTask, ClaimTask, SubmitResult, ReviewResult, CancelTask, BindRun, FailAttempt,
     NeedsReport, AddDiscriminator, RemoveDiscriminators, RemoveTeammate}"

definition permissions_ops :: "team_op set" where
  "permissions_ops = {CreatePermission, LeaderResolves, LeaderEscalates, UserResolves, CancelPermission,
     AddDiscriminator, RemoveDiscriminators, RemoveTeammate, Boot}"

definition rounds_ops :: "team_op set" where
  "rounds_ops = {RequestDiscrimination, SubmitVerdict, AddDiscriminator, RemoveDiscriminators,
     RemoveTeammate}"

definition inputs_ops :: "team_op set" where
  "inputs_ops = {RequestInput, ResolveInput, AddDiscriminator, RemoveDiscriminators, RemoveTeammate}"

definition lops_ops :: "team_op set" where
  "lops_ops = {CreateLifecycleOp, LifecycleRunning, LifecycleFailed, LifecycleCompleted,
     LifecycleTerminal, LifecycleRetry, Boot}"

lemmas op_sets = messages_ops_def tasks_ops_def members_ops_def teams_ops_def deps_ops_def attempts_ops_def permissions_ops_def rounds_ops_def inputs_ops_def lops_ops_def

lemma frames:
  "team_step parse op db db' \<Longrightarrow>
   (op \<notin> messages_ops \<longrightarrow> d_messages db' = d_messages db) \<and>
   (op \<notin> tasks_ops \<longrightarrow> d_tasks db' = d_tasks db) \<and>
   (op \<notin> members_ops \<longrightarrow> d_members db' = d_members db) \<and>
   (op \<notin> teams_ops \<longrightarrow> d_teams db' = d_teams db) \<and>
   (op \<notin> deps_ops \<longrightarrow> d_deps db' = d_deps db) \<and>
   (op \<notin> attempts_ops \<longrightarrow> d_attempts db' = d_attempts db) \<and>
   (op \<notin> permissions_ops \<longrightarrow> d_permissions db' = d_permissions db) \<and>
   (op \<notin> rounds_ops \<longrightarrow> d_rounds db' = d_rounds db) \<and>
   (op \<notin> inputs_ops \<longrightarrow> d_inputs db' = d_inputs db) \<and>
   (op \<notin> lops_ops \<longrightarrow> d_lops db' = d_lops db) \<and>
   d_experiments db' = d_experiments db \<and> d_waits db' = d_waits db"
  by (induction rule: team_step.induct)
    ((auto simp: op_sets all_op_defs err_simps return_Inr Let_def ins_defs upd_latest_attempt_def
      changes_message_def unblock_dependents_def ack_results_def touch_team_def
      ins_all_deps_frames ins_all_paths_frames
      split: if_split_asm option.splits
      dest!: update_member_db update_team_if_Inr update_lop_if_Inr) [1])+

lemma exec_frames:
  "team_step parse op db db' \<Longrightarrow>
   d_envelopes db' = d_envelopes db \<and> d_envelope_revisions db' = d_envelope_revisions db \<and>
   d_events db' = d_events db \<and> d_decisions db' = d_decisions db \<and>
   d_questions db' = d_questions db \<and> d_research_rounds db' = d_research_rounds db"
  by (induction rule: team_step.induct)
    ((auto simp: all_op_defs err_simps return_Inr Let_def ins_defs upd_latest_attempt_def
      changes_message_def unblock_dependents_def ack_results_def touch_team_def
      ins_all_deps_frames ins_all_paths_frames
      split: if_split_asm option.splits
      dest!: update_member_db update_team_if_Inr update_lop_if_Inr) [1])+

lemma frame_messages: "team_step parse op db db' \<Longrightarrow> op \<notin> messages_ops \<Longrightarrow> d_messages db' = d_messages db"
  using frames by blast

lemma frame_tasks: "team_step parse op db db' \<Longrightarrow> op \<notin> tasks_ops \<Longrightarrow> d_tasks db' = d_tasks db"
  using frames by blast

lemma frame_members: "team_step parse op db db' \<Longrightarrow> op \<notin> members_ops \<Longrightarrow> d_members db' = d_members db"
  using frames by blast

lemma frame_teams: "team_step parse op db db' \<Longrightarrow> op \<notin> teams_ops \<Longrightarrow> d_teams db' = d_teams db"
  using frames by blast

lemma frame_deps: "team_step parse op db db' \<Longrightarrow> op \<notin> deps_ops \<Longrightarrow> d_deps db' = d_deps db"
  using frames by blast

lemma frame_attempts: "team_step parse op db db' \<Longrightarrow> op \<notin> attempts_ops \<Longrightarrow> d_attempts db' = d_attempts db"
  using frames by blast

lemma frame_permissions: "team_step parse op db db' \<Longrightarrow> op \<notin> permissions_ops \<Longrightarrow> d_permissions db' = d_permissions db"
  using frames by blast

lemma frame_rounds: "team_step parse op db db' \<Longrightarrow> op \<notin> rounds_ops \<Longrightarrow> d_rounds db' = d_rounds db"
  using frames by blast

lemma frame_inputs: "team_step parse op db db' \<Longrightarrow> op \<notin> inputs_ops \<Longrightarrow> d_inputs db' = d_inputs db"
  using frames by blast

lemma frame_lops: "team_step parse op db db' \<Longrightarrow> op \<notin> lops_ops \<Longrightarrow> d_lops db' = d_lops db"
  using frames by blast

end
