(* ===== verification/TeamInvariants.thy ===== *)
theory TeamInvariants
  imports TeamSystem
begin

text \<open>
  Invariants of the reachable databases of the team store: the mailbox, the permission requests,
  the roster (one leader per team, at most eight teammates, settings in range), the task machine
  and the references between rows of one team.
\<close>

subsection \<open>Mailbox\<close>

lemma mailbox_ok_cong: "d_messages db' = d_messages db \<Longrightarrow> mailbox_ok db' = mailbox_ok db"
  by (simp add: mailbox_ok_def)

lemma message_ok_new [simp]: "message_ok (new_message_row i t f g k task b now)"
  by (simp add: message_ok_def delivery_final_def)

lemma message_ok_closed [simp]: "message_ok (close_message s now x)"
  by (simp add: message_ok_def)

lemma mailbox_ok_put [simp]: "mailbox_ok (put_messages r db) \<longleftrightarrow> mailbox_ok db \<and> message_ok r"
  by (auto simp: mailbox_ok_def)

lemma mailbox_ok_close: "mailbox_ok db \<Longrightarrow> mailbox_ok (upd_messages P (close_message s now) db)"
  by (rule mailbox_ok_upd) simp_all

lemma mailbox_ok_del: "mailbox_ok db \<Longrightarrow> mailbox_ok (del_messages P db)"
  by (simp add: mailbox_ok_def set_delete_where)

lemma mailbox_ok_frames [simp]:
  "mailbox_ok (upd_tasks P f db) = mailbox_ok db"
  "mailbox_ok (upd_attempts A g db) = mailbox_ok db"
  "mailbox_ok (upd_latest_attempt A g db) = mailbox_ok db"
  "mailbox_ok (upd_members Q h db) = mailbox_ok db"
  "mailbox_ok (upd_teams R j db) = mailbox_ok db"
  "mailbox_ok (upd_permissions S u db) = mailbox_ok db"
  "mailbox_ok (upd_lops T v db) = mailbox_ok db"
  "mailbox_ok (put_attempts a db) = mailbox_ok db"
  "mailbox_ok (put_activity t m ko kind summary meta now db) = mailbox_ok db"
  "mailbox_ok (drop_members Q db) = mailbox_ok db"
  "mailbox_ok (touch_team t now db) = mailbox_ok db"
  "mailbox_ok (unblock_dependents k now db) = mailbox_ok db"
  by (simp_all add: mailbox_ok_def upd_latest_attempt_def touch_team_def unblock_dependents_def)

lemma mailbox_task_ops:
  "delegate_task k l m u v now db = Inr (tv, db') \<Longrightarrow> mailbox_ok db \<Longrightarrow> mailbox_ok db'"
  "submit_result k m res ver u now db = Inr (tv, db') \<Longrightarrow> mailbox_ok db \<Longrightarrow> mailbox_ok db'"
  "review_result k l acc fb u now db = Inr (tv, db') \<Longrightarrow> mailbox_ok db \<Longrightarrow> mailbox_ok db'"
  "cancel_task k l why now db = Inr (tv, db') \<Longrightarrow> mailbox_ok db \<Longrightarrow> mailbox_ok db'"
  "remove_teammate t l m now db = Inr (un, db') \<Longrightarrow> mailbox_ok db \<Longrightarrow> mailbox_ok db'"
  by ((auto simp: delegate_task_def submit_result_def review_result_def cancel_task_def
      remove_teammate_def err_simps return_Inr Let_def ins_defs changes_message_def ack_results_def
      intro!: mailbox_ok_close mailbox_ok_del split: if_split_asm option.splits) [1])+

lemma mailbox_boot: "mailbox_ok db \<Longrightarrow> mailbox_ok (team_store_boot now db)"
  by (simp add: team_store_boot_def Let_def mailbox_ok_close)

lemma mailbox_step:
  assumes "team_step parse op db db'" "mailbox_ok db"
  shows "mailbox_ok db'"
proof (cases "op \<in> messages_ops")
  case False
  then show ?thesis using assms(2) mailbox_ok_cong [OF frame_messages [OF assms(1) False]] by blast
next
  case True
  show ?thesis using assms(1) True assms(2)
    by (induction rule: team_step.induct)
      (simp_all add: messages_ops_def mailbox_task_ops mailbox_boot send_message_step
        read_messages_step requeue_expired_step mark_message_delivered_step mark_message_failed_step
        mark_messages_read_step)
qed

subsection \<open>Permissions\<close>

lemma permissions_ok_cong: "d_permissions db' = d_permissions db \<Longrightarrow> permissions_ok parse db' = permissions_ok parse db"
  by (simp add: permissions_ok_def)

lemma permission_ok_decided [simp]:
  "permission_ok parse (p\<lparr>pr_decided_by_member := x\<rparr>) = permission_ok parse p"
  by (simp add: permission_ok_def validate_permission_option_def)

lemma permissions_ok_drop: "permissions_ok parse db \<Longrightarrow> permissions_ok parse (drop_members P db)"
  by (auto simp: permissions_ok_def drop_members_def Let_def set_delete_where)

lemma permissions_ok_del_members: "del_members P db = Some db' \<Longrightarrow> permissions_ok parse db \<Longrightarrow> permissions_ok parse db'"
  by (auto simp: del_members_def permissions_ok_drop split: if_split_asm)

lemma permissions_ok_frames [simp]:
  "permissions_ok parse (upd_members Q h db) = permissions_ok parse db"
  "permissions_ok parse (upd_tasks R j db) = permissions_ok parse db"
  "permissions_ok parse (upd_teams S u db) = permissions_ok parse db"
  "permissions_ok parse (del_messages T db) = permissions_ok parse db"
  "permissions_ok parse (put_members r db) = permissions_ok parse db"
  by (simp_all add: permissions_ok_def)

lemma permissions_member_ops:
  "add_discriminator dreq u now db = Inr (mr, db') \<Longrightarrow> permissions_ok parse db \<Longrightarrow> permissions_ok parse db'"
  "remove_discriminators t db = Inr (mrs, db') \<Longrightarrow> permissions_ok parse db \<Longrightarrow> permissions_ok parse db'"
  "remove_teammate t l m now db = Inr (un, db') \<Longrightarrow> permissions_ok parse db \<Longrightarrow> permissions_ok parse db'"
  by ((auto simp: add_discriminator_def remove_discriminators_def remove_teammate_def err_simps Let_def
      ins_members_def dest!: permissions_ok_del_members split: if_split_asm) [1])+

lemma permissions_boot: "permissions_ok parse db \<Longrightarrow> permissions_ok parse (team_store_boot now db)"
  by (auto simp: team_store_boot_def Let_def permissions_ok_def ball_update_where permission_ok_def
      permission_final_def)

lemma permissions_step:
  assumes "team_step parse op db db'" "permissions_ok parse db" "schema_ok db"
  shows "permissions_ok parse db'"
proof (cases "op \<in> permissions_ops")
  case False
  then show ?thesis using assms(2) permissions_ok_cong [OF frame_permissions [OF assms(1) False]] by blast
next
  case True
  show ?thesis using assms(1) True assms(2,3)
    by (induction rule: team_step.induct)
      (simp_all add: permissions_ops_def permissions_boot permissions_member_ops
        permissions_ok_create permissions_ok_user permissions_ok_cancel permissions_ok_update
        resolve_permission_as_leader_def escalate_permission_def)
qed

subsection \<open>Roster\<close>

text \<open>
  The settings of a team stay in the ranges \<open>start_team\<close> checks, the review rounds never exceed
  their budget, a team has exactly its leader in the leader role, and at most eight teammates.
\<close>

definition team_limits :: "team \<Rightarrow> bool" where
  "team_limits r \<longleftrightarrow>
    1 \<le> tm_max_parallel_runs r \<and> tm_max_parallel_runs r \<le> MAX_TEAMMATES \<and>
    1 \<le> tm_max_teammates r \<and> tm_max_teammates r \<le> MAX_TEAMMATES \<and>
    1 \<le> tm_max_review_rounds r \<and> tm_max_review_rounds r \<le> 10 \<and>
    tm_current_round r \<le> tm_max_review_rounds r"

definition limits_ok :: "db \<Rightarrow> bool" where
  "limits_ok db \<longleftrightarrow> (\<forall>r\<in>set (d_teams db). team_limits r)"

definition leaders_ok :: "db \<Rightarrow> bool" where
  "leaders_ok db \<longleftrightarrow>
    (\<forall>t\<in>set (d_teams db). \<exists>m\<in>set (d_members db). mb_id m = tm_leader t \<and> mb_team m = tm_id t \<and> mb_role m = Leader) \<and>
    (\<forall>m\<in>set (d_members db). mb_role m = Leader \<longrightarrow>
       (\<forall>t\<in>set (d_teams db). tm_id t = mb_team m \<longrightarrow> tm_leader t = mb_id m))"

definition teammates_ok :: "db \<Rightarrow> bool" where
  "teammates_ok db \<longleftrightarrow> (\<forall>t. teammate_count t db \<le> MAX_TEAMMATES)"

lemma limits_ok_upd:
  assumes "limits_ok db" "\<And>r. r \<in> set (d_teams db) \<Longrightarrow> P r \<Longrightarrow> team_limits r \<Longrightarrow> team_limits (f r)"
  shows "limits_ok (upd_teams P f db)"
  using assms by (auto simp: limits_ok_def ball_update_where)

lemma limits_ok_frames [simp]:
  "limits_ok (record_pending_research_outcome t now db) = limits_ok db"
  "limits_ok (put_messages ms db) = limits_ok db" "limits_ok (put_attempts at db) = limits_ok db"
  "limits_ok (put_activity t m ko kind summary meta now db) = limits_ok db"
  "limits_ok (put_inputs ui db) = limits_ok db" "limits_ok (put_rounds rd db) = limits_ok db"
  "limits_ok (put_members mb db) = limits_ok db"
  "limits_ok (upd_tasks Q g db) = limits_ok db" "limits_ok (upd_attempts A h db) = limits_ok db"
  "limits_ok (upd_messages R j db) = limits_ok db" "limits_ok (upd_members S u db) = limits_ok db"
  "limits_ok (upd_inputs T v db) = limits_ok db" "limits_ok (upd_rounds U w db) = limits_ok db"
  "limits_ok (upd_permissions V x db) = limits_ok db" "limits_ok (upd_lops W y db) = limits_ok db"
  "limits_ok (drop_members S db) = limits_ok db" "limits_ok (del_messages R db) = limits_ok db"
  by (simp_all add: limits_ok_def)

lemma team_limits_status [simp]: "team_limits (set_status s now r) = team_limits r"
  by (simp add: team_limits_def)

lemma team_limits_updated [simp]: "team_limits (r\<lparr>tm_updated_at := now\<rparr>) = team_limits r"
  by (simp add: team_limits_def)

lemma team_limits_start:
  assumes "startable input db r" "1 \<le> st_max_teammates input" "st_max_teammates input \<le> MAX_TEAMMATES"
    "1 \<le> st_max_parallel_runs input" "st_max_parallel_runs input \<le> st_max_teammates input"
    "1 \<le> st_max_review_rounds input" "st_max_review_rounds input \<le> 10"
  shows "team_limits (start_row input cs as now r)"
  using assms by (auto simp: team_limits_def start_row_def startable_def)

lemma limits_status_ops:
  "update_team_settings t p n now db = Inr (r, db') \<Longrightarrow> limits_ok db \<Longrightarrow> limits_ok db'"
  "start_team input now db = Inr (r, db') \<Longrightarrow> limits_ok db \<Longrightarrow> limits_ok db'"
  "activate_team t now db = Inr (r, db') \<Longrightarrow> limits_ok db \<Longrightarrow> limits_ok db'"
  "pause_team t now db = Inr (r, db') \<Longrightarrow> limits_ok db \<Longrightarrow> limits_ok db'"
  "resume_team t now db = Inr (r, db') \<Longrightarrow> limits_ok db \<Longrightarrow> limits_ok db'"
  "mark_team_needs_attention t now db = Inr (r, db') \<Longrightarrow> limits_ok db \<Longrightarrow> limits_ok db'"
  "downgrade_to_standard t a c reason now db = Inr (r, db') \<Longrightarrow> limits_ok db \<Longrightarrow> limits_ok db'"
  "abort_start t now db = Inr (r, db') \<Longrightarrow> limits_ok db \<Longrightarrow> limits_ok db'"
  "mark_team_disbanding t now db = Inr (r, db') \<Longrightarrow> limits_ok db \<Longrightarrow> limits_ok db'"
  by ((auto simp: status_op_defs err_simps Let_def split: if_split_asm dest!: update_team_if_Inr
      intro!: limits_ok_upd team_limits_start; simp add: team_limits_def) [1])+

lemma limits_other_ops:
  "create_team i u v now db = Inr (r, db') \<Longrightarrow> limits_ok db \<Longrightarrow> limits_ok db'"
  "complete_team t l s fp now db = Inr (r, db') \<Longrightarrow> limits_ok db \<Longrightarrow> limits_ok db'"
  "remove_teammate t l m now db = Inr (un, db') \<Longrightarrow> limits_ok db \<Longrightarrow> limits_ok db'"
  "delegate_task k l m u v now db = Inr (tv, db') \<Longrightarrow> limits_ok db \<Longrightarrow> limits_ok db'"
  "cancel_task k l why now db = Inr (tv, db') \<Longrightarrow> limits_ok db \<Longrightarrow> limits_ok db'"
  "submit_discrimination_verdict i' d p ve ev now db = Inr (rr, db') \<Longrightarrow> limits_ok db \<Longrightarrow> limits_ok db'"
  "request_user_input t l ti pr u now db = Inr (ui, db') \<Longrightarrow> limits_ok db \<Longrightarrow> limits_ok db'"
  "resolve_user_input t i' an now db = Inr (ui, db') \<Longrightarrow> limits_ok db \<Longrightarrow> limits_ok db'"
  by ((auto simp: team_op_defs task_op_defs member_op_defs touch_team_def err_simps Let_def ins_defs return_Inr
      split: if_split_asm intro!: limits_ok_upd;
      (simp add: team_limits_def complete_row_def new_team_row_def limits_ok_def MAX_TEAMMATES_def; fail)?) [1])+

lemma limits_request_discrimination:
  assumes "request_discrimination t l d fp u now db = Inr (rr, db')" "limits_ok db" "schema_ok db"
  shows "limits_ok db'"
proof -
  obtain team where team: "row_of tm_id t (d_teams db) = Some team"
    "tm_current_round team < tm_max_review_rounds team"
    and db': "\<exists>row. db' = upd_teams (\<lambda>r. tm_id r = t) (\<lambda>r. r\<lparr>tm_status := TmVerifying,
        tm_current_round := tm_current_round team + 1, tm_fingerprint := Some fp, tm_updated_at := now\<rparr>)
        (put_rounds row db)"
    using assms(1)
    by (auto simp: request_discrimination_def discrimination_budget_def err_simps Let_def ins_defs
        split: if_split_asm)
  have "r = team" if "r \<in> set (d_teams db)" "tm_id r = t" for r
    using that row_of_SomeD [OF team(1)] assms(3) by (auto simp: schema_defs dest: unique_key_eqD)
  then show ?thesis
    using db' team(2) assms(2) by (auto intro!: limits_ok_upd simp: team_limits_def)
qed

lemma limits_boot: "limits_ok db \<Longrightarrow> limits_ok (team_store_boot now db)"
  by (auto simp: team_store_boot_def Let_def boot_mode_def team_limits_def MAX_TEAMMATES_def
      intro!: limits_ok_upd)

lemma limits_ok_cong: "d_teams db' = d_teams db \<Longrightarrow> limits_ok db' = limits_ok db"
  by (simp add: limits_ok_def)

lemma limits_step:
  assumes "team_step parse op db db'" "limits_ok db" "schema_ok db"
  shows "limits_ok db'"
proof (cases "op \<in> teams_ops")
  case False
  then show ?thesis using assms(2) limits_ok_cong [OF frame_teams [OF assms(1) False]] by blast
next
  case True
  show ?thesis using assms(1) True assms(2,3)
    by (induction rule: team_step.induct)
      (simp_all add: teams_ops_def limits_status_ops limits_other_ops limits_request_discrimination limits_boot)
qed

lemma leaders_ok_upd_teams:
  assumes "leaders_ok db" "\<And>r. tm_id (f r) = tm_id r" "\<And>r. tm_leader (f r) = tm_leader r"
  shows "leaders_ok (upd_teams P f db)"
  using assms by (auto simp: leaders_ok_def ball_update_where)

lemma bex_update_where:
  "(\<exists>r\<in>set (update_where P f rows). Q r) \<longleftrightarrow> (\<exists>r\<in>set rows. if P r then Q (f r) else Q r)"
  by (auto simp: update_where_def)

lemma leaders_ok_upd_members:
  assumes "leaders_ok db" "\<And>r. mb_id (f r) = mb_id r" "\<And>r. mb_team (f r) = mb_team r"
    "\<And>r. mb_role (f r) = mb_role r"
  shows "leaders_ok (upd_members P f db)"
  using assms(1) by (simp add: leaders_ok_def ball_update_where bex_update_where assms(2-4) cong: conj_cong)

lemma leaders_ok_drop_members:
  assumes "leaders_ok db" "\<And>m. m \<in> set (d_members db) \<Longrightarrow> P m \<Longrightarrow> mb_role m \<noteq> Leader"
  shows "leaders_ok (drop_members P db)"
  using assms unfolding leaders_ok_def by (fastforce simp: set_delete_where)

lemma leaders_ok_put_members:
  assumes "leaders_ok db" "mb_role r \<noteq> Leader"
  shows "leaders_ok (put_members r db)"
  using assms unfolding leaders_ok_def by auto

lemma leaders_ok_cong:
  "d_teams db' = d_teams db \<Longrightarrow> d_members db' = d_members db \<Longrightarrow> leaders_ok db' = leaders_ok db"
  by (simp add: leaders_ok_def)

lemma leaders_ok_frames [simp]:
  "leaders_ok (record_pending_research_outcome t now db) = leaders_ok db"
  "leaders_ok (put_messages ms db) = leaders_ok db" "leaders_ok (put_attempts at db) = leaders_ok db"
  "leaders_ok (put_activity t m ko kind summary meta now db) = leaders_ok db"
  "leaders_ok (put_inputs ui db) = leaders_ok db" "leaders_ok (put_rounds rd db) = leaders_ok db"
  "leaders_ok (upd_tasks Q g db) = leaders_ok db" "leaders_ok (upd_attempts A h db) = leaders_ok db"
  "leaders_ok (upd_messages R j db) = leaders_ok db"
  "leaders_ok (upd_inputs T v db) = leaders_ok db" "leaders_ok (upd_rounds U w db) = leaders_ok db"
  "leaders_ok (upd_permissions V x db) = leaders_ok db" "leaders_ok (upd_lops W y db) = leaders_ok db"
  "leaders_ok (del_messages R db) = leaders_ok db"
  by (rule leaders_ok_cong; simp)+

lemma leaders_status_ops:
  "update_team_settings t p n now db = Inr (r, db') \<Longrightarrow> leaders_ok db \<Longrightarrow> leaders_ok db'"
  "start_team input now db = Inr (r, db') \<Longrightarrow> leaders_ok db \<Longrightarrow> leaders_ok db'"
  "activate_team t now db = Inr (r, db') \<Longrightarrow> leaders_ok db \<Longrightarrow> leaders_ok db'"
  "pause_team t now db = Inr (r, db') \<Longrightarrow> leaders_ok db \<Longrightarrow> leaders_ok db'"
  "resume_team t now db = Inr (r, db') \<Longrightarrow> leaders_ok db \<Longrightarrow> leaders_ok db'"
  "mark_team_needs_attention t now db = Inr (r, db') \<Longrightarrow> leaders_ok db \<Longrightarrow> leaders_ok db'"
  "downgrade_to_standard t a c reason now db = Inr (r, db') \<Longrightarrow> leaders_ok db \<Longrightarrow> leaders_ok db'"
  "abort_start t now db = Inr (r, db') \<Longrightarrow> leaders_ok db \<Longrightarrow> leaders_ok db'"
  "mark_team_disbanding t now db = Inr (r, db') \<Longrightarrow> leaders_ok db \<Longrightarrow> leaders_ok db'"
  by ((auto simp: status_op_defs err_simps Let_def split: if_split_asm dest!: update_team_if_Inr
      intro!: leaders_ok_upd_teams; simp add: start_row_def) [1])+

lemma leaders_other_ops:
  "complete_team t l s fp now db = Inr (r, db') \<Longrightarrow> leaders_ok db \<Longrightarrow> leaders_ok db'"
  "delegate_task k l m u v now db = Inr (tv, db') \<Longrightarrow> leaders_ok db \<Longrightarrow> leaders_ok db'"
  "cancel_task k l why now db = Inr (tv, db') \<Longrightarrow> leaders_ok db \<Longrightarrow> leaders_ok db'"
  "request_discrimination t l d fp u now db = Inr (rr, db') \<Longrightarrow> leaders_ok db \<Longrightarrow> leaders_ok db'"
  "submit_discrimination_verdict i' d pa ve ev now db = Inr (rr, db') \<Longrightarrow> leaders_ok db \<Longrightarrow> leaders_ok db'"
  "request_user_input t l ti pr u now db = Inr (ui, db') \<Longrightarrow> leaders_ok db \<Longrightarrow> leaders_ok db'"
  "resolve_user_input t i' an now db = Inr (ui, db') \<Longrightarrow> leaders_ok db \<Longrightarrow> leaders_ok db'"
  by ((auto simp: team_op_defs task_op_defs touch_team_def err_simps Let_def ins_defs return_Inr
      split: if_split_asm intro!: leaders_ok_upd_teams;
      (simp add: complete_row_def; fail)?) [1])+

lemma leaders_create_team:
  assumes "create_team input u v now db = Inr (r, db')" "leaders_ok db" "schema_ok db"
  shows "leaders_ok db'"
proof -
  let ?t = "new_team_row input u v now"
  let ?m = "new_member_row v u (nt_conversation input) (normalized_name (nt_leader_name input))
      Leader MbIdle MwShared None now"
  have db': "db' = put_members ?m (put_teams ?t db)" and fresh: "\<not> has_key tm_id u (d_teams db)"
    using assms(1)
    by (auto simp: create_team_def err_simps ins_defs return_Inr new_team_row_def new_member_row_def
        split: if_split_asm)
  have "mb_team m \<noteq> u" if "m \<in> set (d_members db)" for m
    using that assms(3) fresh by (auto simp: schema_defs)
  moreover have "tm_id t \<noteq> u" if "t \<in> set (d_teams db)" for t
    using that fresh by (auto simp: has_key_iff)
  ultimately show ?thesis
    using assms(2) unfolding db' leaders_ok_def by (auto simp: new_team_row_def new_member_row_def)
qed

lemma leaders_member_ops:
  "mark_permission_profile_applied m p now db = Inr (mr, db') \<Longrightarrow> leaders_ok db \<Longrightarrow> leaders_ok db'"
  "clear_permission_profile m now db = Inr (mr, db') \<Longrightarrow> leaders_ok db \<Longrightarrow> leaders_ok db'"
  "set_member_status m s now db = Inr (mr, db') \<Longrightarrow> leaders_ok db \<Longrightarrow> leaders_ok db'"
  "add_teammate tr u now db = Inr (mr, db') \<Longrightarrow> leaders_ok db \<Longrightarrow> leaders_ok db'"
  "add_discriminator dr u now db = Inr (mr, db') \<Longrightarrow> leaders_ok db \<Longrightarrow> leaders_ok db'"
  "remove_discriminators t db = Inr (mrs, db') \<Longrightarrow> leaders_ok db \<Longrightarrow> leaders_ok db'"
  by ((auto simp: member_op_defs err_simps Let_def ins_defs new_member_row_def split: if_split_asm
      dest!: update_member_db
      intro!: leaders_ok_upd_members leaders_ok_put_members leaders_ok_drop_members) [1])+

lemma removed_is_teammate:
  assumes "member_role t m db = Inr Teammate" "unique_key mb_id (d_members db)"
    "r \<in> set (d_members db)" "mb_id r = m"
  shows "mb_role r = Teammate"
  using assms by (elim member_role_Inr) (metis unique_key_eqD)

lemma remove_teammate_Inr:
  assumes "remove_teammate t l m now db = Inr (un, db')"
  shows "member_role t l db = Inr Leader" "member_role t m db = Inr Teammate"
proof -
  show "member_role t l db = Inr Leader"
    using assms by (auto simp: remove_teammate_def err_simps require_leader_Inr)
  show "member_role t m db = Inr Teammate"
    using assms by (auto simp: remove_teammate_def err_simps) (metis team_role.exhaust)
qed

lemma leaders_remove_teammate:
  assumes "remove_teammate t l m now db = Inr (un, db')" "leaders_ok db" "schema_ok db"
  shows "leaders_ok db'"
proof -
  have "mb_role r \<noteq> Leader" if "r \<in> set (d_members db)" "mb_id r = m" for r
    using removed_is_teammate [OF remove_teammate_Inr(2) [OF assms(1)]] that assms(3) by (simp add: schema_defs)
  then have not_leader: "\<forall>r\<in>set (d_members db). mb_id r = m \<longrightarrow> mb_role r \<noteq> Leader" by blast
  define db1 where "db1 = upd_members (\<lambda>r. mb_id r = m)
      (\<lambda>r. r\<lparr>mb_status := MbRemoving, mb_updated_at := now\<rparr>) db"
  have "leaders_ok db1" using assms(2) unfolding db1_def by (rule leaders_ok_upd_members) simp_all
  moreover have "\<forall>r\<in>set (d_members db1). mb_id r = m \<longrightarrow> mb_role r \<noteq> Leader"
    using not_leader by (simp add: db1_def ball_update_where)
  moreover obtain db4 where db': "db' = upd_teams (\<lambda>r. tm_id r = t) (\<lambda>r. r\<lparr>tm_updated_at := now\<rparr>)
      (drop_members (\<lambda>r. mb_id r = m) db4)"
    and db4: "d_teams db4 = d_teams db1" "d_members db4 = d_members db1"
    using assms(1) unfolding db1_def
    by (auto simp: remove_teammate_def err_simps Let_def del_members_def split: if_split_asm)
  ultimately show ?thesis
    unfolding db' using leaders_ok_cong [OF db4]
    by (intro leaders_ok_upd_teams leaders_ok_drop_members) (auto simp: db4)
qed

lemma leaders_boot: "leaders_ok db \<Longrightarrow> leaders_ok (team_store_boot now db)"
  by (auto simp: team_store_boot_def Let_def boot_mode_def intro!: leaders_ok_upd_teams)

lemma leaders_step:
  assumes "team_step parse op db db'" "leaders_ok db" "schema_ok db"
  shows "leaders_ok db'"
proof (cases "op \<in> teams_ops \<union> members_ops")
  case False
  then have "d_teams db' = d_teams db" "d_members db' = d_members db"
    using frame_teams [OF assms(1)] frame_members [OF assms(1)] by auto
  then show ?thesis using assms(2) leaders_ok_cong by blast
next
  case True
  show ?thesis using assms(1) True assms(2,3)
    by (induction rule: team_step.induct)
      (simp_all add: teams_ops_def members_ops_def leaders_status_ops leaders_other_ops leaders_create_team
        leaders_member_ops leaders_remove_teammate leaders_boot)
qed

text \<open>At most eight teammates.\<close>

lemma teammates_ok_cong: "d_members db' = d_members db \<Longrightarrow> teammates_ok db' = teammates_ok db"
  by (simp add: teammates_ok_def teammate_count_def)

lemma teammate_count_upd_members:
  assumes "\<And>r. mb_team (f r) = mb_team r" "\<And>r. mb_role (f r) = mb_role r"
  shows "teammate_count t (upd_members P f db) = teammate_count t db"
  by (simp add: teammate_count_def count_where_update_same assms)

lemma count_where_delete: "count_where Q (delete_where P rows) \<le> count_where Q rows"
  by (induction rows) (auto simp: delete_where_def)

lemma teammate_count_drop: "teammate_count t (drop_members P db) \<le> teammate_count t db"
  by (simp add: teammate_count_def count_where_delete)

lemma teammate_count_put:
  "teammate_count t (put_members r db) =
     teammate_count t db + (if mb_team r = t \<and> mb_role r = Teammate then 1 else 0)"
  by (simp add: teammate_count_def)

lemma teammates_drop: "teammates_ok db \<Longrightarrow> teammates_ok (drop_members P db)"
  by (meson teammates_ok_def teammate_count_drop le_trans)

lemma teammates_put: "teammates_ok db \<Longrightarrow> mb_role r \<noteq> Teammate \<Longrightarrow> teammates_ok (put_members r db)"
  by (simp add: teammates_ok_def teammate_count_put)

lemma teammates_upd_members:
  "teammates_ok db \<Longrightarrow> (\<And>r. mb_team (f r) = mb_team r) \<Longrightarrow> (\<And>r. mb_role (f r) = mb_role r) \<Longrightarrow>
   teammates_ok (upd_members P f db)"
  by (simp add: teammates_ok_def teammate_count_upd_members)

lemma teammates_frames [simp]:
  "teammates_ok (put_teams r db) = teammates_ok db" "teammates_ok (upd_teams P f db) = teammates_ok db"
  "teammates_ok (upd_tasks Q g db) = teammates_ok db" "teammates_ok (del_messages R db) = teammates_ok db"
  by (rule teammates_ok_cong; simp)+

lemma teammates_member_ops:
  "create_team i u v now db = Inr (r, db') \<Longrightarrow> teammates_ok db \<Longrightarrow> teammates_ok db'"
  "mark_permission_profile_applied m p now db = Inr (mr, db') \<Longrightarrow> teammates_ok db \<Longrightarrow> teammates_ok db'"
  "clear_permission_profile m now db = Inr (mr, db') \<Longrightarrow> teammates_ok db \<Longrightarrow> teammates_ok db'"
  "set_member_status m s now db = Inr (mr, db') \<Longrightarrow> teammates_ok db \<Longrightarrow> teammates_ok db'"
  "add_discriminator dr u now db = Inr (mr, db') \<Longrightarrow> teammates_ok db \<Longrightarrow> teammates_ok db'"
  "remove_discriminators t db = Inr (mrs, db') \<Longrightarrow> teammates_ok db \<Longrightarrow> teammates_ok db'"
  "remove_teammate t l m now db = Inr (un, db') \<Longrightarrow> teammates_ok db \<Longrightarrow> teammates_ok db'"
  by ((auto simp: create_team_def member_op_defs err_simps Let_def ins_defs new_member_row_def return_Inr
      split: if_split_asm dest!: update_member_db
      intro!: teammates_drop teammates_put teammates_upd_members) [1])+

lemma teammates_add:
  assumes "add_teammate tr u now db = Inr (mr, db')" "teammates_ok db" "limits_ok db"
  shows "teammates_ok db'"
proof -
  obtain team where team: "row_of tm_id (nm_team tr) (d_teams db) = Some team"
    and below: "teammate_count (nm_team tr) db < tm_max_teammates team"
    using assms(1) by (auto simp: add_teammate_def err_simps Let_def)
  have db': "db' = put_members (new_member_row u (nm_team tr) (nm_conversation tr)
      (normalized_name (nm_name tr)) Teammate MbStarting (nm_workspace tr) (nm_base_tree tr) now) db"
    using assms(1) by (auto simp: add_teammate_def err_simps Let_def ins_defs split: if_split_asm)
  have "tm_max_teammates team \<le> MAX_TEAMMATES"
    using row_of_SomeD [OF team] assms(3) by (auto simp: limits_ok_def team_limits_def)
  then show ?thesis
    using db' below assms(2) by (auto simp: teammates_ok_def teammate_count_put new_member_row_def)
qed

lemma teammates_step:
  assumes "team_step parse op db db'" "teammates_ok db" "limits_ok db"
  shows "teammates_ok db'"
proof (cases "op \<in> members_ops")
  case False
  then show ?thesis using assms(2) teammates_ok_cong [OF frame_members [OF assms(1) False]] by blast
next
  case True
  show ?thesis using assms(1) True assms(2,3)
    by (induction rule: team_step.induct) (simp_all add: members_ops_def teammates_member_ops teammates_add)
qed

end
