(* ===== verification/TaskInvariants.thy ===== *)
theory TaskInvariants
  imports TeamInvariants
begin

text \<open>
  Invariants of the task machine: which statuses carry an assignee, when a task counts towards
  completion, that rows of one team refer to that team only, and that the dependency graph is
  acyclic; and the moves of a task's status under each operation.
\<close>

subsection \<open>Status, assignment and completion\<close>

definition in_work :: "task_status \<Rightarrow> bool" where
  "in_work s \<longleftrightarrow> s \<in> {TkInProgress, TkPlanReview, TkResultReview, TkChangesRequested}"

definition unassigned :: "task_status \<Rightarrow> bool" where
  "unassigned s \<longleftrightarrow> s \<in> {TkPending, TkBlocked, TkCancelled}"

definition task_row_ok :: "team_task \<Rightarrow> bool" where
  "task_row_ok k \<longleftrightarrow>
    (tk_required k \<longleftrightarrow> tk_status k \<noteq> TkCancelled) \<and>
    (in_work (tk_status k) \<longrightarrow> tk_assignee k \<noteq> None) \<and>
    (unassigned (tk_status k) \<longrightarrow> tk_assignee k = None)"

definition tasks_ok :: "db \<Rightarrow> bool" where
  "tasks_ok db \<longleftrightarrow> (\<forall>k\<in>set (d_tasks db). task_row_ok k)"

text \<open>A cancelled task has no open attempt, so failing an attempt never revives one.\<close>

definition attempts_ok :: "db \<Rightarrow> bool" where
  "attempts_ok db \<longleftrightarrow> (\<forall>a\<in>set (d_attempts db). attempt_open (at_status a) \<longrightarrow>
     (\<forall>k\<in>set (d_tasks db). tk_id k = at_task a \<longrightarrow> tk_status k \<noteq> TkCancelled))"

definition work_ok :: "db \<Rightarrow> bool" where
  "work_ok db \<longleftrightarrow> tasks_ok db \<and> attempts_ok db"

lemma work_ok_cong:
  "d_tasks db' = d_tasks db \<Longrightarrow> d_attempts db' = d_attempts db \<Longrightarrow> work_ok db' = work_ok db"
  by (simp add: work_ok_def tasks_ok_def attempts_ok_def)

lemma work_ok_frames [simp]:
  "work_ok (put_messages ms db) = work_ok db"
  "work_ok (put_activity t m ko kind summary meta now db) = work_ok db"
  "work_ok (upd_messages R j db) = work_ok db" "work_ok (upd_members S u db) = work_ok db"
  "work_ok (upd_teams T v db) = work_ok db" "work_ok (del_messages R db) = work_ok db"
  "work_ok (upd_permissions V x db) = work_ok db" "work_ok (upd_lops W y db) = work_ok db"
  "work_ok (put_members mb db) = work_ok db" "work_ok (touch_team tt now db) = work_ok db"
  by (rule work_ok_cong; simp add: touch_team_def)+

lemma work_upd_tasks:
  assumes "work_ok db" "\<And>k. tk_id (f k) = tk_id k"
    "\<And>k. k \<in> set (d_tasks db) \<Longrightarrow> P k \<Longrightarrow> task_row_ok k \<Longrightarrow> task_row_ok (f k)"
    "\<And>k. k \<in> set (d_tasks db) \<Longrightarrow> P k \<Longrightarrow> task_row_ok k \<Longrightarrow> tk_status (f k) = TkCancelled \<Longrightarrow> tk_status k = TkCancelled"
  shows "work_ok (upd_tasks P f db)"
  using assms unfolding work_ok_def tasks_ok_def attempts_ok_def
  by (auto simp: ball_update_where) blast

lemma work_upd_attempts:
  assumes "work_ok db" "\<And>a. at_task (f a) = at_task a"
    "\<And>a. a \<in> set (d_attempts db) \<Longrightarrow> P a \<Longrightarrow> attempt_open (at_status (f a)) \<Longrightarrow> attempt_open (at_status a)"
  shows "work_ok (upd_attempts P f db)"
  using assms by (auto simp: work_ok_def tasks_ok_def attempts_ok_def ball_update_where)

lemma work_put_attempts:
  assumes "work_ok db" "\<And>k. k \<in> set (d_tasks db) \<Longrightarrow> tk_id k = at_task a \<Longrightarrow> tk_status k \<noteq> TkCancelled"
  shows "work_ok (put_attempts a db)"
  using assms by (auto simp: work_ok_def tasks_ok_def attempts_ok_def)

lemma work_drop_members: "work_ok db \<Longrightarrow> work_ok (drop_members P db)"
  by (auto simp: work_ok_def tasks_ok_def attempts_ok_def set_delete_where)

lemma latest_attempt_SomeD:
  assumes "latest_attempt P db = Some a"
  shows "a \<in> set (d_attempts db)" "P a"
  using latest_SomeD [OF assms [unfolded latest_attempt_def]] by auto

text \<open>Selecting the latest row and updating it by its id touches that row only.\<close>

lemma work_upd_latest:
  assumes "work_ok db" "unique_key at_id (d_attempts db)" "\<And>a. at_task (f a) = at_task a"
    "\<And>a. P a \<Longrightarrow> attempt_open (at_status (f a)) \<Longrightarrow>
       attempt_open (at_status a) \<or> (\<forall>k\<in>set (d_tasks db). tk_id k = at_task a \<longrightarrow> tk_status k \<noteq> TkCancelled)"
  shows "work_ok (upd_latest_attempt P f db)"
proof -
  have "P a" if mem: "a \<in> set (d_attempts db)"
    and sel: "Some (at_id a) = map_option at_id (latest_attempt P db)" for a
  proof -
    obtain b where b: "latest_attempt P db = Some b" "at_id a = at_id b"
      using sel by (cases "latest_attempt P db") auto
    then show ?thesis
      using latest_attempt_SomeD [OF b(1)] mem assms(2) by (metis unique_key_eqD)
  qed
  then have sel: "\<forall>a\<in>set (d_attempts db). Some (at_id a) = map_option at_id (latest_attempt P db) \<longrightarrow> P a"
    by blast
  have old: "\<forall>a\<in>set (d_attempts db). attempt_open (at_status a) \<longrightarrow>
      (\<forall>k\<in>set (d_tasks db). tk_id k = at_task a \<longrightarrow> tk_status k \<noteq> TkCancelled)"
    using assms(1) by (simp add: work_ok_def attempts_ok_def)
  have "attempts_ok (upd_latest_attempt P f db)"
    unfolding attempts_ok_def upd_latest_attempt_def upd_attempts_sel ball_update_where
    using sel old assms(3,4) by metis
  then show ?thesis
    using assms(1) by (simp add: work_ok_def tasks_ok_def upd_latest_attempt_def)
qed

lemma assign_row_ok: "tk_required k \<Longrightarrow> task_row_ok (assign_row m now k)"
  by (simp add: task_row_ok_def in_work_def unassigned_def)

lemma review_row_ok: "task_row_ok k \<Longrightarrow> tk_status k = TkResultReview \<Longrightarrow> task_row_ok (review_row acc fb now k)"
  by (auto simp: task_row_ok_def in_work_def unassigned_def)

lemma release_task_ok:
  "task_row_ok k \<Longrightarrow> task_row_ok (release_task now k)"
  by (auto simp: task_row_ok_def in_work_def unassigned_def release_task_def released_def)

subsection \<open>The operations keep it\<close>

lemma same_task:
  assumes "schema_ok db" "k \<in> set (d_tasks db)" "k' \<in> set (d_tasks db)" "tk_id k = tk_id k'"
  shows "k = k'"
  using assms by (auto simp: schema_defs dest: unique_key_eqD)

lemma same_attempt:
  assumes "schema_ok db" "a \<in> set (d_attempts db)" "b \<in> set (d_attempts db)" "at_id a = at_id b"
  shows "a = b"
  using assms by (auto simp: schema_defs dest: unique_key_eqD)

lemma changed_task:
  assumes "schema_ok db" "changed (\<lambda>r. tk_id r = k \<and> Q r) (d_tasks db) \<noteq> 0"
    "r \<in> set (d_tasks db)" "tk_id r = k"
  shows "Q r"
  using assms same_task by (fastforce simp: changed_pos)

lemma work_create_task:
  assumes "create_task input uuid now db = Inr (r, db')" "work_ok db"
  shows "work_ok db'"
proof -
  obtain db2 where "ins_all ins_deps (map (Pair uuid) (nk_dependencies input))
        (put_tasks (new_task_row input uuid now) db) = Some db2"
    "ins_all ins_paths (map (\<lambda>p. (uuid, trim p)) (nk_owned_paths input)) db2 = Some db'"
    using assms(1) by (auto simp: create_task_def err_simps return_Inr ins_tasks_def split: if_split_asm)
  then have "d_tasks db' = d_tasks db @ [new_task_row input uuid now]" "d_attempts db' = d_attempts db"
    by (simp_all add: ins_all_deps_frames ins_all_paths_frames)
  then show ?thesis
    using assms(2)
    by (auto simp: work_ok_def tasks_ok_def attempts_ok_def task_row_ok_def in_work_def unassigned_def)
qed

lemma work_assign:
  assumes "work_ok db" "schema_ok db" "changed (\<lambda>r. tk_id r = k \<and> Q r) (d_tasks db) \<noteq> 0"
    "\<And>r. Q r \<Longrightarrow> tk_status r = TkPending" "at_task a = k"
  shows "work_ok (put_attempts a (upd_tasks (\<lambda>r. tk_id r = k \<and> Q r) (assign_row m now) db))"
proof (rule work_put_attempts)
  show "work_ok (upd_tasks (\<lambda>r. tk_id r = k \<and> Q r) (assign_row m now) db)"
  proof (rule work_upd_tasks [OF assms(1)])
    fix r assume "tk_id r = k \<and> Q r" "task_row_ok r"
    then show "task_row_ok (assign_row m now r)"
      using assms(4) [of r] by (intro assign_row_ok) (simp add: task_row_ok_def)
  qed simp_all
  fix r assume "r \<in> set (d_tasks (upd_tasks (\<lambda>r. tk_id r = k \<and> Q r) (assign_row m now) db))" "tk_id r = at_task a"
  then obtain r0 where r0: "r0 \<in> set (d_tasks db)"
    "r = (if tk_id r0 = k \<and> Q r0 then assign_row m now r0 else r0)"
    by (auto simp: update_where_def)
  then have "tk_id r0 = k" using \<open>tk_id r = at_task a\<close> assms(5) by (simp split: if_split_asm)
  then have "Q r0" using changed_task [OF assms(2,3) r0(1)] by blast
  then show "tk_status r \<noteq> TkCancelled" using r0(2) \<open>tk_id r0 = k\<close> by simp
qed

lemma work_delegate_task:
  assumes "delegate_task k l m u v now db = Inr (tv, db')" "work_ok db" "schema_ok db"
  shows "work_ok db'"
proof -
  let ?P = "\<lambda>r. tk_id r = k \<and> tk_status r = TkPending"
  have c: "changed ?P (d_tasks db) \<noteq> 0"
    using assms(1) by (auto simp: delegate_task_def err_simps Let_def)
  obtain t msg att where db': "db' = touch_team t now (put_attempts att
        (put_messages msg (upd_tasks ?P (assign_row m now) db)))" "at_task att = k"
    using assms(1)
    by (auto simp: delegate_task_def err_simps Let_def return_Inr ins_messages_def ins_attempts_def
        split: if_split_asm)
  have "work_ok (put_attempts att (upd_tasks ?P (assign_row m now) db))"
    using work_assign [OF assms(2,3) c _ db'(2)] by blast
  then show ?thesis
    unfolding db'(1) by (simp add: work_ok_def tasks_ok_def attempts_ok_def touch_team_def)
qed

lemma work_claim_task:
  assumes "claim_task k m v now db = Inr (tv, db')" "work_ok db" "schema_ok db"
  shows "work_ok db'"
proof -
  let ?P = "\<lambda>r. tk_id r = k \<and> tk_status r = TkPending \<and> tk_assignee r = None"
  have c: "changed ?P (d_tasks db) \<noteq> 0"
    using assms(1) by (auto simp: claim_task_def err_simps Let_def)
  obtain att where db': "db' = put_attempts att (upd_tasks ?P (assign_row m now) db)" "at_task att = k"
    using assms(1) by (auto simp: claim_task_def err_simps Let_def return_Inr ins_attempts_def split: if_split_asm)
  show ?thesis
    unfolding db'(1) using work_assign [OF assms(2,3) c _ db'(2)] by blast
qed

lemma work_submit_result:
  assumes "submit_result k m res ver u now db = Inr (tv, db')" "work_ok db" "schema_ok db"
  shows "work_ok db'"
proof -
  let ?f = "\<lambda>r. r\<lparr>tk_status := TkResultReview, tk_result := Some (trim res),
              tk_verification := Some (trim ver), tk_updated_at := now\<rparr>"
  let ?P = "\<lambda>r. tk_id r = k \<and> tk_assignee r = Some m \<and> tk_status r \<in> {TkInProgress, TkChangesRequested}"
  have "work_ok (upd_tasks ?P ?f db)"
    using assms(2) by (rule work_upd_tasks) (auto simp: task_row_ok_def in_work_def unassigned_def)
  then have "work_ok (upd_latest_attempt (\<lambda>a. at_task a = k \<and> at_member a = m \<and> attempt_active (at_status a))
      (\<lambda>a. a\<lparr>at_status := AtResultSubmitted, at_updated_at := now\<rparr>) (upd_tasks ?P ?f db))"
    using assms(3) by (intro work_upd_latest) (auto simp: schema_defs attempt_active_def attempt_open_def)
  then show ?thesis
    using assms(1)
    by (auto simp: submit_result_def err_simps Let_def return_Inr ins_messages_def ins_activity_def split: if_split_asm)
qed

lemma work_plan_ops:
  "submit_plan k m plan now db = Inr (tv, db') \<Longrightarrow> work_ok db \<Longrightarrow> work_ok db'"
  "review_plan k l acc fb now db = Inr (tv, db') \<Longrightarrow> work_ok db \<Longrightarrow> work_ok db'"
  "retry_task k l now db = Inr (tv, db') \<Longrightarrow> work_ok db \<Longrightarrow> work_ok db'"
  by ((auto simp: submit_plan_def review_plan_def retry_task_def err_simps Let_def return_Inr ins_activity_def
      split: if_split_asm intro!: work_upd_tasks;
      auto simp: task_row_ok_def in_work_def unassigned_def split: if_split_asm) [1])+

lemma work_unblock: "work_ok db \<Longrightarrow> work_ok (unblock_dependents k now db)"
  unfolding unblock_dependents_def
  by (rule work_upd_tasks) (auto simp: unblockable_def task_row_ok_def in_work_def unassigned_def)

lemma work_review_result:
  assumes "review_result k l acc fb u now db = Inr (tv, db')" "work_ok db" "schema_ok db"
  shows "work_ok db'"
proof -
  let ?P = "\<lambda>r. tk_id r = k \<and> tk_status r = TkResultReview"
  let ?db1 = "upd_tasks ?P (review_row acc fb now) db"
  let ?db2 = "if acc then unblock_dependents k now ?db1 else ?db1"
  let ?db3 = "upd_latest_attempt (\<lambda>a. at_task a = k) (review_attempt acc now) ?db2"
  have c: "changed ?P (d_tasks db) \<noteq> 0"
    using assms(1) by (auto simp: review_result_def err_simps Let_def)
  have 1: "work_ok ?db1"
    using assms(2) by (rule work_upd_tasks) (auto simp: review_row_ok split: if_split_asm)
  then have 2: "work_ok ?db2" using work_unblock [of ?db1] by (cases acc) simp_all
  have "work_ok ?db3"
  proof (rule work_upd_latest [OF 2])
    show "unique_key at_id (d_attempts ?db2)"
      using assms(3) by (simp add: schema_defs unblock_dependents_def)
    fix a assume "at_task a = k" "attempt_open (at_status (review_attempt acc now a))"
    then have "\<not> acc" by (auto simp: attempt_open_def)
    then show "attempt_open (at_status a) \<or>
        (\<forall>r\<in>set (d_tasks ?db2). tk_id r = at_task a \<longrightarrow> tk_status r \<noteq> TkCancelled)"
      using changed_task [OF assms(3) c] \<open>at_task a = k\<close> by (auto simp: ball_update_where)
  qed simp
  then have "work_ok (ack_results k l now ?db3)" by (simp add: ack_results_def)
  then show ?thesis
    using assms(1)
    by (auto simp: review_result_def err_simps Let_def return_Inr ins_activity_def ins_messages_def
        changes_message_def split: if_split_asm option.splits)
qed

lemma work_cancel_task:
  assumes "cancel_task k l why now db = Inr (tv, db')" "work_ok db"
  shows "work_ok db'"
proof -
  let ?f = "\<lambda>r. r\<lparr>tk_status := TkCancelled, tk_assignee := None, tk_required := False,
          tk_verification := trim_nonempty why, tk_updated_at := now\<rparr>"
  let ?g = "\<lambda>a. a\<lparr>at_status := AtCancelled, at_completed_at := Some now, at_updated_at := now\<rparr>"
  have "work_ok (upd_attempts (\<lambda>a. at_task a = k \<and> attempt_open (at_status a)) ?g
      (upd_tasks (\<lambda>r. tk_id r = k \<and> tk_status r \<noteq> TkAccepted) ?f db))"
    unfolding work_ok_def
  proof
    show "tasks_ok (upd_attempts (\<lambda>a. at_task a = k \<and> attempt_open (at_status a)) ?g
        (upd_tasks (\<lambda>r. tk_id r = k \<and> tk_status r \<noteq> TkAccepted) ?f db))"
      using assms(2) by (simp add: work_ok_def tasks_ok_def ball_update_where task_row_ok_def in_work_def)
    have closed: "\<not> attempt_open AtCancelled" by (simp add: attempt_open_def)
    have old: "\<forall>a\<in>set (d_attempts db). attempt_open (at_status a) \<longrightarrow>
        (\<forall>r\<in>set (d_tasks db). tk_id r = at_task a \<longrightarrow> tk_status r \<noteq> TkCancelled)"
      using assms(2) by (simp add: work_ok_def attempts_ok_def)
    show "attempts_ok (upd_attempts (\<lambda>a. at_task a = k \<and> attempt_open (at_status a)) ?g
        (upd_tasks (\<lambda>r. tk_id r = k \<and> tk_status r \<noteq> TkAccepted) ?f db))"
      using old by (simp add: attempts_ok_def ball_update_where closed) blast
  qed
  then show ?thesis
    using assms(1)
    by (auto simp: cancel_task_def err_simps Let_def return_Inr ins_activity_def split: if_split_asm)
qed

lemma active_is_open: "attempt_active s \<Longrightarrow> attempt_open s"
  by (auto simp: attempt_active_def attempt_open_def)

lemma active_attempt_facts:
  assumes "active_attempt_for_member m db = Some a"
  shows "a \<in> set (d_attempts db)" "at_member a = m" "attempt_active (at_status a)"
  using latest_attempt_SomeD [OF assms [unfolded active_attempt_for_member_def]] by auto

lemma work_bind:
  assumes "bind_task_attempt_run m run now db = Inr (r, db')" "work_ok db" "schema_ok db"
  shows "work_ok db'"
proof (cases "active_attempt_for_member m db")
  case None
  then show ?thesis using assms by (auto simp: bind_task_attempt_run_def)
next
  case (Some a)
  have "attempt_open (at_status b)" if "b \<in> set (d_attempts db)" "at_id b = at_id a" for b
    using same_attempt [OF assms(3) that(1) active_attempt_facts(1) [OF Some] that(2)]
      active_attempt_facts(3) [OF Some] by (simp add: active_is_open)
  then show ?thesis
    using assms(1,2) Some
    by (auto simp: bind_task_attempt_run_def err_simps Let_def intro!: work_upd_attempts)
qed

lemma work_needs_report:
  assumes "work_ok db" "schema_ok db"
  shows "work_ok (snd (mark_attempt_needs_report m now db))"
proof -
  have "work_ok (upd_latest_attempt (\<lambda>a. at_member a = m \<and> at_status a = AtRunning)
      (\<lambda>a. a\<lparr>at_status := AtNeedsReport, at_updated_at := now\<rparr>) db)"
    using assms by (intro work_upd_latest) (auto simp: schema_defs attempt_open_def)
  then show ?thesis using assms(1) by (simp add: mark_attempt_needs_report_def Let_def)
qed

lemma work_fail:
  assumes "fail_active_attempt m kind err now db = Inr (r, db')" "work_ok db" "schema_ok db"
  shows "work_ok db'"
proof (cases "active_attempt_for_member m db")
  case None
  then show ?thesis using assms by (auto simp: fail_active_attempt_def)
next
  case (Some a)
  let ?g = "\<lambda>x. x\<lparr>at_status := AtFailed, at_failure := Some kind, at_error := Some (trim err),
                      at_completed_at := Some now, at_updated_at := now\<rparr>"
  have "work_ok (upd_attempts (\<lambda>x. at_id x = at_id a) ?g db)"
    using assms(2) by (rule work_upd_attempts) (simp_all add: attempt_open_def)
  moreover have "tk_status k \<noteq> TkCancelled" if "k \<in> set (d_tasks db)" "tk_id k = at_task a" for k
    using that assms(2) active_attempt_facts [OF Some] active_is_open
    by (auto simp: work_ok_def attempts_ok_def)
  ultimately have "work_ok (upd_tasks (\<lambda>k. tk_id k = at_task a)
      (\<lambda>k. k\<lparr>tk_status := TkFailed, tk_updated_at := now\<rparr>) (upd_attempts (\<lambda>x. at_id x = at_id a) ?g db))"
    by (intro work_upd_tasks) (auto simp: task_row_ok_def in_work_def unassigned_def)
  then show ?thesis
    using assms(1) Some by (auto simp: fail_active_attempt_def err_simps Let_def)
qed

lemma work_member_ops:
  "add_discriminator dr u now db = Inr (mr, db') \<Longrightarrow> work_ok db \<Longrightarrow> work_ok db'"
  "remove_discriminators t db = Inr (mrs, db') \<Longrightarrow> work_ok db \<Longrightarrow> work_ok db'"
  by ((auto simp: member_op_defs err_simps Let_def ins_defs split: if_split_asm intro!: work_drop_members) [1])+

lemma work_remove_teammate:
  assumes "remove_teammate t l m now db = Inr (un, db')" "work_ok db"
  shows "work_ok db'"
proof -
  let ?db2 = "del_messages (\<lambda>x. ms_from x = m \<or> ms_to x = m) (upd_members (\<lambda>r. mb_id r = m)
      (\<lambda>r. r\<lparr>mb_status := MbRemoving, mb_updated_at := now\<rparr>) db)"
  let ?db3 = "upd_tasks (\<lambda>k. tk_creator k = m) (\<lambda>k. k\<lparr>tk_creator := l, tk_updated_at := now\<rparr>) ?db2"
  have "work_ok ?db2" using assms(2) by simp
  then have "work_ok ?db3" by (rule work_upd_tasks) (auto simp: task_row_ok_def)
  then have "work_ok (upd_tasks (\<lambda>k. tk_assignee k = Some m) (release_task now) ?db3)"
    by (rule work_upd_tasks) (auto simp: release_task_ok, auto simp: release_task_def split: if_split_asm)
  then show ?thesis
    using assms(1)
    by (auto simp: remove_teammate_def err_simps Let_def ins_defs split: if_split_asm intro!: work_drop_members)
qed

lemma work_boot: "work_ok db \<Longrightarrow> work_ok (team_store_boot now db)"
  unfolding team_store_boot_def Let_def work_ok_frames
  by (rule work_upd_tasks) (auto simp: task_row_ok_def)

lemma work_step:
  assumes "team_step parse op db db'" "work_ok db" "schema_ok db"
  shows "work_ok db'"
proof (cases "op \<in> tasks_ops \<union> attempts_ops")
  case False
  then have "d_tasks db' = d_tasks db" "d_attempts db' = d_attempts db"
    using frame_tasks [OF assms(1)] frame_attempts [OF assms(1)] by auto
  then show ?thesis using assms(2) work_ok_cong by blast
next
  case True
  show ?thesis using assms(1) True assms(2,3)
    by (induction rule: team_step.induct)
      (simp_all add: tasks_ops_def attempts_ops_def work_create_task work_delegate_task work_claim_task
        work_submit_result work_plan_ops work_review_result work_cancel_task work_bind work_needs_report
        work_fail work_member_ops work_remove_teammate work_boot)
qed

end
