(* ===== verification/ScopeInvariants.thy ===== *)
theory ScopeInvariants
  imports TaskInvariants
begin

text \<open>
  Rows of one team refer to rows of that team, members act in the role the operations demand of
  them, and the dependencies among tasks are acyclic.
\<close>

subsection \<open>References within a team\<close>

definition has_role :: "string \<Rightarrow> string \<Rightarrow> team_role \<Rightarrow> db \<Rightarrow> bool" where
  "has_role t m role db \<longleftrightarrow> (\<exists>r\<in>set (d_members db). mb_id r = m \<and> mb_team r = t \<and> mb_role r = role)"

definition in_team :: "string \<Rightarrow> string \<Rightarrow> db \<Rightarrow> bool" where
  "in_team t m db \<longleftrightarrow> (\<exists>r\<in>set (d_members db). mb_id r = m \<and> mb_team r = t)"

definition task_in_team :: "string \<Rightarrow> string \<Rightarrow> db \<Rightarrow> bool" where
  "task_in_team t k db \<longleftrightarrow> (\<exists>r\<in>set (d_tasks db). tk_id r = k \<and> tk_team r = t)"

definition task_scope :: "db \<Rightarrow> team_task \<Rightarrow> bool" where
  "task_scope db k \<longleftrightarrow> has_role (tk_team k) (tk_creator k) Leader db
     \<and> (\<forall>m. tk_assignee k = Some m \<longrightarrow> has_role (tk_team k) m Teammate db)"

definition message_scope :: "db \<Rightarrow> team_message \<Rightarrow> bool" where
  "message_scope db x \<longleftrightarrow> in_team (ms_team x) (ms_from x) db \<and> in_team (ms_team x) (ms_to x) db
     \<and> (\<forall>k. ms_task x = Some k \<longrightarrow> task_in_team (ms_team x) k db)"

definition attempt_scope :: "db \<Rightarrow> task_attempt \<Rightarrow> bool" where
  "attempt_scope db a \<longleftrightarrow> task_in_team (at_team a) (at_task a) db \<and> has_role (at_team a) (at_member a) Teammate db"

definition scope_ok :: "db \<Rightarrow> bool" where
  "scope_ok db \<longleftrightarrow>
    (\<forall>k\<in>set (d_tasks db). task_scope db k) \<and>
    (\<forall>x\<in>set (d_messages db). message_scope db x) \<and>
    (\<forall>a\<in>set (d_attempts db). attempt_scope db a) \<and>
    (\<forall>d\<in>set (d_deps db). \<exists>t. task_in_team t (fst d) db \<and> task_in_team t (snd d) db) \<and>
    (\<forall>r\<in>set (d_rounds db). has_role (rd_team r) (rd_discriminator r) Discriminator db) \<and>
    (\<forall>u\<in>set (d_inputs db). has_role (ui_team u) (ui_requester u) Leader db) \<and>
    (\<forall>p\<in>set (d_permissions db). in_team (pr_team p) (pr_member p) db)"

lemmas scopes = task_scope_def message_scope_def attempt_scope_def

lemma member_role_has_role: "member_role t m db = Inr role \<Longrightarrow> has_role t m role db"
  by (auto simp: has_role_def elim: member_role_Inr)

lemma has_role_in_team: "has_role t m role db \<Longrightarrow> in_team t m db"
  by (auto simp: has_role_def in_team_def)

lemma require_team_member_in_team: "require_team_member t m db = Inr u \<Longrightarrow> in_team t m db"
  using require_team_member_Inr by (auto simp: in_team_def)

lemma task_team_id_in: "task_team_id k db = Inr t \<Longrightarrow> task_in_team t k db"
  by (auto simp: task_team_id_def task_in_team_def split: option.splits dest!: row_of_SomeD)

lemma roles_cong:
  assumes "d_members db' = d_members db"
  shows "has_role t m role db' = has_role t m role db" "in_team t m db' = in_team t m db"
    "task_scope db' = task_scope db"
  using assms by (auto simp: has_role_def in_team_def task_scope_def fun_eq_iff)

lemma task_in_team_cong: "d_tasks db' = d_tasks db \<Longrightarrow> task_in_team t k db' = task_in_team t k db"
  by (simp add: task_in_team_def)

lemma scope_ok_cong:
  assumes "d_members db' = d_members db" "d_tasks db' = d_tasks db" "d_messages db' = d_messages db"
    "d_attempts db' = d_attempts db" "d_deps db' = d_deps db" "d_rounds db' = d_rounds db"
    "d_inputs db' = d_inputs db" "d_permissions db' = d_permissions db"
  shows "scope_ok db' = scope_ok db"
  using assms by (simp add: scope_ok_def scopes has_role_def in_team_def task_in_team_def)

lemma scope_frames [simp]:
  "scope_ok (upd_teams T v db) = scope_ok db" "scope_ok (put_teams r db) = scope_ok db"
  "scope_ok (upd_lops W y db) = scope_ok db" "scope_ok (put_lops lo db) = scope_ok db"
  "scope_ok (put_activity t m ko kind summary meta now db) = scope_ok db"
  "scope_ok (touch_team tt now db) = scope_ok db"
  "scope_ok (record_pending_research_outcome t now db) = scope_ok db"
  by (rule scope_ok_cong; simp add: touch_team_def)+

subsection \<open>Statements keep the references\<close>

lemma scope_upd_members:
  assumes "scope_ok db" "\<And>r. mb_id (f r) = mb_id r" "\<And>r. mb_team (f r) = mb_team r"
    "\<And>r. mb_role (f r) = mb_role r"
  shows "scope_ok (upd_members P f db)"
proof -
  have "has_role t m role (upd_members P f db) = has_role t m role db"
    "in_team t m (upd_members P f db) = in_team t m db" for t m role
    by (auto simp: has_role_def in_team_def bex_update_where assms(2-4))
  then show ?thesis using assms(1) by (simp add: scope_ok_def scopes task_in_team_def)
qed

lemma scope_upd_tasks:
  assumes "scope_ok db" "\<And>k. tk_id (f k) = tk_id k" "\<And>k. tk_team (f k) = tk_team k"
    "\<And>k. k \<in> set (d_tasks db) \<Longrightarrow> P k \<Longrightarrow> task_scope db k \<Longrightarrow> task_scope db (f k)"
  shows "scope_ok (upd_tasks P f db)"
proof -
  have t: "task_in_team t k (upd_tasks P f db) = task_in_team t k db" for t k
    by (auto simp: task_in_team_def bex_update_where assms(2,3))
  have r: "has_role t m role (upd_tasks P f db) = has_role t m role db"
    "in_team t m (upd_tasks P f db) = in_team t m db" for t m role
    by (simp_all add: has_role_def in_team_def)
  have "task_scope (upd_tasks P f db) = task_scope db" by (simp add: task_scope_def fun_eq_iff r)
  then show ?thesis
    using assms(1,4) by (simp add: scope_ok_def message_scope_def attempt_scope_def t r ball_update_where)
qed

lemma scope_upd_messages:
  assumes "scope_ok db" "\<And>x. ms_team (f x) = ms_team x" "\<And>x. ms_from (f x) = ms_from x"
    "\<And>x. ms_to (f x) = ms_to x" "\<And>x. ms_task (f x) = ms_task x"
  shows "scope_ok (upd_messages P f db)"
  using assms by (simp add: scope_ok_def scopes has_role_def in_team_def task_in_team_def ball_update_where)

lemma scope_upd_attempts:
  assumes "scope_ok db" "\<And>a. at_team (f a) = at_team a" "\<And>a. at_task (f a) = at_task a"
    "\<And>a. at_member (f a) = at_member a"
  shows "scope_ok (upd_attempts P f db)"
  using assms by (simp add: scope_ok_def scopes has_role_def in_team_def task_in_team_def ball_update_where)

lemma scope_upd_latest_attempt:
  assumes "scope_ok db" "\<And>a. at_team (f a) = at_team a" "\<And>a. at_task (f a) = at_task a"
    "\<And>a. at_member (f a) = at_member a"
  shows "scope_ok (upd_latest_attempt P f db)"
  unfolding upd_latest_attempt_def using assms by (rule scope_upd_attempts)

lemma scope_upd_rounds:
  assumes "scope_ok db" "\<And>r. rd_team (f r) = rd_team r" "\<And>r. rd_discriminator (f r) = rd_discriminator r"
  shows "scope_ok (upd_rounds P f db)"
  using assms by (simp add: scope_ok_def scopes has_role_def in_team_def task_in_team_def ball_update_where)

lemma scope_upd_inputs:
  assumes "scope_ok db" "\<And>u. ui_team (f u) = ui_team u" "\<And>u. ui_requester (f u) = ui_requester u"
  shows "scope_ok (upd_inputs P f db)"
  using assms by (simp add: scope_ok_def scopes has_role_def in_team_def task_in_team_def ball_update_where)

lemma scope_upd_permissions:
  assumes "scope_ok db" "\<And>p. pr_team (f p) = pr_team p" "\<And>p. pr_member (f p) = pr_member p"
  shows "scope_ok (upd_permissions P f db)"
  using assms by (simp add: scope_ok_def scopes has_role_def in_team_def task_in_team_def ball_update_where)

lemma scope_put_rows:
  "scope_ok db \<Longrightarrow> message_scope db x \<Longrightarrow> scope_ok (put_messages x db)"
  "scope_ok db \<Longrightarrow> attempt_scope db a \<Longrightarrow> scope_ok (put_attempts a db)"
  "scope_ok db \<Longrightarrow> has_role (rd_team r) (rd_discriminator r) Discriminator db \<Longrightarrow> scope_ok (put_rounds r db)"
  "scope_ok db \<Longrightarrow> has_role (ui_team u) (ui_requester u) Leader db \<Longrightarrow> scope_ok (put_inputs u db)"
  "scope_ok db \<Longrightarrow> in_team (pr_team p) (pr_member p) db \<Longrightarrow> scope_ok (put_permissions p db)"
  by (auto simp: scope_ok_def scopes has_role_def in_team_def task_in_team_def)

lemma scope_put_members: "scope_ok db \<Longrightarrow> scope_ok (put_members r db)"
  unfolding scope_ok_def scopes has_role_def in_team_def task_in_team_def by auto

lemma scope_del_messages: "scope_ok db \<Longrightarrow> scope_ok (del_messages P db)"
  by (simp add: scope_ok_def scopes has_role_def in_team_def task_in_team_def set_delete_where)

lemma role_drop_members:
  "has_role t m role db \<Longrightarrow> m \<notin> set (gone_members P db) \<Longrightarrow> has_role t m role (drop_members P db)"
  "in_team t m db \<Longrightarrow> m \<notin> set (gone_members P db) \<Longrightarrow> in_team t m (drop_members P db)"
  by (auto simp: has_role_def in_team_def gone_members_def set_delete_where)

lemma not_referenced:
  assumes "\<not> members_referenced gone db"
  shows "k \<in> set (d_tasks db) \<Longrightarrow> tk_creator k \<notin> set gone"
    "k \<in> set (d_tasks db) \<Longrightarrow> tk_assignee k = Some m \<Longrightarrow> m \<notin> set gone"
    "x \<in> set (d_messages db) \<Longrightarrow> ms_from x \<notin> set gone \<and> ms_to x \<notin> set gone"
  using assms by (auto simp: members_referenced_def list_ex_iff)

lemma scope_drop_members:
  assumes "scope_ok db" "\<not> members_referenced (gone_members P db) db"
  shows "scope_ok (drop_members P db)"
proof -
  have t: "task_in_team t k (drop_members P db) = task_in_team t k db" for t k
    by (simp add: task_in_team_def)
  have p: "\<exists>q\<in>set (d_permissions db). pr_member q \<notin> set (gone_members P db) \<and> pr_team p = pr_team q \<and> pr_member p = pr_member q"
    if "p \<in> set (d_permissions (drop_members P db))" for p
    using that by (auto simp: drop_members_def Let_def set_delete_where)
  have s: "\<forall>k\<in>set (d_tasks db). task_scope db k" "\<forall>x\<in>set (d_messages db). message_scope db x"
    "\<forall>a\<in>set (d_attempts db). attempt_scope db a"
    "\<forall>r\<in>set (d_rounds db). has_role (rd_team r) (rd_discriminator r) Discriminator db"
    "\<forall>u\<in>set (d_inputs db). has_role (ui_team u) (ui_requester u) Leader db"
    "\<forall>p\<in>set (d_permissions db). in_team (pr_team p) (pr_member p) db"
    "\<forall>d\<in>set (d_deps db). \<exists>t. task_in_team t (fst d) db \<and> task_in_team t (snd d) db"
    using assms(1) by (simp_all add: scope_ok_def)
  show ?thesis
    unfolding scope_ok_def
  proof (intro conjI)
    show "\<forall>k\<in>set (d_tasks (drop_members P db)). task_scope (drop_members P db) k"
      using s(1) not_referenced [OF assms(2)] by (auto simp: task_scope_def intro!: role_drop_members)
    show "\<forall>x\<in>set (d_messages (drop_members P db)). message_scope (drop_members P db) x"
      using s(2) not_referenced [OF assms(2)] by (auto simp: message_scope_def t intro!: role_drop_members)
    show "\<forall>a\<in>set (d_attempts (drop_members P db)). attempt_scope (drop_members P db) a"
      using s(3) by (auto simp: attempt_scope_def t set_delete_where intro!: role_drop_members)
    show "\<forall>p\<in>set (d_permissions (drop_members P db)). in_team (pr_team p) (pr_member p) (drop_members P db)"
      using s(6) p by (metis role_drop_members(2))
  qed (use s in \<open>auto simp: t set_delete_where intro!: role_drop_members\<close>)
qed

lemma scope_del_members: "del_members P db = Some db' \<Longrightarrow> scope_ok db \<Longrightarrow> scope_ok db'"
  by (auto simp: del_members_def intro: scope_drop_members split: if_split_asm)

subsection \<open>Operations keep the references\<close>

lemma scope_member_ops:
  "create_team i u v now db = Inr (r, db') \<Longrightarrow> scope_ok db \<Longrightarrow> scope_ok db'"
  "mark_permission_profile_applied m p now db = Inr (mr, db') \<Longrightarrow> scope_ok db \<Longrightarrow> scope_ok db'"
  "clear_permission_profile m now db = Inr (mr, db') \<Longrightarrow> scope_ok db \<Longrightarrow> scope_ok db'"
  "set_member_status m s now db = Inr (mr, db') \<Longrightarrow> scope_ok db \<Longrightarrow> scope_ok db'"
  "add_teammate tr u now db = Inr (mr, db') \<Longrightarrow> scope_ok db \<Longrightarrow> scope_ok db'"
  "add_discriminator dr u now db = Inr (mr, db') \<Longrightarrow> scope_ok db \<Longrightarrow> scope_ok db'"
  "remove_discriminators t db = Inr (mrs, db') \<Longrightarrow> scope_ok db \<Longrightarrow> scope_ok db'"
  by ((auto simp: create_team_def member_op_defs err_simps Let_def ins_teams_def ins_members_def return_Inr
      split: if_split_asm dest!: update_member_db elim!: scope_del_members
      intro!: scope_put_members scope_upd_members) [1])+

lemma scope_mailbox_ops:
  "scope_ok db \<Longrightarrow> scope_ok (snd (read_messages m now db))"
  "scope_ok db \<Longrightarrow> scope_ok (snd (requeue_expired_deliveries l now db))"
  "scope_ok db \<Longrightarrow> scope_ok (mark_message_delivered i now db)"
  "scope_ok db \<Longrightarrow> scope_ok (mark_message_failed i e db)"
  "scope_ok db \<Longrightarrow> scope_ok (snd (mark_messages_read m now db))"
  "scope_ok db \<Longrightarrow> scope_ok (team_store_boot now db)"
  "scope_ok db \<Longrightarrow> scope_ok (snd (mark_attempt_needs_report m now db))"
  by ((auto simp: mailbox_op_defs team_store_boot_def mark_attempt_needs_report_def Let_def task_scope_def
      intro!: scope_upd_messages scope_upd_permissions scope_upd_tasks scope_upd_latest_attempt) [1])+

lemma scope_send_message:
  "send_message t f g kind task body u now db = Inr (msg, db') \<Longrightarrow> scope_ok db \<Longrightarrow> scope_ok db'"
  by (auto simp: send_message_def check_message_task_def err_simps Let_def ins_messages_def message_scope_def
      task_in_team_def split: if_split_asm option.splits intro!: scope_put_rows
      dest: require_team_member_in_team dest!: row_of_SomeD)

lemma scope_permission_ops:
  "create_permission_request preq now db = Inr (pr, db') \<Longrightarrow> scope_ok db \<Longrightarrow> scope_ok db'"
  "update_permission_request parse i lo st opt reason who now db = Inr (pr, db') \<Longrightarrow> scope_ok db \<Longrightarrow> scope_ok db'"
  "resolve_permission_as_user parse i op now db = Inr (pro, db') \<Longrightarrow> scope_ok db \<Longrightarrow> scope_ok db'"
  "cancel_permission_request i now db = Inr (pro, db') \<Longrightarrow> scope_ok db \<Longrightarrow> scope_ok db'"
  by ((auto simp: create_permission_request_def update_permission_request_def resolve_permission_as_user_def
      cancel_permission_request_def err_simps Let_def ins_permissions_def new_permission_row_def
      split: if_split_asm option.splits intro!: scope_put_rows scope_upd_permissions
      dest: require_team_member_in_team) [1])+

lemma scope_input_round_ops:
  "request_user_input t l ti pr u now db = Inr (ui, db') \<Longrightarrow> scope_ok db \<Longrightarrow> scope_ok db'"
  "resolve_user_input t i an now db = Inr (ui, db') \<Longrightarrow> scope_ok db \<Longrightarrow> scope_ok db'"
  "request_discrimination t l d fp u now db = Inr (rr, db') \<Longrightarrow> scope_ok db \<Longrightarrow> scope_ok db'"
  "submit_discrimination_verdict i d pa ve ev now db = Inr (rr, db') \<Longrightarrow> scope_ok db \<Longrightarrow> scope_ok db'"
  by ((auto simp: request_user_input_def resolve_user_input_def request_discrimination_def
      submit_discrimination_verdict_def err_simps Let_def ins_inputs_def ins_rounds_def require_leader_Inr
      split: if_split_asm intro!: scope_put_rows scope_upd_inputs scope_upd_rounds
      dest: member_role_has_role) [1])+

lemma scope_upd_same_team:
  assumes "scope_ok db" "\<And>k. tk_id (f k) = tk_id k" "\<And>k. tk_team (f k) = tk_team k"
    "\<And>k. tk_creator (f k) = tk_creator k" "\<And>k. tk_assignee (f k) = tk_assignee k \<or> tk_assignee (f k) = None"
  shows "scope_ok (upd_tasks P f db)"
  using assms(1-3) by (rule scope_upd_tasks) (metis assms(3-5) option.distinct(1) task_scope_def)

lemma scope_task_ops:
  "submit_plan k m plan now db = Inr (tv, db') \<Longrightarrow> scope_ok db \<Longrightarrow> scope_ok db'"
  "review_plan k l acc fb now db = Inr (tv, db') \<Longrightarrow> scope_ok db \<Longrightarrow> scope_ok db'"
  "retry_task k l now db = Inr (tv, db') \<Longrightarrow> scope_ok db \<Longrightarrow> scope_ok db'"
  "cancel_task k l why now db = Inr (tv, db') \<Longrightarrow> scope_ok db \<Longrightarrow> scope_ok db'"
  "bind_task_attempt_run m run now db = Inr (ao, db') \<Longrightarrow> scope_ok db \<Longrightarrow> scope_ok db'"
  "fail_active_attempt m kind err now db = Inr (ao, db') \<Longrightarrow> scope_ok db \<Longrightarrow> scope_ok db'"
  by ((auto simp: submit_plan_def review_plan_def retry_task_def cancel_task_def bind_task_attempt_run_def
      fail_active_attempt_def err_simps Let_def return_Inr ins_activity_def split: if_split_asm option.splits
      intro!: scope_upd_same_team scope_upd_attempts scope_upd_messages) [1])+

lemma scope_assign:
  assumes "scope_ok db" "schema_ok db" "task_team_id k db = Inr t" "member_role t m db = Inr Teammate"
  shows "scope_ok (upd_tasks (\<lambda>r. tk_id r = k \<and> Q r) (assign_row m now) db)"
    "task_in_team t k (upd_tasks (\<lambda>r. tk_id r = k \<and> Q r) (assign_row m now) db)"
    "has_role t m Teammate (upd_tasks (\<lambda>r. tk_id r = k \<and> Q r) (assign_row m now) db)"
proof -
  have team: "tk_team r = t" if "r \<in> set (d_tasks db)" "tk_id r = k" for r
    using that assms(2,3) same_task [OF assms(2)] by (auto simp: task_team_id_def split: option.splits dest!: row_of_SomeD)
  show "scope_ok (upd_tasks (\<lambda>r. tk_id r = k \<and> Q r) (assign_row m now) db)"
    using assms(1) member_role_has_role [OF assms(4)] team
    by (intro scope_upd_tasks) (auto simp: task_scope_def)
  show "task_in_team t k (upd_tasks (\<lambda>r. tk_id r = k \<and> Q r) (assign_row m now) db)"
    using task_team_id_in [OF assms(3)] by (auto simp: task_in_team_def bex_update_where)
  show "has_role t m Teammate (upd_tasks (\<lambda>r. tk_id r = k \<and> Q r) (assign_row m now) db)"
    using member_role_has_role [OF assms(4)] by (simp add: has_role_def)
qed

lemma scope_claim_task:
  assumes "claim_task k m v now db = Inr (tv, db')" "scope_ok db" "schema_ok db"
  shows "scope_ok db'"
proof -
  let ?P = "\<lambda>r. tk_id r = k \<and> tk_status r = TkPending \<and> tk_assignee r = None"
  obtain t where t: "task_team_id k db = Inr t" "member_role t m db = Inr Teammate"
    "db' = put_attempts (new_attempt_row v t k m AtRunning now) (upd_tasks ?P (assign_row m now) db)"
    using assms(1)
    by (auto simp: claim_task_def err_simps Let_def return_Inr require_teammate_Inr ins_attempts_def
        split: if_split_asm)
  show ?thesis
    unfolding t(3) using scope_assign [OF assms(2,3) t(1,2)]
    by (intro scope_put_rows(2)) (auto simp: attempt_scope_def)
qed

lemma scope_delegate_task:
  assumes "delegate_task k l m u v now db = Inr (tv, db')" "scope_ok db" "schema_ok db"
  shows "scope_ok db'"
proof -
  let ?db1 = "upd_tasks (\<lambda>r. tk_id r = k \<and> tk_status r = TkPending) (assign_row m now) db"
  obtain t b where t: "task_team_id k db = Inr t" "member_role t l db = Inr Leader"
    "member_role t m db = Inr Teammate"
    "db' = touch_team t now (put_attempts (new_attempt_row v t k m AtQueued now)
        (put_messages (new_message_row u t l m MkTaskAssigned (Some k) b now) ?db1))"
    using assms(1)
    by (auto simp: delegate_task_def err_simps Let_def return_Inr require_leader_Inr require_teammate_Inr
        ins_messages_def ins_attempts_def split: if_split_asm)
  note a = scope_assign [OF assms(2,3) t(1,3), where Q = "\<lambda>r. tk_status r = TkPending" and now = now]
  have "has_role t l Leader ?db1" using member_role_has_role [OF t(2)] by (simp add: has_role_def)
  then have "scope_ok (put_messages (new_message_row u t l m MkTaskAssigned (Some k) b now) ?db1)"
    using a by (intro scope_put_rows(1)) (auto simp: message_scope_def dest: has_role_in_team)
  then show ?thesis
    unfolding t(4) scope_frames using a(2,3)
    by (intro scope_put_rows(2)) (auto simp: attempt_scope_def task_in_team_def has_role_def)
qed

text \<open>The leader a team names is a member of it.\<close>

lemma leader_in_team:
  assumes "leaders_ok db" "row_of tm_id t (d_teams db) = Some team"
  shows "in_team t (tm_leader team) db"
  using assms row_of_SomeD [OF assms(2)] by (fastforce simp: leaders_ok_def in_team_def)

lemma scope_submit_result:
  assumes "submit_result k m res ver u now db = Inr (tv, db')" "scope_ok db" "schema_ok db" "leaders_ok db"
  shows "scope_ok db'"
proof -
  let ?P = "\<lambda>r. tk_id r = k \<and> tk_assignee r = Some m \<and> tk_status r \<in> {TkInProgress, TkChangesRequested}"
  let ?f = "\<lambda>r. r\<lparr>tk_status := TkResultReview, tk_result := Some (trim res),
              tk_verification := Some (trim ver), tk_updated_at := now\<rparr>"
  let ?db2 = "upd_latest_attempt (\<lambda>a. at_task a = k \<and> at_member a = m \<and> attempt_active (at_status a))
      (\<lambda>a. a\<lparr>at_status := AtResultSubmitted, at_updated_at := now\<rparr>) (upd_tasks ?P ?f db)"
  have c: "changed ?P (d_tasks db) \<noteq> 0"
    using assms(1) by (auto simp: submit_result_def err_simps Let_def)
  obtain task team where t: "row_of tk_id k (d_tasks db) = Some task"
      "row_of tm_id (tk_team task) (d_teams db) = Some team"
    and db': "db' = put_activity (tk_team task) (Some m) (Some k) ''task_result_submitted'' (tk_title task) None now
        (put_messages (new_message_row u (tk_team task) m (tm_leader team) MkResultReady (Some k) (trim res) now) ?db2)"
    using assms(1)
    by (auto simp: submit_result_def err_simps Let_def return_Inr ins_messages_def ins_activity_def split: if_split_asm)
  have task: "task \<in> set (d_tasks db)" "tk_id task = k" using row_of_SomeD [OF t(1)] by auto
  then have "has_role (tk_team task) m Teammate db"
    using changed_task [OF assms(3) c task] assms(2) by (auto simp: scope_ok_def task_scope_def)
  then have m: "in_team (tk_team task) m ?db2"
    using has_role_in_team by (fastforce simp: in_team_def upd_latest_attempt_def has_role_def)
  have l: "in_team (tk_team task) (tm_leader team) ?db2"
    using leader_in_team [OF assms(4) t(2)] by (simp add: in_team_def upd_latest_attempt_def)
  have k: "task_in_team (tk_team task) k ?db2"
    using task by (auto simp: task_in_team_def upd_latest_attempt_def bex_update_where)
  have "scope_ok ?db2"
    using assms(2) by (intro scope_upd_latest_attempt scope_upd_same_team) auto
  then show ?thesis
    unfolding db' scope_frames using m l k by (intro scope_put_rows(1)) (auto simp: message_scope_def)
qed

lemma scope_unblock: "scope_ok db \<Longrightarrow> scope_ok (unblock_dependents k now db)"
  unfolding unblock_dependents_def by (rule scope_upd_same_team) auto

lemma scope_review_result:
  assumes "review_result k l acc fb u now db = Inr (tv, db')" "scope_ok db"
  shows "scope_ok db'"
proof -
  let ?P = "\<lambda>r. tk_id r = k \<and> tk_status r = TkResultReview"
  let ?db1 = "upd_tasks ?P (review_row acc fb now) db"
  let ?db2 = "if acc then unblock_dependents k now ?db1 else ?db1"
  let ?db4 = "ack_results k l now (upd_latest_attempt (\<lambda>a. at_task a = k) (review_attempt acc now) ?db2)"
  obtain t task db5 where t: "task_team_id k db = Inr t" "member_role t l db = Inr Leader"
      "row_of tk_id k (d_tasks db) = Some task"
    and db5: "(if acc then Some ?db4 else changes_message t k l (tk_assignee task) u fb now ?db4) = Some db5"
    and db': "scope_ok db' = scope_ok db5"
    using assms(1)
    by (auto simp: review_result_def err_simps Let_def return_Inr require_leader_Inr ins_activity_def
        split: if_split_asm)
  have "scope_ok ?db1" using assms(2) by (rule scope_upd_same_team) auto
  then have "scope_ok ?db2" using scope_unblock [of ?db1] by (cases acc) simp_all
  then have 4: "scope_ok ?db4"
    unfolding ack_results_def by (intro scope_upd_messages scope_upd_latest_attempt) auto
  have "scope_ok db5"
  proof (cases "acc \<or> tk_assignee task = None")
    case True
    then show ?thesis using 4 db5 by (auto simp: changes_message_def split: if_split_asm)
  next
    case False
    then obtain m where m: "tk_assignee task = Some m" "\<not> acc" by auto
    have "task \<in> set (d_tasks db)" "tk_id task = k" "tk_team task = t"
      using row_of_SomeD [OF t(3)] t(1,3) by (auto simp: task_team_id_def split: option.splits)
    then have "in_team t m db" "in_team t l db" "task_in_team t k db"
      using assms(2) m(1) member_role_has_role [OF t(2)]
      by (auto simp: scope_ok_def task_scope_def task_in_team_def intro: has_role_in_team)
    then have "in_team t m ?db4" "in_team t l ?db4" "task_in_team t k ?db4"
      using m(2) by (auto simp: in_team_def task_in_team_def ack_results_def upd_latest_attempt_def bex_update_where)
    then show ?thesis
      using db5 m 4 by (auto simp: changes_message_def ins_messages_def message_scope_def intro!: scope_put_rows(1)
          split: if_split_asm)
  qed
  then show ?thesis using db' by simp
qed

lemma scope_remove_teammate:
  assumes "remove_teammate t l m now db = Inr (un, db')" "scope_ok db" "schema_ok db"
  shows "scope_ok db'"
proof -
  let ?db2 = "del_messages (\<lambda>x. ms_from x = m \<or> ms_to x = m) (upd_members (\<lambda>r. mb_id r = m)
      (\<lambda>r. r\<lparr>mb_status := MbRemoving, mb_updated_at := now\<rparr>) db)"
  let ?db3 = "upd_tasks (\<lambda>k. tk_creator k = m) (\<lambda>k. k\<lparr>tk_creator := l, tk_updated_at := now\<rparr>) ?db2"
  let ?db4 = "upd_tasks (\<lambda>k. tk_assignee k = Some m) (release_task now) ?db3"
  have key: "unique_key mb_id (d_members db)" using assms(3) by (simp add: schema_defs)
  have "tk_creator k \<noteq> m" if "k \<in> set (d_tasks db)" for k
    using that assms(2) removed_is_teammate [OF remove_teammate_Inr(2) [OF assms(1)] key]
    by (fastforce simp: scope_ok_def task_scope_def has_role_def)
  then have "scope_ok ?db3"
    using assms(2) by (intro scope_upd_tasks scope_del_messages scope_upd_members) auto
  then have "scope_ok ?db4" by (rule scope_upd_same_team) auto
  then show ?thesis
    using assms(1)
    by (auto simp: remove_teammate_def err_simps Let_def elim!: scope_del_members)
qed

subsection \<open>Dependencies\<close>

definition deps_acyclic :: "db \<Rightarrow> bool" where
  "deps_acyclic db \<longleftrightarrow> acyclic (set (d_deps db))"

lemma ins_all_deps_rows:
  "ins_all ins_deps rs db = Some db' \<Longrightarrow> d_deps db' = d_deps db @ rs \<and> (\<forall>r\<in>set rs. task_in (snd r) db)"
proof (induction rs arbitrary: db)
  case (Cons r rs)
  obtain db1 where 1: "ins_deps r db = Some db1" and 2: "ins_all ins_deps rs db1 = Some db'"
    using Cons.prems by (auto split: option.splits)
  have db1: "d_deps db1 = d_deps db @ [r]" "task_in (snd r) db" "task_in t db1 = task_in t db" for t
    using 1 by (auto simp: ins_deps_def split: if_split_asm)
  show ?case using Cons.IH [OF 2] by (simp add: db1)
qed simp

lemma create_task_rows:
  assumes "create_task input uuid now db = Inr (r, db')"
  shows "d_tasks db' = d_tasks db @ [new_task_row input uuid now]"
    "d_deps db' = d_deps db @ map (Pair uuid) (nk_dependencies input)"
    "\<not> task_in uuid db" "d_members db' = d_members db" "d_messages db' = d_messages db"
    "d_attempts db' = d_attempts db" "d_rounds db' = d_rounds db" "d_inputs db' = d_inputs db"
    "d_permissions db' = d_permissions db"
    "validate_dependencies (nk_team input) (nk_dependencies input) db = Inr ()"
    "member_role (nk_team input) (nk_creator input) db = Inr Leader"
proof -
  obtain db2 where 1: "ins_all ins_deps (map (Pair uuid) (nk_dependencies input))
        (put_tasks (new_task_row input uuid now) db) = Some db2"
    and 2: "ins_all ins_paths (map (\<lambda>p. (uuid, trim p)) (nk_owned_paths input)) db2 = Some db'"
    and "\<not> task_in uuid db"
    and "validate_dependencies (nk_team input) (nk_dependencies input) db = Inr ()"
    and "member_role (nk_team input) (nk_creator input) db = Inr Leader"
    using assms
    by (auto simp: create_task_def err_simps return_Inr ins_tasks_def require_leader_Inr split: if_split_asm)
  then show "d_tasks db' = d_tasks db @ [new_task_row input uuid now]"
    "d_deps db' = d_deps db @ map (Pair uuid) (nk_dependencies input)"
    "\<not> task_in uuid db" "d_members db' = d_members db" "d_messages db' = d_messages db"
    "d_attempts db' = d_attempts db" "d_rounds db' = d_rounds db" "d_inputs db' = d_inputs db"
    "d_permissions db' = d_permissions db"
    "validate_dependencies (nk_team input) (nk_dependencies input) db = Inr ()"
    "member_role (nk_team input) (nk_creator input) db = Inr Leader"
    using ins_all_deps_rows [OF 1] by (simp_all add: ins_all_deps_frames [OF 1] ins_all_paths_frames [OF 2])
qed

lemma validate_dependencies_Inr:
  "validate_dependencies t ds db = Inr () \<Longrightarrow> d \<in> set ds \<Longrightarrow> task_in_team t d db"
  by (induction t ds db rule: validate_dependencies.induct)
    (auto simp: task_in_team_def list_ex_iff split: if_split_asm)

lemma scope_create_task:
  assumes "create_task input uuid now db = Inr (r, db')" "scope_ok db"
  shows "scope_ok db'"
proof -
  note rows = create_task_rows [OF assms(1)]
  have roles: "has_role t m role db' = has_role t m role db" "in_team t m db' = in_team t m db" for t m role
    using rows by (simp_all add: has_role_def in_team_def)
  have mono: "task_in_team t k db \<Longrightarrow> task_in_team t k db'" for t k
    using rows by (auto simp: task_in_team_def)
  have new: "task_in_team (nk_team input) uuid db'" using rows by (auto simp: task_in_team_def)
  have deps: "task_in_team (nk_team input) d db'" if "d \<in> set (nk_dependencies input)" for d
    using validate_dependencies_Inr [OF rows(10) that] by (rule mono)
  have s: "\<forall>k\<in>set (d_tasks db). task_scope db k" "\<forall>x\<in>set (d_messages db). message_scope db x"
    "\<forall>a\<in>set (d_attempts db). attempt_scope db a"
    "\<forall>d\<in>set (d_deps db). \<exists>t. task_in_team t (fst d) db \<and> task_in_team t (snd d) db"
    "\<forall>r\<in>set (d_rounds db). has_role (rd_team r) (rd_discriminator r) Discriminator db"
    "\<forall>u\<in>set (d_inputs db). has_role (ui_team u) (ui_requester u) Leader db"
    "\<forall>p\<in>set (d_permissions db). in_team (pr_team p) (pr_member p) db"
    using assms(2) by (simp_all add: scope_ok_def)
  show ?thesis
    unfolding scope_ok_def
  proof (intro conjI)
    show "\<forall>k\<in>set (d_tasks db'). task_scope db' k"
      using s(1) rows(1) member_role_has_role [OF rows(11)] by (auto simp: task_scope_def roles)
    show "\<forall>x\<in>set (d_messages db'). message_scope db' x"
      using s(2) rows(5) mono by (auto simp: message_scope_def roles)
    show "\<forall>a\<in>set (d_attempts db'). attempt_scope db' a"
      using s(3) rows(6) mono by (auto simp: attempt_scope_def roles)
    show "\<forall>d\<in>set (d_deps db'). \<exists>t. task_in_team t (fst d) db' \<and> task_in_team t (snd d) db'"
      using s(4) rows(2) mono new deps by fastforce
  qed (use s(5-7) rows in \<open>simp_all add: roles\<close>)
qed

lemma acyclic_fresh:
  assumes "acyclic R" "\<And>y. (y, x) \<notin> R" "x \<notin> D"
  shows "acyclic (R \<union> {x} \<times> D)"
proof (rule acyclicI, intro allI notI)
  fix a assume "(a, a) \<in> (R \<union> {x} \<times> D)\<^sup>+"
  have no_in: "(y, x) \<notin> (R \<union> {x} \<times> D)\<^sup>+" for y
  proof
    assume "(y, x) \<in> (R \<union> {x} \<times> D)\<^sup>+"
    then obtain z where "(z, x) \<in> R \<union> {x} \<times> D" by (meson tranclE)
    then show False using assms(2,3) by auto
  qed
  have "(a, b) \<in> R\<^sup>+" if "(a, b) \<in> (R \<union> {x} \<times> D)\<^sup>+" "a \<noteq> x" for b
    using that
  proof (induction rule: trancl_induct)
    case (step b c)
    have "b \<noteq> x" using no_in step.hyps(1) by auto
    then show ?case using step by (auto intro: trancl_into_trancl)
  qed auto
  then show False
    using \<open>(a, a) \<in> (R \<union> {x} \<times> D)\<^sup>+\<close> no_in assms(1) by (auto simp: acyclic_def)
qed

lemma deps_create_task:
  assumes "create_task input uuid now db = Inr (r, db')" "deps_acyclic db" "schema_ok db"
  shows "deps_acyclic db'"
proof -
  note rows = create_task_rows [OF assms(1)]
  have "(y, uuid) \<notin> set (d_deps db)" for y
    using rows(3) assms(3) by (fastforce simp: schema_defs)
  moreover have "uuid \<notin> set (nk_dependencies input)"
    using validate_dependencies_Inr [OF rows(10)] rows(3) by (fastforce simp: task_in_team_def has_key_iff)
  ultimately have "acyclic (set (d_deps db) \<union> {uuid} \<times> set (nk_dependencies input))"
    using assms(2) by (intro acyclic_fresh) (auto simp: deps_acyclic_def)
  moreover have "set (d_deps db') = set (d_deps db) \<union> {uuid} \<times> set (nk_dependencies input)"
    using rows(2) by auto
  ultimately show ?thesis by (simp add: deps_acyclic_def)
qed

lemma deps_step:
  assumes "team_step parse op db db'" "deps_acyclic db" "schema_ok db"
  shows "deps_acyclic db'"
proof (cases "op = CreateTask")
  case False
  then have "d_deps db' = d_deps db" using frame_deps [OF assms(1)] by (simp add: deps_ops_def)
  then show ?thesis using assms(2) by (simp add: deps_acyclic_def)
next
  case True
  show ?thesis using assms(1) True assms(2,3)
    by (induction rule: team_step.induct) (simp_all add: deps_create_task)
qed

lemma scope_step:
  assumes "team_step parse op db db'" "scope_ok db" "schema_ok db" "leaders_ok db"
  shows "scope_ok db'"
proof (cases "op \<in> members_ops \<union> tasks_ops \<union> messages_ops \<union> attempts_ops \<union> deps_ops \<union> rounds_ops \<union> inputs_ops \<union> permissions_ops")
  case False
  then show ?thesis
    using assms(2) frame_members [OF assms(1)] frame_tasks [OF assms(1)] frame_messages [OF assms(1)]
      frame_attempts [OF assms(1)] frame_deps [OF assms(1)] frame_rounds [OF assms(1)]
      frame_inputs [OF assms(1)] frame_permissions [OF assms(1)] scope_ok_cong [of db' db] by auto
next
  case True
  show ?thesis using assms(1) True assms(2-4)
    by (induction rule: team_step.induct)
      (simp_all add: op_sets scope_member_ops scope_mailbox_ops scope_send_message scope_permission_ops
        scope_input_round_ops scope_task_ops scope_claim_task scope_delegate_task scope_submit_result
        scope_review_result scope_remove_teammate scope_create_task
        resolve_permission_as_leader_def escalate_permission_def)
qed

subsection \<open>The invariant of the team store\<close>

definition team_inv :: "options_parser \<Rightarrow> db \<Rightarrow> bool" where
  "team_inv parse db \<longleftrightarrow> schema_ok db \<and> mailbox_ok db \<and> permissions_ok parse db \<and> limits_ok db
     \<and> leaders_ok db \<and> teammates_ok db \<and> work_ok db \<and> scope_ok db \<and> deps_acyclic db"

lemma team_inv_empty: "team_inv parse empty_db"
  by (simp add: team_inv_def mailbox_ok_def permissions_ok_def limits_ok_def leaders_ok_def teammates_ok_def
      teammate_count_def work_ok_def tasks_ok_def attempts_ok_def scope_ok_def deps_acyclic_def acyclic_def)
    (simp add: empty_db_def)

lemma team_inv_step: "team_inv parse db \<Longrightarrow> team_moves parse db db' \<Longrightarrow> team_inv parse db'"
  unfolding team_inv_def team_moves_def
  by (blast intro: schema_step mailbox_step permissions_step limits_step leaders_step teammates_step
      work_step scope_step deps_step)

interpretation team_store: invariant_system is_empty_db "team_moves parse" "team_inv parse" for parse
  by unfold_locales (auto simp: is_empty_db_def team_inv_empty intro: team_inv_step)

end
