(* ===== verification/TeamScenario.thy ===== *)
theory TeamScenario
  imports ScopeInvariants
begin

text \<open>
  A concrete run of the team store, used by the witnesses: a leader creates a team, adds a
  teammate, starts the team, creates a task and the teammate claims it and submits a result.
\<close>

definition after :: "team_error + ('a \<times> db) \<Rightarrow> db" where
  "after r = (case r of Inl e \<Rightarrow> empty_db | Inr x \<Rightarrow> snd x)"

definition succeeds :: "'e + 'a \<Rightarrow> bool" where
  "succeeds r = (case r of Inl e \<Rightarrow> False | Inr x \<Rightarrow> True)"

lemma succeeds_after: "succeeds m \<Longrightarrow> \<exists>r. m = Inr (r, after m)"
  by (cases m) (auto simp: succeeds_def after_def)

definition any_option :: options_parser where
  "any_option json = Inr [Some ''allow'']"

definition crew :: new_team where
  "crew = \<lparr>nt_project_id = ''p'', nt_conversation = ''c0'', nt_session = ''s'',
     nt_leader_name = ''Lead'', nt_title = Some ''Crew'', nt_workspace = WsShared,
     nt_workspace_path = None\<rparr>"

definition ann :: new_teammate where
  "ann = \<lparr>nm_team = ''t'', nm_caller = ''l'', nm_conversation = ''c1'', nm_name = ''Ann'',
     nm_workspace = MwShared, nm_base_tree = None\<rparr>"

definition start_request_of :: "team_mode \<Rightarrow> start_request" where
  "start_request_of mode = \<lparr>st_team = ''t'', st_leader = ''l'', st_goal = ''g'', st_criteria = [''c''],
     st_agents = [''codex''], st_mode = mode, st_max_teammates = 3, st_max_parallel_runs = 2,
     st_max_review_rounds = 3\<rparr>"

definition task_of :: "string list \<Rightarrow> new_task" where
  "task_of deps = \<lparr>nk_team = ''t'', nk_creator = ''l'', nk_title = ''T'', nk_description = ''D'',
     nk_dependencies = deps, nk_owned_paths = [], nk_plan_approval = False, nk_mutates = True\<rparr>"

definition "run1 = create_team crew ''t'' ''l'' 1 empty_db"
definition "run2 = add_teammate ann ''m'' 2 (after run1)"
definition "run3 mode = start_team (start_request_of mode) 3 (after run2)"
definition "run4 mode = activate_team ''t'' 4 (after (run3 mode))"
definition "run5 mode = create_task (task_of []) ''k'' 5 (after (run4 mode))"
definition "run6 mode = claim_task ''k'' ''m'' ''a'' 6 (after (run5 mode))"
definition "run7 mode = submit_result ''k'' ''m'' ''done'' ''tests'' ''x'' 7 (after (run6 mode))"
definition "run8 mode = review_result ''k'' ''l'' True None ''y'' 8 (after (run7 mode))"

lemma run_succeeds:
  "succeeds run1" "succeeds run2"
  "succeeds (run3 Standard)" "succeeds (run4 Standard)" "succeeds (run5 Standard)"
  "succeeds (run6 Standard)" "succeeds (run7 Standard)" "succeeds (run8 Standard)"
  "succeeds (run3 Yolo)" "succeeds (run4 Yolo)" "succeeds (run5 Yolo)"
  "succeeds (run6 Yolo)" "succeeds (run7 Yolo)" "succeeds (run8 Yolo)"
  by (code_simp)+

lemma moves:
  assumes "succeeds m" "\<And>r db'. m = Inr (r, db') \<Longrightarrow> team_step parse op db db'"
    "reaches (team_moves parse) empty_db db"
  shows "reaches (team_moves parse) empty_db (after m)"
proof -
  obtain r where "m = Inr (r, after m)" using succeeds_after [OF assms(1)] by blast
  then have "team_moves parse db (after m)" using assms(2) by (auto simp: team_moves_def)
  then show ?thesis using assms(3) by (rule reaches_step [rotated])
qed

lemma run_reachable:
  shows run1_reachable: "reaches (team_moves parse) empty_db (after run1)"
    and run2_reachable: "reaches (team_moves parse) empty_db (after run2)"
    and run5_reachable: "reaches (team_moves parse) empty_db (after (run5 Standard))"
    and run6_reachable: "reaches (team_moves parse) empty_db (after (run6 Standard))"
    and run7_reachable: "reaches (team_moves parse) empty_db (after (run7 Standard))"
    and run8_reachable: "reaches (team_moves parse) empty_db (after (run8 Standard))"
proof -
  note s = run_succeeds
  show 1: "reaches (team_moves parse) empty_db (after run1)"
    by (rule moves [OF s(1)]) (auto simp: run1_def intro: do_create_team reaches_refl)
  show 2: "reaches (team_moves parse) empty_db (after run2)"
    by (rule moves [OF s(2) _ 1]) (auto simp: run2_def intro: do_add_teammate)
  have 3: "reaches (team_moves parse) empty_db (after (run3 Standard))"
    by (rule moves [OF s(3) _ 2]) (auto simp: run3_def intro: do_start_team)
  have 4: "reaches (team_moves parse) empty_db (after (run4 Standard))"
    by (rule moves [OF s(4) _ 3]) (auto simp: run4_def intro: do_activate_team)
  show 5: "reaches (team_moves parse) empty_db (after (run5 Standard))"
    by (rule moves [OF s(5) _ 4]) (auto simp: run5_def intro: do_create_task)
  show 6: "reaches (team_moves parse) empty_db (after (run6 Standard))"
    by (rule moves [OF s(6) _ 5]) (auto simp: run6_def intro: do_claim_task)
  show 7: "reaches (team_moves parse) empty_db (after (run7 Standard))"
    by (rule moves [OF s(7) _ 6]) (auto simp: run7_def intro: do_submit_result)
  show "reaches (team_moves parse) empty_db (after (run8 Standard))"
    by (rule moves [OF s(8) _ 7]) (auto simp: run8_def intro: do_review_result)
qed

end
