(* ===== verification/TeamEdges.thy ===== *)
theory TeamEdges
  imports ScopeInvariants
begin

text \<open>
  The moves of single rows: which status a message, a task and a team may have after an operation,
  given the status before.  A table is compared row by row through its key, so a row that an
  operation inserts or deletes does not take part.
\<close>

definition row_moves :: "('r \<Rightarrow> 'k) \<Rightarrow> ('r \<Rightarrow> 'r \<Rightarrow> bool) \<Rightarrow> 'r list \<Rightarrow> 'r list \<Rightarrow> bool" where
  "row_moves key E xs ys \<longleftrightarrow> (\<forall>x\<in>set xs. \<forall>y\<in>set ys. key y = key x \<longrightarrow> E x y)"

lemma row_moves_same:
  "unique_key key xs \<Longrightarrow> (\<And>x. E x x) \<Longrightarrow> row_moves key E xs xs"
  by (auto simp: row_moves_def dest: unique_key_eqD)

lemma row_moves_update:
  assumes "unique_key key xs" "\<And>x. key (f x) = key x" "\<And>x. E x x" "\<And>x. x \<in> set xs \<Longrightarrow> P x \<Longrightarrow> E x (f x)"
  shows "row_moves key E xs (update_where P f xs)"
  unfolding row_moves_def
proof (intro ballI impI)
  fix x y assume x: "x \<in> set xs" and y: "y \<in> set (update_where P f xs)" and eq: "key y = key x"
  then obtain z where z: "z \<in> set xs" "y = (if P z then f z else z)" by (auto simp: update_where_set)
  then have "z = x" using assms(1,2) x eq by (auto split: if_splits dest: unique_key_eqD)
  then show "E x y" using z assms(3,4) by auto
qed

lemma row_moves_subset: "row_moves key E xs ys \<Longrightarrow> set zs \<subseteq> set ys \<Longrightarrow> row_moves key E xs zs"
  by (auto simp: row_moves_def)

lemma row_moves_delete: "row_moves key E xs ys \<Longrightarrow> row_moves key E xs (delete_where P ys)"
  by (erule row_moves_subset) (auto simp: set_delete_where)

lemma row_moves_append:
  "row_moves key E xs ys \<Longrightarrow> \<not> has_key key (key r) xs \<Longrightarrow> row_moves key E xs (ys @ [r])"
  by (auto simp: row_moves_def has_key_iff)

lemma row_movesD:
  "row_moves key E xs ys \<Longrightarrow> x \<in> set xs \<Longrightarrow> y \<in> set ys \<Longrightarrow> key y = key x \<Longrightarrow> E x y"
  by (auto simp: row_moves_def)

text \<open>Two updates of one table, one after the other.\<close>

lemma row_moves_update2:
  assumes "row_moves key E xs ys" "\<And>x. key (f x) = key x"
    "\<And>x y. E x y \<Longrightarrow> P y \<Longrightarrow> x \<in> set xs \<Longrightarrow> y \<in> set ys \<Longrightarrow> key y = key x \<Longrightarrow> E x (f y)"
  shows "row_moves key E xs (update_where P f ys)"
  using assms by (auto simp: row_moves_def update_where_def)

subsection \<open>Messages\<close>

abbreviation message_moves :: "db \<Rightarrow> db \<Rightarrow> bool" where
  "message_moves db db' \<equiv>
    row_moves ms_id (\<lambda>x y. delivery_edge (ms_delivery x) (ms_delivery y)) (d_messages db) (d_messages db')"

lemma message_key: "schema_ok db \<Longrightarrow> unique_key ms_id (d_messages db)"
  by (simp add: schema_defs)

lemma close_edge: "undelivered x \<Longrightarrow> s \<in> {DvAcknowledged, DvCancelled} \<Longrightarrow> delivery_edge (ms_delivery x) s"
  by (auto simp: undelivered_def delivery_edge_def delivery_final_def)

lemma message_moves_upd:
  assumes "schema_ok db" "\<And>x. ms_id (f x) = ms_id x"
    "\<And>x. x \<in> set (d_messages db) \<Longrightarrow> P x \<Longrightarrow> delivery_edge (ms_delivery x) (ms_delivery (f x))"
  shows "row_moves ms_id (\<lambda>x y. delivery_edge (ms_delivery x) (ms_delivery y)) (d_messages db)
    (update_where P f (d_messages db))"
  using assms by (intro row_moves_update message_key) auto

lemma message_moves_mailbox_ops:
  assumes "schema_ok db" "mailbox_ok db"
  shows "message_moves db (snd (read_messages m now db))"
    "message_moves db (snd (requeue_expired_deliveries l now db))"
    "message_moves db (mark_message_delivered i now db)"
    "message_moves db (mark_message_failed i e db)"
    "message_moves db (snd (mark_messages_read m now db))"
proof -
  note upd = message_moves_upd [OF assms(1)]
  have unread: "delivery_edge (ms_delivery x) DvAcknowledged" if "x \<in> set (d_messages db)" "unread m x" for x
    using unread_not_final [OF assms(2) that] by (simp add: delivery_edge_def)
  show "message_moves db (snd (read_messages m now db))"
    unfolding read_messages_def snd_conv upd_messages_sel by (rule upd) (simp_all add: unread)
  show "message_moves db (snd (requeue_expired_deliveries l now db))"
    unfolding requeue_expired_deliveries_def snd_conv upd_messages_sel
    by (rule upd) (simp_all add: lease_expired_def delivery_edge_def delivery_final_def)
  show "message_moves db (mark_message_delivered i now db)"
    unfolding mark_message_delivered_def upd_messages_sel
    by (rule upd) (auto simp: delivery_edge_def delivery_final_def)
  show "message_moves db (mark_message_failed i e db)"
    unfolding mark_message_failed_def upd_messages_sel
    by (rule upd) (auto simp: delivery_edge_def delivery_final_def)
  show "message_moves db (snd (mark_messages_read m now db))"
    unfolding mark_messages_read_def Let_def snd_conv upd_messages_sel by (rule upd) (simp_all add: unread)
qed

lemma message_moves_boot:
  assumes "schema_ok db"
  shows "message_moves db (team_store_boot now db)"
  by (simp add: team_store_boot_def Let_def)
    (rule message_moves_upd [OF assms]; simp add: close_edge)

lemma message_moves_task_ops:
  "send_message t f g kind task body u now db = Inr (msg, db') \<Longrightarrow> schema_ok db \<Longrightarrow> message_moves db db'"
  "delegate_task k l m u v now db = Inr (tv, db') \<Longrightarrow> schema_ok db \<Longrightarrow> message_moves db db'"
  "submit_result k m res ver u now db = Inr (tv, db') \<Longrightarrow> schema_ok db \<Longrightarrow> message_moves db db'"
  "review_result k l acc fb u now db = Inr (tv, db') \<Longrightarrow> schema_ok db \<Longrightarrow> message_moves db db'"
  "cancel_task k l why now db = Inr (tv, db') \<Longrightarrow> schema_ok db \<Longrightarrow> message_moves db db'"
  "remove_teammate t l m now db = Inr (un, db') \<Longrightarrow> schema_ok db \<Longrightarrow> message_moves db db'"
  by ((auto simp: send_message_def delegate_task_def submit_result_def review_result_def cancel_task_def
      remove_teammate_def err_simps return_Inr Let_def ins_defs changes_message_def ack_results_def
      touch_team_def upd_latest_attempt_def unblock_dependents_def close_edge has_key_update_where
      intro!: row_moves_append row_moves_delete row_moves_same [OF message_key] message_moves_upd
      split: if_split_asm option.splits) [1])+

lemma message_moves_step:
  assumes "team_step parse op db db'" "mailbox_ok db" "schema_ok db"
  shows "message_moves db db'"
proof (cases "op \<in> messages_ops")
  case False
  then show ?thesis
    using frame_messages [OF assms(1) False] row_moves_same [OF message_key [OF assms(3)]] by simp
next
  case True
  show ?thesis using assms(1) True assms(2,3)
    by (induction rule: team_step.induct)
      (simp_all add: messages_ops_def message_moves_mailbox_ops message_moves_boot message_moves_task_ops)
qed

subsection \<open>Tasks\<close>

definition task_edge :: "team_op \<Rightarrow> task_status \<Rightarrow> task_status \<Rightarrow> bool" where
  "task_edge op s s' \<longleftrightarrow> s' = s \<or> (case op of
      DelegateTask \<Rightarrow> s = TkPending \<and> s' = TkInProgress
    | ClaimTask \<Rightarrow> s = TkPending \<and> s' = TkInProgress
    | SubmitPlan \<Rightarrow> s = TkInProgress \<and> s' = TkPlanReview
    | ReviewPlan \<Rightarrow> s = TkPlanReview \<and> s' \<in> {TkInProgress, TkChangesRequested}
    | SubmitResult \<Rightarrow> s \<in> {TkInProgress, TkChangesRequested} \<and> s' = TkResultReview
    | ReviewResult \<Rightarrow> s = TkResultReview \<and> s' \<in> {TkAccepted, TkChangesRequested} \<or> s = TkBlocked \<and> s' = TkPending
    | RetryTask \<Rightarrow> s \<in> {TkFailed, TkCancelled} \<and> s' \<in> {TkPending, TkBlocked}
    | CancelTask \<Rightarrow> s \<noteq> TkAccepted \<and> s' = TkCancelled
    | FailAttempt \<Rightarrow> s \<noteq> TkCancelled \<and> s' = TkFailed
    | RemoveTeammate \<Rightarrow> released s \<and> s' = TkPending
    | _ \<Rightarrow> False)"

abbreviation task_moves :: "team_op \<Rightarrow> db \<Rightarrow> db \<Rightarrow> bool" where
  "task_moves op db db' \<equiv>
    row_moves tk_id (\<lambda>x y. task_edge op (tk_status x) (tk_status y)) (d_tasks db) (d_tasks db')"

lemma task_edge_refl [simp]: "task_edge op s s"
  by (simp add: task_edge_def)

lemma task_edgeI: "s' = s \<or> (case op of
      DelegateTask \<Rightarrow> s = TkPending \<and> s' = TkInProgress
    | ClaimTask \<Rightarrow> s = TkPending \<and> s' = TkInProgress
    | SubmitPlan \<Rightarrow> s = TkInProgress \<and> s' = TkPlanReview
    | ReviewPlan \<Rightarrow> s = TkPlanReview \<and> s' \<in> {TkInProgress, TkChangesRequested}
    | SubmitResult \<Rightarrow> s \<in> {TkInProgress, TkChangesRequested} \<and> s' = TkResultReview
    | RetryTask \<Rightarrow> s \<in> {TkFailed, TkCancelled} \<and> s' \<in> {TkPending, TkBlocked}
    | CancelTask \<Rightarrow> s \<noteq> TkAccepted \<and> s' = TkCancelled
    | _ \<Rightarrow> False) \<Longrightarrow> task_edge op s s'"
  by (cases op) (auto simp: task_edge_def)

lemma task_key: "schema_ok db \<Longrightarrow> unique_key tk_id (d_tasks db)"
  by (simp add: schema_defs)

lemma task_moves_same: "schema_ok db \<Longrightarrow> d_tasks db' = d_tasks db \<Longrightarrow> task_moves op db db'"
  by (simp add: row_moves_same task_key)

lemma task_moves_upd:
  assumes "schema_ok db" "\<And>x. tk_id (f x) = tk_id x"
    "\<And>x. x \<in> set (d_tasks db) \<Longrightarrow> P x \<Longrightarrow> task_edge op (tk_status x) (tk_status (f x))"
  shows "row_moves tk_id (\<lambda>x y. task_edge op (tk_status x) (tk_status y)) (d_tasks db)
    (update_where P f (d_tasks db))"
  using assms by (intro row_moves_update task_key) auto

lemma task_moves_ops:
  assumes "schema_ok db"
  shows "delegate_task k l m u v now db = Inr (tv, db') \<Longrightarrow> task_moves DelegateTask db db'"
    "claim_task k m u now db = Inr (tv, db') \<Longrightarrow> task_moves ClaimTask db db'"
    "submit_plan k m plan now db = Inr (tv, db') \<Longrightarrow> task_moves SubmitPlan db db'"
    "review_plan k l acc fb now db = Inr (tv, db') \<Longrightarrow> task_moves ReviewPlan db db'"
    "submit_result k m res ver u now db = Inr (tv, db') \<Longrightarrow> task_moves SubmitResult db db'"
    "retry_task k l now db = Inr (tv, db') \<Longrightarrow> task_moves RetryTask db db'"
    "cancel_task k l why now db = Inr (tv, db') \<Longrightarrow> task_moves CancelTask db db'"
  by ((auto simp: delegate_task_def claim_task_def submit_plan_def review_plan_def submit_result_def
      retry_task_def cancel_task_def err_simps return_Inr Let_def ins_defs touch_team_def
      upd_latest_attempt_def intro!: task_moves_upd [OF assms] task_edgeI split: if_split_asm) [1])+

lemma task_moves_boot: "schema_ok db \<Longrightarrow> task_moves Boot db (team_store_boot now db)"
  by (simp add: team_store_boot_def Let_def) (rule task_moves_upd; simp)

lemma task_moves_create:
  assumes "create_task input uuid now db = Inr (tv, db')" "schema_ok db"
  shows "task_moves CreateTask db db'"
  using create_task_rows(1,3) [OF assms(1)] assms(2)
  by (auto intro!: row_moves_append row_moves_same task_key)

lemma task_moves_review:
  assumes "review_result k l acc fb u now db = Inr (tv, db')" "schema_ok db"
  shows "task_moves ReviewResult db db'"
proof -
  let ?P = "\<lambda>r. tk_id r = k \<and> tk_status r = TkResultReview"
  let ?db1 = "upd_tasks ?P (review_row acc fb now) db"
  have 1: "task_moves ReviewResult db ?db1"
    unfolding upd_tasks_sel by (rule task_moves_upd [OF assms(2)]) (auto simp: task_edge_def)
  have 2: "task_moves ReviewResult db (unblock_dependents k now ?db1)"
    unfolding unblock_dependents_def upd_tasks_sel [of "unblockable k ?db1"]
    by (rule row_moves_update2 [OF 1])
      (auto simp: task_edge_def unblockable_def)
  have "d_tasks db' = d_tasks (if acc then unblock_dependents k now ?db1 else ?db1)"
    using assms(1)
    by (auto simp: review_result_def err_simps return_Inr Let_def ins_defs changes_message_def
        ack_results_def upd_latest_attempt_def split: if_split_asm option.splits)
  then show ?thesis using 1 2 by (cases acc) simp_all
qed

lemma task_moves_fail:
  assumes "fail_active_attempt m kind e now db = Inr (ao, db')" "schema_ok db" "work_ok db"
  shows "task_moves FailAttempt db db'"
proof (cases "active_attempt_for_member m db")
  case None
  then show ?thesis using assms by (simp add: fail_active_attempt_def task_moves_same)
next
  case (Some a)
  have a: "a \<in> set (d_attempts db)" "attempt_active (at_status a)"
    using latest_attempt_SomeD [OF Some [unfolded active_attempt_for_member_def]] by auto
  have "tk_status k \<noteq> TkCancelled" if "k \<in> set (d_tasks db)" "tk_id k = at_task a" for k
    using a that assms(3)
    by (auto simp: work_ok_def attempts_ok_def attempt_open_def attempt_active_def)
  moreover have "d_tasks db' = update_where (\<lambda>k. tk_id k = at_task a)
      (\<lambda>k. k\<lparr>tk_status := TkFailed, tk_updated_at := now\<rparr>) (d_tasks db)"
    using assms(1) Some by (auto simp: fail_active_attempt_def err_simps Let_def)
  ultimately show ?thesis
    using task_moves_upd [OF assms(2), of "\<lambda>k. k\<lparr>tk_status := TkFailed, tk_updated_at := now\<rparr>" "\<lambda>k. tk_id k = at_task a" FailAttempt]
    by (simp add: task_edge_def)
qed

lemma task_moves_remove:
  assumes "remove_teammate t l m now db = Inr (un, db')" "schema_ok db"
  shows "task_moves RemoveTeammate db db'"
proof -
  let ?x = "update_where (\<lambda>k. tk_creator k = m) (\<lambda>k. k\<lparr>tk_creator := l, tk_updated_at := now\<rparr>) (d_tasks db)"
  have 1: "row_moves tk_id (\<lambda>x y. tk_status y = tk_status x) (d_tasks db) ?x"
    by (rule row_moves_update [OF task_key [OF assms(2)]]) simp_all
  have "row_moves tk_id (\<lambda>x y. task_edge RemoveTeammate (tk_status x) (tk_status y)) (d_tasks db)
      (update_where (\<lambda>k. tk_assignee k = Some m) (release_task now) ?x)"
  proof (rule row_moves_update2)
    show "row_moves tk_id (\<lambda>x y. task_edge RemoveTeammate (tk_status x) (tk_status y)) (d_tasks db) ?x"
      using 1 by (simp add: row_moves_def)
    show "task_edge RemoveTeammate (tk_status x) (tk_status (release_task now y))"
      if "x \<in> set (d_tasks db)" "y \<in> set ?x" "tk_id y = tk_id x" for x y
      using row_movesD [OF 1 that] by (simp add: task_edge_def release_task_def)
  qed simp
  moreover have "d_tasks db' = update_where (\<lambda>k. tk_assignee k = Some m) (release_task now) ?x"
    using assms(1) by (auto simp: remove_teammate_def err_simps Let_def del_members_def split: if_split_asm)
  ultimately show ?thesis by simp
qed

lemma task_moves_step:
  assumes "team_step parse op db db'" "schema_ok db" "work_ok db"
  shows "task_moves op db db'"
proof (cases "op \<in> tasks_ops")
  case False
  then show ?thesis using task_moves_same [OF assms(2) frame_tasks [OF assms(1) False]] by simp
next
  case True
  show ?thesis using assms(1) True assms(2,3)
    by (induction rule: team_step.induct)
      (simp_all add: tasks_ops_def task_moves_ops task_moves_create task_moves_review task_moves_fail
        task_moves_remove task_moves_boot)
qed

subsection \<open>Teams\<close>

text \<open>A pending question remembers the status the team resumes: active or verifying.\<close>

definition inputs_ok :: "db \<Rightarrow> bool" where
  "inputs_ok db \<longleftrightarrow> (\<forall>u\<in>set (d_inputs db). ui_resume_status u \<in> {TmActive, TmVerifying})"

lemma inputs_ok_upd:
  "inputs_ok db \<Longrightarrow> (\<And>u. ui_resume_status (f u) = ui_resume_status u) \<Longrightarrow> inputs_ok (upd_inputs P f db)"
  by (simp add: inputs_ok_def ball_update_where)

lemma inputs_ok_frames [simp]:
  "inputs_ok (put_inputs r db) \<longleftrightarrow> inputs_ok db \<and> ui_resume_status r \<in> {TmActive, TmVerifying}"
  "inputs_ok (upd_teams P f db) = inputs_ok db" "inputs_ok (upd_members Q g db) = inputs_ok db"
  "inputs_ok (upd_tasks R h db) = inputs_ok db" "inputs_ok (del_messages T db) = inputs_ok db"
  "inputs_ok (put_members mb db) = inputs_ok db"
  by (auto simp: inputs_ok_def)

lemma inputs_ok_drop: "inputs_ok db \<Longrightarrow> inputs_ok (drop_members P db)"
  by (simp add: inputs_ok_def set_delete_where)

lemma inputs_ok_ops:
  "request_user_input t l ti p u now db = Inr (ui, db') \<Longrightarrow> inputs_ok db \<Longrightarrow> inputs_ok db'"
  "resolve_user_input t i a now db = Inr (ui, db') \<Longrightarrow> inputs_ok db \<Longrightarrow> inputs_ok db'"
  "add_discriminator dreq u now db = Inr (mr, db') \<Longrightarrow> inputs_ok db \<Longrightarrow> inputs_ok db'"
  "remove_discriminators t db = Inr (mrs, db') \<Longrightarrow> inputs_ok db \<Longrightarrow> inputs_ok db'"
  "remove_teammate t l m now db = Inr (un, db') \<Longrightarrow> inputs_ok db \<Longrightarrow> inputs_ok db'"
  by ((auto simp: request_user_input_def resolve_user_input_def add_discriminator_def
      remove_discriminators_def remove_teammate_def err_simps Let_def ins_defs
      intro!: inputs_ok_upd inputs_ok_drop split: if_split_asm) [1])+

lemma inputs_ok_step:
  assumes "team_step parse op db db'" "inputs_ok db"
  shows "inputs_ok db'"
proof (cases "op \<in> inputs_ops")
  case False
  then show ?thesis using assms(2) frame_inputs [OF assms(1) False] by (simp add: inputs_ok_def)
next
  case True
  show ?thesis using assms(1) True assms(2)
    by (induction rule: team_step.induct) (simp_all add: inputs_ops_def inputs_ok_ops)
qed

interpretation user_inputs: invariant_system is_empty_db "team_moves parse" inputs_ok for parse
proof unfold_locales
  show "inputs_ok s" if "is_empty_db s" for s
    using that by (simp add: is_empty_db_def inputs_ok_def empty_db_def)
  show "inputs_ok t" if "inputs_ok s" "team_moves parse s t" for s t
    using that inputs_ok_step by (auto simp: team_moves_def)
qed

definition team_edge :: "team_op \<Rightarrow> team_status \<Rightarrow> team_status \<Rightarrow> bool" where
  "team_edge op s s' \<longleftrightarrow> s' = s \<or> (case op of
      StartTeam \<Rightarrow> s \<in> {TmDraft, TmNeedsAttention} \<and> s' = TmStarting
    | ActivateTeam \<Rightarrow> s = TmStarting \<and> s' = TmActive
    | PauseTeam \<Rightarrow> s \<in> {TmActive, TmVerifying, TmNeedsAttention} \<and> s' = TmPaused
    | ResumeTeam \<Rightarrow> s = TmPaused \<and> s' = TmActive
    | NeedsAttention \<Rightarrow> s \<in> {TmActive, TmVerifying} \<and> s' = TmNeedsAttention
    | AbortStart \<Rightarrow> s \<in> {TmStarting, TmActive} \<and> s' = TmDraft
    | CompleteTeam \<Rightarrow> s = TmActive \<and> s' = TmCompleted
    | Disbanding \<Rightarrow> s \<notin> {TmDisbanding, TmRemoved} \<and> s' = TmDisbanding
    | RequestDiscrimination \<Rightarrow> s = TmActive \<and> s' = TmVerifying
    | SubmitVerdict \<Rightarrow> s' \<in> {TmActive, TmNeedsAttention}
    | RequestInput \<Rightarrow> s \<in> {TmActive, TmVerifying} \<and> s' = TmNeedsAttention
    | ResolveInput \<Rightarrow> s = TmNeedsAttention \<and> s' \<in> {TmActive, TmVerifying}
    | _ \<Rightarrow> False)"

lemma team_edge_refl [simp]: "team_edge op s s"
  by (simp add: team_edge_def)

lemma team_edge_iff:
  "team_edge StartTeam s s' \<longleftrightarrow> s' = s \<or> s \<in> {TmDraft, TmNeedsAttention} \<and> s' = TmStarting"
  "team_edge ActivateTeam s s' \<longleftrightarrow> s' = s \<or> s = TmStarting \<and> s' = TmActive"
  "team_edge PauseTeam s s' \<longleftrightarrow> s' = s \<or> s \<in> {TmActive, TmVerifying, TmNeedsAttention} \<and> s' = TmPaused"
  "team_edge ResumeTeam s s' \<longleftrightarrow> s' = s \<or> s = TmPaused \<and> s' = TmActive"
  "team_edge NeedsAttention s s' \<longleftrightarrow> s' = s \<or> s \<in> {TmActive, TmVerifying} \<and> s' = TmNeedsAttention"
  "team_edge AbortStart s s' \<longleftrightarrow> s' = s \<or> s \<in> {TmStarting, TmActive} \<and> s' = TmDraft"
  "team_edge CompleteTeam s s' \<longleftrightarrow> s' = s \<or> s = TmActive \<and> s' = TmCompleted"
  "team_edge Disbanding s s' \<longleftrightarrow> s' = s \<or> s \<notin> {TmDisbanding, TmRemoved} \<and> s' = TmDisbanding"
  "team_edge RequestDiscrimination s s' \<longleftrightarrow> s' = s \<or> s = TmActive \<and> s' = TmVerifying"
  "team_edge SubmitVerdict s s' \<longleftrightarrow> s' = s \<or> s' \<in> {TmActive, TmNeedsAttention}"
  "team_edge RequestInput s s' \<longleftrightarrow> s' = s \<or> s \<in> {TmActive, TmVerifying} \<and> s' = TmNeedsAttention"
  "team_edge ResolveInput s s' \<longleftrightarrow> s' = s \<or> s = TmNeedsAttention \<and> s' \<in> {TmActive, TmVerifying}"
  by (simp_all add: team_edge_def)

abbreviation team_status_moves :: "team_op \<Rightarrow> db \<Rightarrow> db \<Rightarrow> bool" where
  "team_status_moves op db db' \<equiv>
    row_moves tm_id (\<lambda>x y. team_edge op (tm_status x) (tm_status y)) (d_teams db) (d_teams db')"

lemma team_key: "schema_ok db \<Longrightarrow> unique_key tm_id (d_teams db)"
  by (simp add: schema_defs)

lemma the_team:
  "schema_ok db \<Longrightarrow> row_of tm_id t (d_teams db) = Some team \<Longrightarrow> r \<in> set (d_teams db) \<Longrightarrow> tm_id r = t \<Longrightarrow> r = team"
  using row_of_SomeD team_key unique_key_eqD by metis

lemma team_moves_same: "schema_ok db \<Longrightarrow> d_teams db' = d_teams db \<Longrightarrow> team_status_moves op db db'"
  by (simp add: row_moves_same team_key)

lemma team_moves_upd:
  assumes "schema_ok db" "\<And>x. tm_id (f x) = tm_id x"
    "\<And>x. x \<in> set (d_teams db) \<Longrightarrow> P x \<Longrightarrow> team_edge op (tm_status x) (tm_status (f x))"
  shows "row_moves tm_id (\<lambda>x y. team_edge op (tm_status x) (tm_status y)) (d_teams db)
    (update_where P f (d_teams db))"
  using assms by (intro row_moves_update team_key) auto

lemma team_moves_update_if:
  assumes "update_team_if e t C f db = Inr (r, db')" "schema_ok db" "\<And>x. tm_id (f x) = tm_id x"
    "\<And>x. C x \<Longrightarrow> team_edge op (tm_status x) (tm_status (f x))"
  shows "team_status_moves op db db'"
  unfolding update_team_if_Inr [OF assms(1)] upd_teams_sel
  by (rule team_moves_upd) (use assms(2-4) in auto)

lemma team_moves_status_ops:
  "update_team_settings t p n now db = Inr (r, db') \<Longrightarrow> schema_ok db \<Longrightarrow> team_status_moves UpdateTeamSettings db db'"
  "start_team input now db = Inr (r, db') \<Longrightarrow> schema_ok db \<Longrightarrow> team_status_moves StartTeam db db'"
  "activate_team t now db = Inr (r, db') \<Longrightarrow> schema_ok db \<Longrightarrow> team_status_moves ActivateTeam db db'"
  "pause_team t now db = Inr (r, db') \<Longrightarrow> schema_ok db \<Longrightarrow> team_status_moves PauseTeam db db'"
  "resume_team t now db = Inr (r, db') \<Longrightarrow> schema_ok db \<Longrightarrow> team_status_moves ResumeTeam db db'"
  "mark_team_needs_attention t now db = Inr (r, db') \<Longrightarrow> schema_ok db \<Longrightarrow> team_status_moves NeedsAttention db db'"
  "downgrade_to_standard t a c reason now db = Inr (r, db') \<Longrightarrow> schema_ok db \<Longrightarrow> team_status_moves Downgrade db db'"
  "abort_start t now db = Inr (r, db') \<Longrightarrow> schema_ok db \<Longrightarrow> team_status_moves AbortStart db db'"
  "mark_team_disbanding t now db = Inr (r, db') \<Longrightarrow> schema_ok db \<Longrightarrow> team_status_moves Disbanding db db'"
  by ((auto simp: status_op_defs err_simps Let_def start_row_def startable_def team_moves_same
      elim!: team_moves_update_if intro!: team_edge_iff [THEN iffD2] split: if_split_asm) [1])+

lemma team_moves_touch:
  "schema_ok db \<Longrightarrow> row_moves tm_id (\<lambda>x y. team_edge op (tm_status x) (tm_status y)) (d_teams db)
     (update_where P (\<lambda>r. r\<lparr>tm_updated_at := now\<rparr>) (d_teams db))"
  by (rule team_moves_upd) simp_all

lemma team_moves_work_ops:
  "delegate_task k l m u v now db = Inr (tv, db') \<Longrightarrow> schema_ok db \<Longrightarrow> team_status_moves DelegateTask db db'"
  "cancel_task k l why now db = Inr (tv, db') \<Longrightarrow> schema_ok db \<Longrightarrow> team_status_moves CancelTask db db'"
  "remove_teammate t l m now db = Inr (un, db') \<Longrightarrow> schema_ok db \<Longrightarrow> team_status_moves RemoveTeammate db db'"
  by ((auto simp: delegate_task_def cancel_task_def remove_teammate_def err_simps return_Inr Let_def
      ins_defs touch_team_def intro!: team_moves_touch split: if_split_asm) [1])+

lemma team_moves_create:
  "create_team input u v now db = Inr (r, db') \<Longrightarrow> schema_ok db \<Longrightarrow> team_status_moves CreateTeam db db'"
  by (auto simp: create_team_def err_simps return_Inr ins_defs
      intro!: row_moves_append row_moves_same team_key split: if_split_asm)

lemma team_moves_boot: "schema_ok db \<Longrightarrow> team_status_moves Boot db (team_store_boot now db)"
  by (simp add: team_store_boot_def Let_def) (rule team_moves_upd; simp add: boot_mode_def)

lemma team_moves_complete:
  assumes "complete_team t l s fp now db = Inr (r, db')" "schema_ok db"
  shows "team_status_moves CompleteTeam db db'"
proof -
  obtain team where team: "row_of tm_id t (d_teams db) = Some team" "tm_status team = TmActive"
    and db': "d_teams db' = update_where (\<lambda>r. tm_id r = t) (complete_row s fp now) (d_teams db)"
    using assms(1) by (auto simp: complete_team_def err_simps return_Inr Let_def)
  show ?thesis
    unfolding db'
    by (rule team_moves_upd [OF assms(2)])
      (use the_team [OF assms(2) team(1)] team(2) in \<open>auto simp: complete_row_def team_edge_iff\<close>)
qed

lemma team_moves_request_input:
  assumes "request_user_input t l ti p u now db = Inr (r, db')" "schema_ok db"
  shows "team_status_moves RequestInput db db'"
proof -
  obtain team where team: "row_of tm_id t (d_teams db) = Some team" "tm_status team \<in> {TmActive, TmVerifying}"
    and db': "d_teams db' = update_where (\<lambda>r. tm_id r = t) (set_status TmNeedsAttention now) (d_teams db)"
    using assms(1) by (auto simp: request_user_input_def err_simps Let_def ins_inputs_def split: if_split_asm)
  show ?thesis
    unfolding db'
    by (rule team_moves_upd [OF assms(2)])
      (use the_team [OF assms(2) team(1)] team(2) in \<open>auto simp: team_edge_iff\<close>)
qed

lemma discrimination_budget_Inr:
  "discrimination_budget t db = Inr (n, m) \<Longrightarrow> \<exists>team. row_of tm_id t (d_teams db) = Some team
     \<and> tm_mode team = Yolo \<and> tm_status team = TmActive \<and> n = tm_current_round team
     \<and> m = tm_max_review_rounds team \<and> n < m \<and> required_tasks_are_accepted t db"
  by (auto simp: discrimination_budget_def err_simps)

lemma team_moves_request_discrimination:
  assumes "request_discrimination t l d fp u now db = Inr (r, db')" "schema_ok db"
  shows "team_status_moves RequestDiscrimination db db'"
proof -
  obtain n m where b: "discrimination_budget t db = Inr (n, m)"
    and db': "d_teams db' = update_where (\<lambda>r. tm_id r = t) (\<lambda>r. r\<lparr>tm_status := TmVerifying,
        tm_current_round := n + 1, tm_fingerprint := Some fp, tm_updated_at := now\<rparr>) (d_teams db)"
    using assms(1)
    by (auto simp: request_discrimination_def err_simps Let_def ins_rounds_def split: if_split_asm)
  obtain team where "row_of tm_id t (d_teams db) = Some team" "tm_status team = TmActive"
    using discrimination_budget_Inr [OF b] by auto
  then show ?thesis
    unfolding db'
    by (intro team_moves_upd [OF assms(2)])
      (use the_team [OF assms(2)] in \<open>fastforce simp: team_edge_iff\<close>)+
qed

lemma team_moves_verdict:
  "submit_discrimination_verdict i d p v e now db = Inr (r, db') \<Longrightarrow> schema_ok db \<Longrightarrow> team_status_moves SubmitVerdict db db'"
  by (auto simp: submit_discrimination_verdict_def err_simps Let_def
      intro!: team_moves_upd team_edge_iff [THEN iffD2])

lemma team_moves_resolve_input:
  assumes "resolve_user_input t i a now db = Inr (r, db')" "schema_ok db" "inputs_ok db"
  shows "team_status_moves ResolveInput db db'"
proof -
  let ?P = "\<lambda>u. ui_id u = i \<and> ui_team u = t \<and> ui_status u = UiPending"
  let ?db1 = "upd_inputs ?P (\<lambda>u. u\<lparr>ui_status := UiResolved, ui_answer := Some (trim a), ui_resolved_at := Some now\<rparr>) db"
  have ok: "inputs_ok ?db1" using assms(3) by (rule inputs_ok_upd) simp
  consider "d_teams db' = d_teams db"
    | u where "row_of ui_id i (d_inputs ?db1) = Some u"
        "d_teams db' = update_where (\<lambda>r. tm_id r = t \<and> tm_status r = TmNeedsAttention)
          (set_status (ui_resume_status u) now) (d_teams db)"
    using assms(1) unfolding resolve_user_input_def Let_def
    by (auto simp: err_simps split: if_split_asm)
  then show ?thesis
  proof cases
    case 1
    then show ?thesis using team_moves_same [OF assms(2)] by simp
  next
    case 2
    have "ui_resume_status u \<in> {TmActive, TmVerifying}"
      using ok row_of_SomeD [OF 2(1)] unfolding inputs_ok_def by blast
    then show ?thesis
      unfolding 2(2) by (intro team_moves_upd [OF assms(2)]) (auto simp: team_edge_iff)
  qed
qed

lemma team_moves_step:
  assumes "team_step parse op db db'" "schema_ok db" "inputs_ok db"
  shows "team_status_moves op db db'"
proof (cases "op \<in> teams_ops")
  case False
  then show ?thesis using team_moves_same [OF assms(2) frame_teams [OF assms(1) False]] by simp
next
  case True
  show ?thesis using assms(1) True assms(2,3)
    by (induction rule: team_step.induct)
      (simp_all add: teams_ops_def team_moves_status_ops team_moves_work_ops team_moves_create
        team_moves_boot team_moves_complete team_moves_request_input team_moves_request_discrimination
        team_moves_verdict team_moves_resolve_input)
qed

end
