(* ===== verification/TeamProperties.thy ===== *)
theory TeamProperties
  imports TeamScenario TeamEdges
begin

text \<open>
  The properties of the team store over its reachable databases and over single operations, each
  followed by a witness on the run of \<open>TeamScenario\<close>.
\<close>

subsection \<open>Reachable databases\<close>

lemma reachable_inv: "reaches (team_moves parse) empty_db db \<Longrightarrow> team_inv parse db"
  using team_store.inv_reachable [of empty_db parse db] by (simp add: is_empty_db_def)

lemma member_roles_unique:
  assumes "team_inv parse db" "t \<in> set (d_teams db)"
  shows "\<exists>!m. m \<in> set (d_members db) \<and> mb_team m = tm_id t \<and> mb_role m = Leader"
proof -
  have l: "leaders_ok db" and key: "unique_key mb_id (d_members db)"
    using assms(1) by (simp_all add: team_inv_def schema_defs)
  then obtain m where m: "m \<in> set (d_members db)" "mb_id m = tm_leader t" "mb_team m = tm_id t" "mb_role m = Leader"
    using assms(2) by (auto simp: leaders_ok_def)
  have "n = m" if "n \<in> set (d_members db)" "mb_team n = tm_id t" "mb_role n = Leader" for n
  proof -
    have "tm_leader t = mb_id n" using l that assms(2) by (auto simp: leaders_ok_def)
    then show ?thesis using key m that(1) by (auto dest: unique_key_eqD)
  qed
  with m show ?thesis by blast
qed

text \<open>
  C1: in every database the operations of the team store can produce, the roster is sound: a team
  has exactly one leader, at most eight teammates, and its settings stay in the ranges the start
  request is checked against; in particular the review rounds never exceed their budget of at
  most ten.
\<close>

theorem roster_sound:
  assumes "reaches (team_moves parse) empty_db db" "t \<in> set (d_teams db)"
  shows "(\<exists>!m. m \<in> set (d_members db) \<and> mb_team m = tm_id t \<and> mb_role m = Leader)
    \<and> teammate_count (tm_id t) db \<le> 8
    \<and> 1 \<le> tm_max_parallel_runs t \<and> tm_max_parallel_runs t \<le> 8
    \<and> 1 \<le> tm_max_teammates t \<and> tm_max_teammates t \<le> 8
    \<and> tm_current_round t \<le> tm_max_review_rounds t \<and> tm_max_review_rounds t \<le> 10"
  using reachable_inv [OF assms(1)] member_roles_unique [OF reachable_inv [OF assms(1)] assms(2)] assms(2)
  by (simp add: team_inv_def limits_ok_def team_limits_def teammates_ok_def MAX_TEAMMATES_def)

theorem roster_sound_witness:
  "\<exists>t\<in>set (d_teams (after run2)). teammate_count (tm_id t) (after run2) = 1
     \<and> teammate_count (tm_id t) (after run2) \<le> 8 \<and> tm_max_review_rounds t \<le> 10"
proof -
  have "list_ex (\<lambda>t. teammate_count (tm_id t) (after run2) = 1) (d_teams (after run2))" by code_simp
  then obtain t where "t \<in> set (d_teams (after run2))" "teammate_count (tm_id t) (after run2) = 1"
    by (auto simp: list_ex_iff)
  then show ?thesis using roster_sound [OF run2_reachable [of any_option]] by blast
qed

text \<open>
  C12: the state of every task row is consistent in every reachable database: a task counts towards
  completion exactly when it is not cancelled, work in progress or under review has an assignee,
  that assignee is a teammate of the task's own team, and a pending, blocked or cancelled task is
  assigned to nobody.
\<close>

theorem task_rows_consistent:
  assumes "reaches (team_moves parse) empty_db db" "k \<in> set (d_tasks db)"
  shows "(tk_required k \<longleftrightarrow> tk_status k \<noteq> TkCancelled)
    \<and> (in_work (tk_status k) \<longrightarrow> tk_assignee k \<noteq> None)
    \<and> (\<forall>m. tk_assignee k = Some m \<longrightarrow> has_role (tk_team k) m Teammate db)
    \<and> (unassigned (tk_status k) \<longrightarrow> tk_assignee k = None)
    \<and> has_role (tk_team k) (tk_creator k) Leader db"
  using reachable_inv [OF assms(1)] assms(2)
  by (auto simp: team_inv_def work_ok_def tasks_ok_def task_row_ok_def scope_ok_def task_scope_def)

theorem task_rows_consistent_witness:
  "\<exists>k\<in>set (d_tasks (after (run6 Standard))). in_work (tk_status k) \<and> tk_assignee k \<noteq> None"
proof -
  have "list_ex (\<lambda>k. in_work (tk_status k)) (d_tasks (after (run6 Standard)))" by code_simp
  then obtain k where "k \<in> set (d_tasks (after (run6 Standard)))" "in_work (tk_status k)"
    by (auto simp: list_ex_iff)
  then show ?thesis using task_rows_consistent [OF run6_reachable [of any_option]] by blast
qed

text \<open>
  C11: the dependency graph among tasks never has a cycle, and a dependency joins two tasks of one
  team: the loop that waits for dependencies cannot wait for itself.
\<close>

theorem dependencies_acyclic:
  assumes "reaches (team_moves parse) empty_db db"
  shows "acyclic (set (d_deps db))
    \<and> (\<forall>d\<in>set (d_deps db). \<exists>t. task_in_team t (fst d) db \<and> task_in_team t (snd d) db)"
  using reachable_inv [OF assms] by (simp add: team_inv_def deps_acyclic_def scope_ok_def)

definition "run9 = create_task (task_of [''k'']) ''k2'' 9 (after (run8 Standard))"

lemma run9_succeeds: "succeeds run9"
  by code_simp

lemma run9_reachable: "reaches (team_moves parse) empty_db (after run9)"
  by (rule moves [OF run9_succeeds _ run8_reachable]) (auto simp: run9_def intro: do_create_task)

theorem dependencies_acyclic_witness:
  "(''k2'', ''k'') \<in> set (d_deps (after run9)) \<and> acyclic (set (d_deps (after run9)))"
proof
  have "List.member (d_deps (after run9)) (''k2'', ''k'')" by code_simp
  then show "(''k2'', ''k'') \<in> set (d_deps (after run9))" by simp
qed (use dependencies_acyclic [OF run9_reachable [of any_option]] in blast)



text \<open>
  C21: messages and attempts stay inside a team: sender and recipient of a message are members of the
  message's team and a task it names belongs to that team; an attempt belongs to a teammate and a
  task of its team.
\<close>

theorem rows_stay_in_team:
  assumes "reaches (team_moves parse) empty_db db"
  shows "(\<forall>x\<in>set (d_messages db). in_team (ms_team x) (ms_from x) db \<and> in_team (ms_team x) (ms_to x) db
      \<and> (\<forall>k. ms_task x = Some k \<longrightarrow> task_in_team (ms_team x) k db))
    \<and> (\<forall>a\<in>set (d_attempts db). task_in_team (at_team a) (at_task a) db
      \<and> has_role (at_team a) (at_member a) Teammate db)"
  using reachable_inv [OF assms] by (simp add: team_inv_def scope_ok_def message_scope_def attempt_scope_def)

theorem rows_stay_in_team_witness:
  "\<exists>x\<in>set (d_messages (after (run7 Standard))). in_team (ms_team x) (ms_to x) (after (run7 Standard))"
proof -
  have "0 < length (d_messages (after (run7 Standard)))" by code_simp
  then obtain x where "x \<in> set (d_messages (after (run7 Standard)))"
    by (cases "d_messages (after (run7 Standard))") auto
  then show ?thesis using rows_stay_in_team [OF run7_reachable [of any_option]] by blast
qed

text \<open>
  C22: a resolved permission request names an option the Agent offered and says who decided, and it
  has a resolution time exactly when it is resolved or cancelled, in every reachable database.
\<close>

theorem permissions_decided:
  assumes "reaches (team_moves parse) empty_db db" "p \<in> set (d_permissions db)"
  shows "(pr_status p = PrResolved \<longrightarrow>
       (\<exists>opt ids. pr_selected p = Some opt \<and> parse (pr_options_json p) = Inr ids \<and> Some opt \<in> set ids)
       \<and> pr_decided_by p \<in> {Some ''leader'', Some ''user''})
    \<and> (pr_resolved_at p \<noteq> None \<longleftrightarrow> pr_status p \<in> {PrResolved, PrCancelled})"
proof -
  have "permission_ok parse p"
    using reachable_inv [OF assms(1)] assms(2) by (simp add: team_inv_def permissions_ok_def)
  then show ?thesis
    by (cases "parse (pr_options_json p)")
      (auto simp: permission_ok_def permission_final_def validate_permission_option_def err_simps)
qed

definition "ask1 = create_permission_request \<lparr>np_id = ''q'', np_team = ''t'', np_member = ''m'',
  np_conversation = ''c1'', np_run = ''r'', np_tool = ''bash'', np_input_json = ''{}'',
  np_options_json = ''[]''\<rparr> 3 (after run2)"
definition "ask2 = resolve_permission_as_leader any_option ''q'' ''l'' ''allow'' None 4 (after ask1)"

lemma ask_succeeds: "succeeds ask1" "succeeds ask2"
  by code_simp+

lemma ask2_reachable: "reaches (team_moves any_option) empty_db (after ask2)"
proof -
  have "reaches (team_moves any_option) empty_db (after ask1)"
    by (rule moves [OF ask_succeeds(1) _ run2_reachable]) (auto simp: ask1_def intro: do_create_permission)
  then show ?thesis
    by (rule moves [OF ask_succeeds(2), rotated]) (auto simp: ask2_def intro: do_leader_resolves)
qed

theorem permissions_decided_witness:
  "\<exists>p\<in>set (d_permissions (after ask2)). pr_decided_by p \<in> {Some ''leader'', Some ''user''}"
proof -
  have "list_ex (\<lambda>p. pr_status p = PrResolved) (d_permissions (after ask2))" by code_simp
  then obtain p where "p \<in> set (d_permissions (after ask2))" "pr_status p = PrResolved"
    by (auto simp: list_ex_iff)
  then show ?thesis using permissions_decided [OF ask2_reachable] by blast
qed

subsection \<open>Moves\<close>

lemma reachable_inputs: "reaches (team_moves parse) empty_db db \<Longrightarrow> inputs_ok db"
  using user_inputs.inv_reachable [of empty_db parse db] by (simp add: is_empty_db_def)

text \<open>
  C15: no operation takes a message out of a final delivery state: once acknowledged or cancelled it
  stays so, and otherwise it moves along the edges pending, delivered, failed.
\<close>

theorem message_delivery_moves:
  assumes "reaches (team_moves parse) empty_db db" "team_step parse op db db'"
    "x \<in> set (d_messages db)" "y \<in> set (d_messages db')" "ms_id y = ms_id x"
  shows "delivery_edge (ms_delivery x) (ms_delivery y)
    \<and> (ms_delivery x \<in> {DvAcknowledged, DvCancelled} \<longrightarrow> ms_delivery y = ms_delivery x)"
proof -
  have inv: "mailbox_ok db" "schema_ok db" using reachable_inv [OF assms(1)] by (simp_all add: team_inv_def)
  have "delivery_edge (ms_delivery x) (ms_delivery y)"
    using row_movesD [OF message_moves_step [OF assms(2) inv] assms(3-5)] .
  then show ?thesis using delivery.final_stays by (auto simp: delivery_final_def)
qed

lemma step_of_run8: "team_step parse ReviewResult (after (run7 Standard)) (after (run8 Standard))"
  using succeeds_after [of "run8 Standard"] run_succeeds by (metis do_review_result run8_def)

theorem message_delivery_moves_witness:
  "\<exists>x\<in>set (d_messages (after (run7 Standard))). \<exists>y\<in>set (d_messages (after (run8 Standard))).
     ms_id y = ms_id x \<and> ms_delivery y = DvAcknowledged \<and> delivery_edge (ms_delivery x) (ms_delivery y)"
proof -
  have "list_ex (\<lambda>x. list_ex (\<lambda>y. ms_id y = ms_id x \<and> ms_delivery y = DvAcknowledged)
      (d_messages (after (run8 Standard)))) (d_messages (after (run7 Standard)))" by code_simp
  then show ?thesis
    using message_delivery_moves [OF run7_reachable [of any_option] step_of_run8] by (fastforce simp: list_ex_iff)
qed

text \<open>
  C4: each operation moves the status of a task only along its own edges of the task machine, and
  an accepted task stays accepted under every operation but one: reporting the failure of its
  active attempt.
\<close>

theorem task_status_moves:
  assumes "reaches (team_moves parse) empty_db db" "team_step parse op db db'"
    "k \<in> set (d_tasks db)" "k' \<in> set (d_tasks db')" "tk_id k' = tk_id k"
  shows "task_edge op (tk_status k) (tk_status k')
    \<and> (tk_status k = TkAccepted \<and> op \<noteq> FailAttempt \<longrightarrow> tk_status k' = TkAccepted)"
proof -
  have inv: "schema_ok db" "work_ok db" using reachable_inv [OF assms(1)] by (simp_all add: team_inv_def)
  have "task_edge op (tk_status k) (tk_status k')"
    using row_movesD [OF task_moves_step [OF assms(2) inv] assms(3-5)] .
  then show ?thesis by (auto simp: task_edge_def released_def split: team_op.splits)
qed

theorem task_status_moves_witness:
  "\<exists>k\<in>set (d_tasks (after (run7 Standard))). \<exists>k'\<in>set (d_tasks (after (run8 Standard))).
     tk_id k' = tk_id k \<and> tk_status k' = TkAccepted \<and> task_edge ReviewResult (tk_status k) (tk_status k')"
proof -
  have "list_ex (\<lambda>k. list_ex (\<lambda>k'. tk_id k' = tk_id k \<and> tk_status k' = TkAccepted)
      (d_tasks (after (run8 Standard)))) (d_tasks (after (run7 Standard)))" by code_simp
  then show ?thesis
    using task_status_moves [OF run7_reachable [of any_option] step_of_run8] by (fastforce simp: list_ex_iff)
qed

text \<open>
  C20: each operation moves the status of a team only along its own edges of the team machine.  A
  completed team is left only by disbanding it, or by a discrimination verdict that is still
  outstanding.
\<close>

theorem team_status_moves_on_edges:
  assumes "reaches (team_moves parse) empty_db db" "team_step parse op db db'"
    "t \<in> set (d_teams db)" "t' \<in> set (d_teams db')" "tm_id t' = tm_id t"
  shows "team_edge op (tm_status t) (tm_status t')
    \<and> (tm_status t = TmCompleted \<and> op \<notin> {Disbanding, SubmitVerdict} \<longrightarrow> tm_status t' = TmCompleted)"
proof -
  have "schema_ok db" using reachable_inv [OF assms(1)] by (simp add: team_inv_def)
  then have "team_edge op (tm_status t) (tm_status t')"
    using row_movesD [OF team_moves_step [OF assms(2) _ reachable_inputs [OF assms(1)]] assms(3-5)] by blast
  then show ?thesis by (auto simp: team_edge_def split: team_op.splits)
qed

definition "pause1 = pause_team ''t'' 9 (after (run8 Standard))"

lemma pause1_step: "team_step parse PauseTeam (after (run8 Standard)) (after pause1)"
proof -
  have "succeeds pause1" by code_simp
  then show ?thesis using succeeds_after [of pause1] by (metis do_pause_team pause1_def)
qed

theorem team_status_moves_on_edges_witness:
  "\<exists>t\<in>set (d_teams (after (run8 Standard))). \<exists>t'\<in>set (d_teams (after pause1)).
     tm_id t' = tm_id t \<and> tm_status t' = TmPaused \<and> team_edge PauseTeam (tm_status t) (tm_status t')"
proof -
  have "list_ex (\<lambda>t. list_ex (\<lambda>t'. tm_id t' = tm_id t \<and> tm_status t' = TmPaused)
      (d_teams (after pause1))) (d_teams (after (run8 Standard)))" by code_simp
  then show ?thesis
    using team_status_moves_on_edges [OF run8_reachable [of any_option] pause1_step] by (fastforce simp: list_ex_iff)
qed

end
