(* ===== verification/TeamBehaviour.thy ===== *)
theory TeamBehaviour
  imports TeamScenario TeamEdges
begin

text \<open>
  What single operations of the team store do: completion, claiming, the retry budget of
  lifecycle operations, the release of dependents, removal of a teammate, start-up, the mailbox,
  and the branches where the code refuses or does more than its callers expect.
\<close>

subsection \<open>Completion\<close>

lemma the_row:
  "unique_key key rows \<Longrightarrow> row_of key k rows = Some r \<Longrightarrow> s \<in> set rows \<Longrightarrow> key s = k \<Longrightarrow> s = r"
  using row_of_SomeD [of key k rows r] unique_key_eqD [of key rows s r] by simp

lemma count_where_eq_iff:
  "(\<And>r. Q r \<Longrightarrow> P r) \<Longrightarrow> count_where P rows = count_where Q rows \<longleftrightarrow> (\<forall>r\<in>set rows. P r \<longrightarrow> Q r)"
proof (induction rows)
  case (Cons r rows)
  have "count_where Q rows \<le> count_where P rows" using Cons.prems by (rule count_where_mono)
  then show ?case using Cons by auto
qed simp

lemma count_where_pos: "0 < count_where P rows \<longleftrightarrow> (\<exists>r\<in>set rows. P r)"
  by (auto simp: count_where_def filter_empty_conv)

lemma required_all_accepted:
  "required_count t db = accepted_count t db \<longleftrightarrow>
     (\<forall>k\<in>set (d_tasks db). tk_team k = t \<and> tk_required k \<longrightarrow> tk_status k = TkAccepted)"
  unfolding required_count_def accepted_count_def by (subst count_where_eq_iff) auto

lemma complete_team_total:
  "(\<exists>r db'. complete_team t l s fp now db = Inr (r, db')) \<longleftrightarrow>
     member_role t l db = Inr Leader \<and>
     (\<exists>team. row_of tm_id t (d_teams db) = Some team \<and> tm_status team = TmActive
        \<and> (tm_mode team = Yolo \<longrightarrow> map_option rd_fingerprint (last_passed t db) = Some fp)) \<and>
     required_count t db \<noteq> 0 \<and> required_count t db = accepted_count t db \<and> unresolved_count t db = 0"
proof -
  have found: "\<exists>r. row_of tm_id t (update_where (\<lambda>r. tm_id r = t) (complete_row s fp now) (d_teams db)) = Some r"
    if "row_of tm_id t (d_teams db) = Some team" for team
  proof -
    have "has_key tm_id t (d_teams db)" using row_of_SomeD [OF that] by (auto simp: has_key_iff)
    then show ?thesis by (intro row_of_exists) (simp add: has_key_update_where complete_row_def)
  qed
  show ?thesis
    using found
    by (auto simp: complete_team_def err_simps Let_def return_Inr get_team_def require_leader_Inr)
qed

text \<open>
  C14: a team is completed exactly when its leader asks while the team is active, at least one task
  is required and every required task is accepted, no permission, message, experiment or wait of
  the team is still open, and in YOLO mode the last passed discrimination round checked this very
  workspace fingerprint.
\<close>

theorem completion_criterion:
  "(\<exists>r db'. complete_team t l s fp now db = Inr (r, db')) \<longleftrightarrow>
     member_role t l db = Inr Leader \<and>
     (\<exists>team. row_of tm_id t (d_teams db) = Some team \<and> tm_status team = TmActive
        \<and> (tm_mode team = Yolo \<longrightarrow> map_option rd_fingerprint (last_passed t db) = Some fp)) \<and>
     (\<exists>k\<in>set (d_tasks db). tk_team k = t \<and> tk_required k) \<and>
     (\<forall>k\<in>set (d_tasks db). tk_team k = t \<and> tk_required k \<longrightarrow> tk_status k = TkAccepted) \<and>
     (\<forall>p\<in>set (d_permissions db). pr_team p = t \<longrightarrow> pr_status p \<notin> {PrPendingLeader, PrWaitingUser}) \<and>
     (\<forall>x\<in>set (d_messages db). ms_team x = t \<longrightarrow> ms_delivery x \<notin> {DvPending, DvDelivered, DvFailed}) \<and>
     (\<forall>e\<in>set (d_experiments db). ex_team e = Some t \<longrightarrow> \<not> is_active (ex_state e) \<and> ex_analysis e \<noteq> AnPending) \<and>
     (\<forall>w\<in>set (d_waits db). wt_team w = t \<longrightarrow> wt_state w \<noteq> WtOpen)"
proof -
  have req: "required_count t db \<noteq> 0 \<longleftrightarrow> (\<exists>k\<in>set (d_tasks db). tk_team k = t \<and> tk_required k)"
    by (auto simp: required_count_def)
  have open_work: "unresolved_count t db = 0 \<longleftrightarrow>
     (\<forall>p\<in>set (d_permissions db). pr_team p = t \<longrightarrow> pr_status p \<notin> {PrPendingLeader, PrWaitingUser}) \<and>
     (\<forall>x\<in>set (d_messages db). ms_team x = t \<longrightarrow> ms_delivery x \<notin> {DvPending, DvDelivered, DvFailed}) \<and>
     (\<forall>e\<in>set (d_experiments db). ex_team e = Some t \<longrightarrow> \<not> is_active (ex_state e) \<and> ex_analysis e \<noteq> AnPending) \<and>
     (\<forall>w\<in>set (d_waits db). wt_team w = t \<longrightarrow> wt_state w \<noteq> WtOpen)"
    by (simp add: unresolved_count_def open_permission_def undelivered_def)
  show ?thesis
    by (simp only: complete_team_total required_all_accepted req open_work)
qed

definition "finish1 = complete_team ''t'' ''l'' ''summary'' ''fp'' 9 (after (run8 Standard))"

theorem completion_criterion_witness:
  "\<exists>k\<in>set (d_tasks (after (run8 Standard))). tk_team k = ''t'' \<and> tk_required k \<and> tk_status k = TkAccepted"
proof -
  have "succeeds finish1" by code_simp
  then have "\<exists>r db'. finish1 = Inr (r, db')" using succeeds_after by blast
  then show ?thesis unfolding finish1_def completion_criterion by blast
qed

subsection \<open>Claiming\<close>

lemma claim_task_Inr:
  assumes "claim_task k m u now db = Inr (v, db')"
  shows "\<exists>t. task_team_id k db = Inr t \<and> d_members db' = d_members db
    \<and> d_tasks db' = update_where (\<lambda>r. tk_id r = k \<and> tk_status r = TkPending \<and> tk_assignee r = None)
        (assign_row m now) (d_tasks db)
    \<and> (\<exists>r\<in>set (d_tasks db). tk_id r = k \<and> tk_status r = TkPending \<and> tk_assignee r = None)
    \<and> row_of tk_id k (d_tasks db') = Some (tv_task v)"
  using assms
  by (auto simp: claim_task_def err_simps Let_def return_Inr ins_defs get_task_def split: if_split_asm)

lemma claim_task_row:
  assumes "claim_task k m u now db = Inr (v, db')" "schema_ok db"
  shows "tk_status (tv_task v) = TkInProgress" "tk_assignee (tv_task v) = Some m"
    "\<forall>r\<in>set (d_tasks db'). tk_id r = k \<longrightarrow> tk_status r = TkInProgress"
    "row_of tk_id k (d_tasks db') = Some (tv_task v)"
proof -
  note claim = claim_task_Inr [OF assms(1)]
  obtain r where r: "r \<in> set (d_tasks db)" "tk_id r = k" "tk_status r = TkPending" "tk_assignee r = None"
    using claim by blast
  have only: "s = r" if "s \<in> set (d_tasks db)" "tk_id s = k" for s
    using that r same_task [OF assms(2)] by blast
  have rows: "d_tasks db' = update_where (\<lambda>r. tk_id r = k \<and> tk_status r = TkPending \<and> tk_assignee r = None)
        (assign_row m now) (d_tasks db)"
    using claim by blast
  have all: "s = assign_row m now r" if mem: "s \<in> set (d_tasks db')" and sid: "tk_id s = k" for s
  proof -
    obtain z where z: "z \<in> set (d_tasks db)"
      "s = (if tk_id z = k \<and> tk_status z = TkPending \<and> tk_assignee z = None then assign_row m now z else z)"
      using mem unfolding rows update_where_set by blast
    then have "tk_id z = k" using sid by (simp split: if_split_asm)
    then have "z = r" using only z(1) by blast
    then show ?thesis using z(2) r by simp
  qed
  show row: "row_of tk_id k (d_tasks db') = Some (tv_task v)" using claim by blast
  have v: "tv_task v = assign_row m now r" using all row_of_SomeD [OF row] by blast
  show "tk_status (tv_task v) = TkInProgress" "tk_assignee (tv_task v) = Some m" by (simp_all add: v)
  show "\<forall>r\<in>set (d_tasks db'). tk_id r = k \<longrightarrow> tk_status r = TkInProgress"
  proof (intro ballI impI)
    fix x assume "x \<in> set (d_tasks db')" "tk_id x = k"
    then have "x = assign_row m now r" by (rule all)
    then show "tk_status x = TkInProgress" by simp
  qed
qed

text \<open>
  A task is claimed once: a successful claim assigns it to the claiming teammate in progress, and
  until some operation releases it every further claim, by any teammate, and every delegation by a
  leader is refused as unavailable.
\<close>

theorem claim_exclusive:
  assumes "claim_task k m u now db = Inr (v, db')" "schema_ok db"
    "member_role (tk_team (tv_task v)) m' db' = Inr Teammate"
    "member_role (tk_team (tv_task v)) l db' = Inr Leader"
  shows "tk_status (tv_task v) = TkInProgress \<and> tk_assignee (tv_task v) = Some m
    \<and> claim_task k m' u' now' db' = Inl TaskUnavailable
    \<and> delegate_task k l m' u' u'' now' db' = Inl TaskUnavailable"
proof -
  note row = claim_task_row [OF assms(1,2)]
  have "task_team_id k db' = Inr (tk_team (tv_task v))" using row(4) by (simp add: task_team_id_def)
  moreover have "changed (\<lambda>r. tk_id r = k \<and> tk_status r = TkPending \<and> tk_assignee r = None) (d_tasks db') = 0"
    "changed (\<lambda>r. tk_id r = k \<and> tk_status r = TkPending) (d_tasks db') = 0"
    using row(3) by auto
  ultimately have "claim_task k m' u' now' db' = Inl TaskUnavailable"
    "delegate_task k l m' u' u'' now' db' = Inl TaskUnavailable"
    using assms(3,4)
    by (simp_all only: claim_task_def delegate_task_def require_teammate_def require_leader_def
        ebind_simps guard_simps Let_def simp_thms)
  then show ?thesis using row(1,2) by simp
qed

theorem claim_exclusive_witness:
  "\<exists>v. run6 Standard = Inr (v, after (run6 Standard))
     \<and> claim_task ''k'' ''m'' ''a2'' 7 (after (run6 Standard)) = Inl TaskUnavailable"
proof -
  have ok: "succeeds (run6 Standard)" by (rule run_succeeds)
  obtain v where v: "run6 Standard = Inr (v, after (run6 Standard))" using succeeds_after [OF ok] by blast
  have schema: "schema_ok (after (run5 Standard))"
    using team_store.inv_reachable [OF _ run5_reachable [of any_option]]
    by (simp add: is_empty_db_def team_inv_def)
  note row = claim_task_row [OF v [unfolded run6_def] schema]
  have "map_option tk_team (row_of tk_id ''k'' (d_tasks (after (run6 Standard)))) = Some ''t''" by code_simp
  then have team: "tk_team (tv_task v) = ''t''" using row(4) by (simp add: run6_def)
  have roles: "member_role ''t'' ''m'' (after (run6 Standard)) = Inr Teammate"
    "member_role ''t'' ''l'' (after (run6 Standard)) = Inr Leader" by code_simp+
  show ?thesis
    using claim_exclusive [OF v [unfolded run6_def] schema, of "''m''" "''l''"] roles team v
    by (auto simp: run6_def)
qed

subsection \<open>Lifecycle operations\<close>

text \<open>One try of a lifecycle operation that fails: it is marked running, then failed.\<close>

definition failing_try :: "string \<Rightarrow> string \<Rightarrow> nat \<Rightarrow> db \<Rightarrow> team_error + (lifecycle_op \<times> db)" where
  "failing_try i err now db =
    ebind (mark_lifecycle_operation_running i now db) (\<lambda>r.
    mark_lifecycle_operation_failed i err now (snd r))"

fun failing_tries :: "string \<Rightarrow> string \<Rightarrow> nat list \<Rightarrow> db \<Rightarrow> team_error + db" where
  "failing_tries i err [] db = Inr db"
| "failing_tries i err (t # ts) db = ebind (failing_try i err t db) (\<lambda>r. failing_tries i err ts (snd r))"

definition waiting_lop :: "string \<Rightarrow> nat \<Rightarrow> db \<Rightarrow> bool" where
  "waiting_lop i n db \<longleftrightarrow> unique_key lo_id (d_lops db) \<and>
     (\<exists>p. row_of lo_id i (d_lops db) = Some p \<and> lo_attempts p = n
        \<and> lo_status p \<in> {LsPending, LsRetryScheduled})"

lemma row_of_update_match:
  assumes "unique_key key rows" "row_of key k rows = Some r" "C r" "\<And>x. key (f x) = key x"
  shows "row_of key k (update_where (\<lambda>x. key x = k \<and> C x) f rows) = Some (f r)"
  using assms row_of_SomeD [OF assms(2)] by (simp add: row_of_update_where)

lemma failing_try_result:
  assumes "unique_key lo_id (d_lops db)" "row_of lo_id i (d_lops db) = Some p"
    "lo_status p \<in> {LsPending, LsRetryScheduled}"
  shows "\<exists>q db'. failing_try i err now db = Inr (q, db') \<and> unique_key lo_id (d_lops db')
    \<and> row_of lo_id i (d_lops db') = Some q \<and> lo_attempts q = lo_attempts p + 1
    \<and> lo_status q = (if lo_attempts p < 5 then LsRetryScheduled else LsFailed)
    \<and> lo_next_attempt_at q = map_option (\<lambda>d. now + d) (retry_delay (lo_attempts p + 1))"
proof -
  let ?run = "\<lambda>p. p\<lparr>lo_status := LsRunning, lo_attempts := lo_attempts p + 1, lo_next_attempt_at := None, lo_updated_at := now\<rparr>"
  let ?db1 = "upd_lops (\<lambda>x. lo_id x = i \<and> lo_status x \<in> {LsPending, LsRetryScheduled}) ?run db"
  let ?q = "failed_lop (retry_delay (lo_attempts p + 1)) err now (?run p)"
  let ?db2 = "upd_lops (\<lambda>x. lo_id x = i) (failed_lop (retry_delay (lo_attempts p + 1)) err now) ?db1"
  have 1: "row_of lo_id i (d_lops ?db1) = Some (?run p)"
    using row_of_update_match [OF assms(1,2), of "\<lambda>x. lo_status x \<in> {LsPending, LsRetryScheduled}" ?run] assms(3)
    by simp
  have key1: "unique_key lo_id (d_lops ?db1)"
    using assms(1) by (simp add: unique_key_update_where)
  have 2: "row_of lo_id i (d_lops ?db2) = Some ?q"
    using row_of_update_match [OF key1 1, of "\<lambda>_. True" "failed_lop (retry_delay (lo_attempts p + 1)) err now"]
    by simp
  have "changed (\<lambda>x. lo_id x = i \<and> lo_status x \<in> {LsPending, LsRetryScheduled}) (d_lops db) \<noteq> 0"
    using row_of_SomeD [OF assms(2)] assms(3) by auto
  then have "failing_try i err now db = Inr (?q, ?db2)"
    using 1 2
    by (simp add: failing_try_def mark_lifecycle_operation_running_def mark_lifecycle_operation_failed_def
        update_lop_if_def return_lop_def get_lifecycle_operation_def del: upd_lops_sel)
  moreover have "unique_key lo_id (d_lops ?db2)" using key1 by (simp add: unique_key_update_where)
  moreover have "lo_status ?q = (if lo_attempts p < 5 then LsRetryScheduled else LsFailed)"
    by (simp add: failed_lop_def retry_delay_def)
  ultimately show ?thesis using 2 by (intro exI [of _ ?q] exI [of _ ?db2]) (simp add: failed_lop_def)
qed

lemma failing_tries_append:
  "failing_tries i err (ts @ us) db = ebind (failing_tries i err ts db) (failing_tries i err us)"
  by (induction ts arbitrary: db) (simp_all add: ebind_assoc)

lemma failing_tries_result:
  assumes "unique_key lo_id (d_lops db)" "row_of lo_id i (d_lops db) = Some p"
    "lo_status p \<in> {LsPending, LsRetryScheduled}" "ts \<noteq> []" "lo_attempts p + length ts \<le> 6"
  shows "\<exists>db' q. failing_tries i err ts db = Inr db' \<and> unique_key lo_id (d_lops db')
    \<and> row_of lo_id i (d_lops db') = Some q \<and> lo_attempts q = lo_attempts p + length ts
    \<and> lo_status q = (if lo_attempts q < 6 then LsRetryScheduled else LsFailed)
    \<and> lo_next_attempt_at q = map_option (\<lambda>d. last ts + d) (retry_delay (lo_attempts q))"
  using assms
proof (induction ts arbitrary: db p)
  case (Cons t ts)
  obtain q db1 where q: "failing_try i err t db = Inr (q, db1)" "unique_key lo_id (d_lops db1)"
    "row_of lo_id i (d_lops db1) = Some q" "lo_attempts q = lo_attempts p + 1"
    "lo_status q = (if lo_attempts p < 5 then LsRetryScheduled else LsFailed)"
    "lo_next_attempt_at q = map_option (\<lambda>d. t + d) (retry_delay (lo_attempts p + 1))"
    using failing_try_result [OF Cons.prems(1-3)] by blast
  show ?case
  proof (cases "ts = []")
    case True
    then show ?thesis using q Cons.prems(5) by simp
  next
    case False
    then have "lo_attempts p < 5" using Cons.prems(5) by (cases ts) auto
    then show ?thesis
      using Cons.IH [OF q(2,3) _ False] q Cons.prems(5) False by simp
  qed
qed simp

lemma failed_try_refused:
  assumes "unique_key lo_id (d_lops db)" "row_of lo_id i (d_lops db) = Some p" "lo_status p = LsFailed"
  shows "failing_try i err now db = Inl (LifecycleOperationNotFound i)"
proof -
  have "changed (\<lambda>x. lo_id x = i \<and> lo_status x \<in> {LsPending, LsRetryScheduled}) (d_lops db) = 0"
    using the_row [OF assms(1,2)] assms(3) by auto
  then show ?thesis
    by (simp add: failing_try_def mark_lifecycle_operation_running_def update_lop_if_def)
qed

text \<open>
  C23: the retry budget of a lifecycle operation.  A fresh operation whose every try fails is retried
  after 5 s, 30 s, 2 min, 10 min and one hour, the sixth failure is final, and a seventh try is
  refused: the loop over failing provider clean-ups ends.
\<close>

theorem retry_budget:
  assumes "unique_key lo_id (d_lops db)" "row_of lo_id i (d_lops db) = Some p"
    "lo_status p = LsPending" "lo_attempts p = 0" "ts \<noteq> []"
  shows "(length ts \<le> 6 \<longrightarrow> (\<exists>db' q. failing_tries i err ts db = Inr db'
      \<and> row_of lo_id i (d_lops db') = Some q \<and> lo_attempts q = length ts
      \<and> lo_status q = (if length ts < 6 then LsRetryScheduled else LsFailed)
      \<and> lo_next_attempt_at q =
          (if length ts < 6 then Some (last ts + [5, 30, 120, 600, 3600] ! (length ts - 1)) else None)))
    \<and> (6 < length ts \<longrightarrow> failing_tries i err ts db = Inl (LifecycleOperationNotFound i))"
proof (intro conjI impI)
  have delay: "retry_delay n = (if n < 6 then Some ([5, 30, 120, 600, 3600] ! (n - 1)) else None)" if "1 \<le> n" for n
  proof (cases "n < 6")
    case True
    then have "n \<in> {1, 2, 3, 4, 5}" using that by auto
    then show ?thesis by (auto simp: retry_delay_def)
  qed (simp add: retry_delay_def)
  have pos: "1 \<le> length ts" using assms(5) by (cases ts) auto
  assume "length ts \<le> 6"
  then obtain db' q where "failing_tries i err ts db = Inr db'" "row_of lo_id i (d_lops db') = Some q"
    "lo_attempts q = length ts" "lo_status q = (if lo_attempts q < 6 then LsRetryScheduled else LsFailed)"
    "lo_next_attempt_at q = map_option (\<lambda>d. last ts + d) (retry_delay (lo_attempts q))"
    using failing_tries_result [OF assms(1,2) _ assms(5), of err] assms(3,4) by auto
  then show "\<exists>db' q. failing_tries i err ts db = Inr db'
      \<and> row_of lo_id i (d_lops db') = Some q \<and> lo_attempts q = length ts
      \<and> lo_status q = (if length ts < 6 then LsRetryScheduled else LsFailed)
      \<and> lo_next_attempt_at q =
          (if length ts < 6 then Some (last ts + [5, 30, 120, 600, 3600] ! (length ts - 1)) else None)"
    using delay [OF pos] by (intro exI [of _ db'] exI [of _ q]) simp
next
  assume len: "6 < length ts"
  then obtain us v vs where split: "ts = us @ v # vs" "length us = 6"
    by (metis append_take_drop_id drop_eq_Nil length_take min.absorb4 neq_Nil_conv not_le)
  then obtain db' q where "failing_tries i err us db = Inr db'" "unique_key lo_id (d_lops db')"
    "row_of lo_id i (d_lops db') = Some q" "lo_status q = LsFailed"
    using failing_tries_result [OF assms(1,2), of us err] assms(3,4) by fastforce
  then show "failing_tries i err ts db = Inl (LifecycleOperationNotFound i)"
    using failed_try_refused by (simp add: split failing_tries_append)
qed

definition "cleanup1 = create_lifecycle_operation (\<lambda>_. None) ''t'' ''p'' LkProviderCleanup None None ''{}'' ''o'' 1 empty_db"

theorem retry_budget_witness:
  "(\<exists>db' q. failing_tries ''o'' ''e'' [10, 20, 60, 200, 900, 9000] (after cleanup1) = Inr db'
      \<and> row_of lo_id ''o'' (d_lops db') = Some q \<and> lo_status q = LsFailed)
   \<and> failing_tries ''o'' ''e'' [10, 20, 60, 200, 900, 9000, 9999] (after cleanup1)
      = Inl (LifecycleOperationNotFound ''o'')"
proof -
  have key: "unique_key lo_id (d_lops (after cleanup1))" by code_simp
  have "map_option (\<lambda>p. (lo_status p, lo_attempts p)) (row_of lo_id ''o'' (d_lops (after cleanup1)))
      = Some (LsPending, 0)" by code_simp
  then obtain p where p: "row_of lo_id ''o'' (d_lops (after cleanup1)) = Some p"
    "lo_status p = LsPending" "lo_attempts p = 0" by auto
  show ?thesis
    using retry_budget [OF key p, of "[10, 20, 60, 200, 900, 9000]" "''e''"]
      retry_budget [OF key p, of "[10, 20, 60, 200, 900, 9000, 9999]" "''e''"] by auto
qed

end
