(* ===== verification/TeamOutcomes.thy ===== *)
theory TeamOutcomes
  imports TeamBehaviour
begin

text \<open>
  Further outcomes of single operations: the release of dependent tasks, the removal of a teammate,
  the start-up statements, the mailbox, user input, and the branches in which the code refuses or
  does more than its callers expect.
\<close>

subsection \<open>Reviewing a result\<close>

lemma review_accept_tasks:
  assumes "review_result k l True fb u now db = Inr (v, db')"
  shows "d_tasks db' = update_where (unblockable k (upd_tasks (\<lambda>r. tk_id r = k \<and> tk_status r = TkResultReview)
      (review_row True fb now) db)) (\<lambda>r. r\<lparr>tk_status := TkPending, tk_updated_at := now\<rparr>)
      (update_where (\<lambda>r. tk_id r = k \<and> tk_status r = TkResultReview) (review_row True fb now) (d_tasks db))"
    "\<exists>r\<in>set (d_tasks db). tk_id r = k \<and> tk_status r = TkResultReview"
  using assms
  by (auto simp: review_result_def err_simps return_Inr Let_def ins_defs ack_results_def
      upd_latest_attempt_def unblock_dependents_def split: if_split_asm)

lemma deps_accepted_after:
  assumes "schema_ok db" "r \<in> set (d_tasks db)" "tk_id r = k" "tk_status r = TkResultReview"
  shows "deps_accepted x (upd_tasks (\<lambda>r. tk_id r = k \<and> tk_status r = TkResultReview) (review_row True fb now) db)
    \<longleftrightarrow> (\<forall>d. (x, d) \<in> set (d_deps db) \<longrightarrow> d = k \<or> (\<exists>z\<in>set (d_tasks db). tk_id z = d \<and> tk_status z = TkAccepted))"
proof -
  have exists: "\<exists>z\<in>set (d_tasks db). tk_id z = d" if "(x, d) \<in> set (d_deps db)" for d
    using assms(1) that by (fastforce simp: schema_defs has_key_iff)
  have only: "z = r" if "z \<in> set (d_tasks db)" "tk_id z = k" for z
    using that assms(2,3) same_task [OF assms(1)] by blast
  have acc: "(\<exists>z\<in>set (update_where (\<lambda>r. tk_id r = k \<and> tk_status r = TkResultReview) (review_row True fb now) (d_tasks db)).
      tk_id z = d \<and> tk_status z \<noteq> TkAccepted)
      \<longleftrightarrow> d \<noteq> k \<and> (\<exists>z\<in>set (d_tasks db). tk_id z = d \<and> tk_status z \<noteq> TkAccepted)" for d
    using only assms(4) by (auto simp: bex_update_where)
  have same: "(\<exists>z\<in>set (d_tasks db). tk_id z = d \<and> tk_status z \<noteq> TkAccepted)
      \<longleftrightarrow> \<not> (\<exists>z\<in>set (d_tasks db). tk_id z = d \<and> tk_status z = TkAccepted)"
    if "(x, d) \<in> set (d_deps db)" for d
    using exists [OF that] same_task [OF assms(1)] by metis
  show ?thesis
    unfolding deps_accepted_def list_ex_iff upd_tasks_sel acc using same by fastforce
qed

text \<open>
  C24: accepting a result releases exactly the tasks that were waiting for it: a blocked task becomes
  pending if and only if it depends on the accepted task and all its other dependencies are
  accepted already.
\<close>

theorem acceptance_unblocks:
  assumes "review_result k l True fb u now db = Inr (v, db')" "schema_ok db"
    "x \<in> set (d_tasks db)" "tk_status x = TkBlocked" "y \<in> set (d_tasks db')" "tk_id y = tk_id x"
  shows "tk_status y = (if (tk_id x, k) \<in> set (d_deps db) \<and>
      (\<forall>d. (tk_id x, d) \<in> set (d_deps db) \<longrightarrow> d = k \<or> (\<exists>z\<in>set (d_tasks db). tk_id z = d \<and> tk_status z = TkAccepted))
    then TkPending else TkBlocked)"
proof -
  let ?P = "\<lambda>r. tk_id r = k \<and> tk_status r = TkResultReview"
  let ?db1 = "upd_tasks ?P (review_row True fb now) db"
  let ?unblock = "\<lambda>r. r\<lparr>tk_status := TkPending, tk_updated_at := now\<rparr>"
  obtain r where r: "r \<in> set (d_tasks db)" "tk_id r = k" "tk_status r = TkResultReview"
    using review_accept_tasks(2) [OF assms(1)] by blast
  have "x \<noteq> r" using r(3) assms(4) by auto
  then have "tk_id x \<noteq> k" using same_task [OF assms(2,3) r(1)] r(2) by auto
  then have "row_moves tk_id (\<lambda>a b. a = x \<longrightarrow> b = x) (d_tasks db) (d_tasks ?db1)"
    unfolding upd_tasks_sel
    by (intro row_moves_update [OF task_key [OF assms(2)]]) auto
  then have "row_moves tk_id (\<lambda>a b. a = x \<longrightarrow> b = (if unblockable k ?db1 x then ?unblock x else x))
      (d_tasks db) (update_where (unblockable k ?db1) ?unblock (d_tasks ?db1))"
    unfolding row_moves_def update_where_set by fastforce
  then have y: "y = (if unblockable k ?db1 x then ?unblock x else x)"
    using assms(3,5,6) review_accept_tasks(1) [OF assms(1)] unfolding row_moves_def by auto
  have "unblockable k ?db1 x \<longleftrightarrow> (tk_id x, k) \<in> set (d_deps db) \<and> deps_accepted (tk_id x) ?db1"
    using assms(4) by (simp add: unblockable_def)
  then show ?thesis
    unfolding y deps_accepted_after [OF assms(2) r] using assms(4) by simp
qed

definition "wait1 = create_task (task_of [''k'']) ''k2'' 8 (after (run7 Standard))"
definition "wait2 = review_result ''k'' ''l'' True None ''y'' 9 (after wait1)"

lemma wait1_reachable: "reaches (team_moves parse) empty_db (after wait1)"
proof -
  have "succeeds wait1" by code_simp
  then show ?thesis by (rule moves [OF _ _ run7_reachable]) (auto simp: wait1_def intro: do_create_task)
qed

lemma reachable_schema: "reaches (team_moves parse) empty_db db \<Longrightarrow> schema_ok db"
  using team_store.inv_reachable [of empty_db parse db] by (simp add: is_empty_db_def team_inv_def)

theorem acceptance_unblocks_witness:
  "\<exists>y\<in>set (d_tasks (after wait2)). tk_id y = ''k2'' \<and> tk_status y = TkPending"
proof -
  have "succeeds wait2" by code_simp
  then obtain v where v: "wait2 = Inr (v, after wait2)" using succeeds_after by blast
  have "list_ex (\<lambda>x. tk_id x = ''k2'' \<and> tk_status x = TkBlocked) (d_tasks (after wait1))" by code_simp
  then obtain x where x: "x \<in> set (d_tasks (after wait1))" "tk_id x = ''k2''" "tk_status x = TkBlocked"
    by (auto simp: list_ex_iff)
  have "list_ex (\<lambda>y. tk_id y = ''k2'') (d_tasks (after wait2))" by code_simp
  then obtain y where y: "y \<in> set (d_tasks (after wait2))" "tk_id y = ''k2''" by (auto simp: list_ex_iff)
  have deps: "d_deps (after wait1) = [(''k2'', ''k'')]" by code_simp
  have "tk_status y = TkPending"
    using acceptance_unblocks [OF v [unfolded wait2_def] reachable_schema [OF wait1_reachable [of any_option]]
      x(1,3), folded wait2_def, OF y(1)] y(2) x(2) deps by simp
  then show ?thesis using y by blast
qed

subsection \<open>Removing a teammate\<close>

text \<open>
  C25: removing a teammate leaves no trace that could block the team: the member is gone, no task is
  assigned to it, no message mentions it, its attempts are deleted, and a task it was working on
  is pending again without a result, while accepted and cancelled tasks keep their status.
\<close>

theorem removal_releases:
  assumes "remove_teammate t l m now db = Inr (un, db')" "schema_ok db"
  shows "(\<forall>r\<in>set (d_members db'). mb_id r \<noteq> m)
    \<and> (\<forall>x\<in>set (d_messages db'). ms_from x \<noteq> m \<and> ms_to x \<noteq> m)
    \<and> (\<forall>a\<in>set (d_attempts db'). at_member a \<noteq> m)
    \<and> (\<forall>k\<in>set (d_tasks db). \<exists>k'\<in>set (d_tasks db'). tk_id k' = tk_id k \<and> tk_assignee k' \<noteq> Some m
         \<and> (tk_assignee k = Some m \<and> released (tk_status k) \<longrightarrow> tk_status k' = TkPending \<and> tk_result k' = None)
         \<and> (\<not> released (tk_status k) \<or> tk_assignee k \<noteq> Some m \<longrightarrow> tk_status k' = tk_status k))"
proof -
  let ?c = "\<lambda>k. k\<lparr>tk_creator := l, tk_updated_at := now\<rparr>"
  have mem: "d_members db' = delete_where (\<lambda>r. mb_id r = m)
      (update_where (\<lambda>r. mb_id r = m) (\<lambda>r. r\<lparr>mb_status := MbRemoving, mb_updated_at := now\<rparr>) (d_members db))"
    and msg: "d_messages db' = delete_where (\<lambda>x. ms_from x = m \<or> ms_to x = m) (d_messages db)"
    and tsk: "d_tasks db' = update_where (\<lambda>k. tk_assignee k = Some m) (release_task now)
      (update_where (\<lambda>k. tk_creator k = m) ?c (d_tasks db))"
    using assms(1) by (auto simp: remove_teammate_def err_simps Let_def ins_defs split: if_split_asm)
  obtain r where r: "r \<in> set (d_members db)" "mb_id r = m"
    using remove_teammate_Inr(2) [OF assms(1)] by (auto elim: member_role_Inr)
  have att: "d_attempts db' = delete_where (\<lambda>a. at_member a \<in> set (map mb_id (filter (\<lambda>r. mb_id r = m)
      (update_where (\<lambda>r. mb_id r = m) (\<lambda>r. r\<lparr>mb_status := MbRemoving, mb_updated_at := now\<rparr>) (d_members db)))))
      (d_attempts db)"
    using assms(1)
    by (auto simp: remove_teammate_def err_simps Let_def ins_defs drop_members_def gone_members_def split: if_split_asm)
  have gone: "m \<in> set (map mb_id (filter (\<lambda>r. mb_id r = m)
      (update_where (\<lambda>r. mb_id r = m) (\<lambda>r. r\<lparr>mb_status := MbRemoving, mb_updated_at := now\<rparr>) (d_members db))))"
  proof -
    have "r\<lparr>mb_status := MbRemoving, mb_updated_at := now\<rparr> \<in> set (update_where (\<lambda>r. mb_id r = m)
        (\<lambda>r. r\<lparr>mb_status := MbRemoving, mb_updated_at := now\<rparr>) (d_members db))"
      unfolding update_where_set by (rule image_eqI [of _ _ r]) (simp_all add: r)
    then show ?thesis unfolding set_map set_filter by (rule_tac image_eqI) (auto simp: r(2))
  qed
  have task: "\<exists>k'\<in>set (d_tasks db'). tk_id k' = tk_id k \<and> tk_assignee k' \<noteq> Some m
         \<and> (tk_assignee k = Some m \<and> released (tk_status k) \<longrightarrow> tk_status k' = TkPending \<and> tk_result k' = None)
         \<and> (\<not> released (tk_status k) \<or> tk_assignee k \<noteq> Some m \<longrightarrow> tk_status k' = tk_status k)"
    if k: "k \<in> set (d_tasks db)" for k
  proof -
    let ?k1 = "if tk_creator k = m then ?c k else k"
    let ?k2 = "if tk_assignee ?k1 = Some m then release_task now ?k1 else ?k1"
    have "?k2 \<in> set (d_tasks db')" unfolding tsk update_where_set using k by blast
    then show ?thesis by (rule rev_bexI) (simp add: release_task_def)
  qed
  show ?thesis
  proof (intro conjI)
    show "\<forall>r\<in>set (d_members db'). mb_id r \<noteq> m" unfolding mem by (simp add: set_delete_where)
    show "\<forall>x\<in>set (d_messages db'). ms_from x \<noteq> m \<and> ms_to x \<noteq> m" unfolding msg by (simp add: set_delete_where)
    show "\<forall>a\<in>set (d_attempts db'). at_member a \<noteq> m" unfolding att set_delete_where using gone by blast
  qed (use task in blast)
qed

definition "leave1 = remove_teammate ''t'' ''l'' ''m'' 7 (after (run6 Standard))"

theorem removal_releases_witness:
  "\<exists>k\<in>set (d_tasks (after leave1)). tk_assignee k \<noteq> Some ''m'' \<and> tk_status k = TkPending"
proof -
  have "succeeds leave1" by code_simp
  then obtain u where u: "leave1 = Inr (u, after leave1)" using succeeds_after by blast
  have "list_ex (\<lambda>k. tk_assignee k = Some ''m'' \<and> released (tk_status k)) (d_tasks (after (run6 Standard)))"
    by code_simp
  then obtain k where k: "k \<in> set (d_tasks (after (run6 Standard)))" "tk_assignee k = Some ''m''" "released (tk_status k)"
    by (auto simp: list_ex_iff)
  show ?thesis
    using removal_releases [OF u [unfolded leave1_def] reachable_schema [OF run6_reachable [of any_option]], folded leave1_def] k
    by blast
qed

subsection \<open>Start-up\<close>

lemma update_where_twice:
  "(\<And>r. r \<in> set rows \<Longrightarrow> P r \<Longrightarrow> \<not> Q (f r) \<or> g (f r) = f r) \<Longrightarrow> (\<And>r. r \<in> set rows \<Longrightarrow> \<not> P r \<Longrightarrow> \<not> Q r)
   \<Longrightarrow> update_where Q g (update_where P f rows) = update_where P f rows"
  by (auto simp: update_where_def)

lemma upd_idle:
  "(\<And>r. r \<in> set (d_tasks db) \<Longrightarrow> \<not> P1 r) \<Longrightarrow> upd_tasks P1 f1 db = db"
  "(\<And>r. r \<in> set (d_messages db) \<Longrightarrow> \<not> P2 r) \<Longrightarrow> upd_messages P2 f2 db = db"
  "(\<And>r. r \<in> set (d_permissions db) \<Longrightarrow> \<not> P3 r) \<Longrightarrow> upd_permissions P3 f3 db = db"
  "(\<And>r. r \<in> set (d_lops db) \<Longrightarrow> \<not> P4 r) \<Longrightarrow> upd_lops P4 f4 db = db"
  "(\<And>r. r \<in> set (d_teams db) \<Longrightarrow> P5 r \<Longrightarrow> f5 r = r) \<Longrightarrow> upd_teams P5 f5 db = db"
  by (simp_all add: prims update_where_def map_idI)

lemma boot_quiet:
  assumes "b = team_store_boot now db"
  shows "k \<in> set (d_tasks b) \<Longrightarrow> tk_status k = TkCancelled \<Longrightarrow> \<not> tk_required k"
    and "x \<in> set (d_messages b) \<Longrightarrow> ms_task x = Some j \<Longrightarrow> z \<in> set (d_tasks b) \<Longrightarrow> tk_id z = j \<Longrightarrow>
      tk_status z = TkCancelled \<Longrightarrow> \<not> undelivered x"
    and "p \<in> set (d_permissions b) \<Longrightarrow> \<not> open_permission p"
    and "o' \<in> set (d_lops b) \<Longrightarrow> lo_status o' \<noteq> LsRunning"
  by ((auto simp: assms team_store_boot_def Let_def update_where_set open_permission_def boot_lop_def
      undelivered_def list_ex_iff split: if_split_asm option.splits) [1])+


definition "cleanup2 = mark_lifecycle_operation_running ''o'' 8 (after cleanup1)"


subsection \<open>Reading the mailbox\<close>

lemma filter_update_other:
  "(\<And>r. P r \<Longrightarrow> \<not> Q r \<and> \<not> Q (f r)) \<Longrightarrow> filter Q (update_where P f rows) = filter Q rows"
  by (induction rows) (auto simp: update_where_def)

text \<open>
  Reading a mailbox hands out exactly the unread messages of the member, oldest first, each
  once: afterwards they are acknowledged, a second read returns nothing, and no message of anybody
  else is touched.
\<close>

theorem mailbox_read_once:
  "set (fst (read_messages m now db)) = {x \<in> set (d_messages db). ms_to x = m \<and> ms_read_at x = None}
    \<and> sorted (map (\<lambda>x. (ms_created_at x, ms_id x)) (fst (read_messages m now db)))
    \<and> fst (read_messages m now' (snd (read_messages m now db))) = []
    \<and> filter (\<lambda>x. ms_to x \<noteq> m) (d_messages (snd (read_messages m now db))) = filter (\<lambda>x. ms_to x \<noteq> m) (d_messages db)
    \<and> length (fst (read_messages m now db)) = changed (unread m) (d_messages db)"
proof (intro conjI)
  show "set (fst (read_messages m now db)) = {x \<in> set (d_messages db). ms_to x = m \<and> ms_read_at x = None}"
    by (auto simp: read_messages_def unread_def)
  show "sorted (map (\<lambda>x. (ms_created_at x, ms_id x)) (fst (read_messages m now db)))"
    by (simp add: read_messages_def mailbox_order_sorted)
  show "fst (read_messages m now' (snd (read_messages m now db))) = []"
    unfolding read_messages_returns_unread by (rule read_messages_empties)
  show "filter (\<lambda>x. ms_to x \<noteq> m) (d_messages (snd (read_messages m now db))) = filter (\<lambda>x. ms_to x \<noteq> m) (d_messages db)"
    unfolding read_messages_def snd_conv upd_messages_sel
    by (rule filter_update_other) (simp add: unread_def)
  show "length (fst (read_messages m now db)) = changed (unread m) (d_messages db)"
    by (simp add: read_messages_def mailbox_order_def changed_def)
qed

subsection \<open>User input\<close>

text \<open>
  Answering the last open question of a team resumes it in the status the question interrupted,
  and as long as another question is open the team keeps needing attention.
\<close>

theorem answer_resumes:
  assumes "resolve_user_input t i answer now db = Inr (r, db')" "schema_ok db"
    "row_of tm_id t (d_teams db) = Some team" "tm_status team = TmNeedsAttention"
  shows "ui_status r = UiResolved \<and> ui_answer r = Some (trim answer)
    \<and> map_option tm_status (row_of tm_id t (d_teams db')) =
        Some (if \<exists>u\<in>set (d_inputs db). ui_team u = t \<and> ui_status u = UiPending \<and> ui_id u \<noteq> i
              then TmNeedsAttention else ui_resume_status r)"
proof -
  let ?P = "\<lambda>u. ui_id u = i \<and> ui_team u = t \<and> ui_status u = UiPending"
  let ?f = "\<lambda>u. u\<lparr>ui_status := UiResolved, ui_answer := Some (trim answer), ui_resolved_at := Some now\<rparr>"
  let ?db1 = "upd_inputs ?P ?f db"
  let ?open = "count_where (\<lambda>u. ui_team u = t \<and> ui_status u = UiPending) (d_inputs ?db1) \<noteq> 0"
  have key: "unique_key ui_id (d_inputs db)" using assms(2) by (simp add: schema_defs)
  obtain u where u: "u \<in> set (d_inputs db)" "?P u"
    using assms(1) unfolding resolve_user_input_def Let_def by (auto split: if_split_asm)
  have "row_of ui_id i (d_inputs db) = Some u" using row_of_unique [OF key u(1)] u(2) by simp
  then have row: "row_of ui_id i (d_inputs ?db1) = Some (?f u)" using u(2) by (simp add: row_of_update_where)
  have opn: "?open \<longleftrightarrow> (\<exists>x\<in>set (d_inputs db). ui_team x = t \<and> ui_status x = UiPending \<and> ui_id x \<noteq> i)"
  proof -
    have "(ui_team (if ?P x then ?f x else x) = t \<and> ui_status (if ?P x then ?f x else x) = UiPending)
        = (ui_team x = t \<and> ui_status x = UiPending \<and> ui_id x \<noteq> i)" for x
      by (cases "?P x") (simp_all, blast)
    then show ?thesis unfolding count_where_0 upd_inputs_sel update_where_set ball_simps by metis
  qed
  have res: "r = ?f u \<and> db' = (if ?open then ?db1 else
      upd_teams (\<lambda>r. tm_id r = t \<and> tm_status r = TmNeedsAttention) (set_status (ui_resume_status (?f u)) now) ?db1)"
  proof -
    have nz: "changed ?P (d_inputs db) \<noteq> 0" using u by auto
    have get: "get_user_input_request i d = Inr (?f u)" if "d_inputs d = d_inputs ?db1" for d
      using row that by (simp add: get_user_input_request_def del: upd_inputs_sel)
    have *: "resolve_user_input t i answer now db =
      ebind (if \<not> ?open then ebind (opt_err QueryReturnedNoRows (Some (?f u))) (\<lambda>u.
                   Inr (upd_teams (\<lambda>r. tm_id r = t \<and> tm_status r = TmNeedsAttention)
                     (set_status (ui_resume_status u) now) ?db1))
              else Inr ?db1) (\<lambda>db2. ebind (get_user_input_request i db2) (\<lambda>r. Inr (r, db2)))"
      unfolding resolve_user_input_def Let_def if_not_P [OF nz] row not_not ..
    have "resolve_user_input t i answer now db = Inr (?f u, if ?open then ?db1 else
      upd_teams (\<lambda>r. tm_id r = t \<and> tm_status r = TmNeedsAttention) (set_status (ui_resume_status (?f u)) now) ?db1)"
    proof (cases ?open)
      case True
      show ?thesis
        unfolding * by (simp only: True not_True_eq_False not_False_eq_True if_False if_True ebind_simps get [OF refl])
    next
      case False
      show ?thesis
        unfolding * by (simp only: False [unfolded not_not] simp_thms not_True_eq_False not_False_eq_True if_False if_True ebind_simps opt_err_simps
            get [OF upd_teams_sel(14)])
    qed
    then show ?thesis unfolding assms(1) by (simp only: sum.inject prod.inject simp_thms)
  qed
  let ?E = "\<exists>x\<in>set (d_inputs db). ui_team x = t \<and> ui_status x = UiPending \<and> ui_id x \<noteq> i"
  have team: "row_of tm_id t (d_teams db') = Some (if ?E then team else set_status (ui_resume_status r) now team)"
  proof (cases ?E)
    case True
    then have "db' = ?db1" using res unfolding opn by (simp only: if_True)
    then show ?thesis unfolding if_P [OF True] using assms(3) by simp
  next
    case False
    then have "db' = upd_teams (\<lambda>r. tm_id r = t \<and> tm_status r = TmNeedsAttention)
        (set_status (ui_resume_status r) now) ?db1" using res unfolding opn by (simp only: if_False)
    then show ?thesis
      unfolding if_not_P [OF False]
      using assms(3,4) row_of_SomeD [OF assms(3)] by (simp add: row_of_update_where)
  qed
  have "ui_status r = UiResolved" "ui_answer r = Some (trim answer)" using conjunct1 [OF res] by simp_all
  moreover have "tm_status (if ?E then team else set_status (ui_resume_status r) now team)
      = (if ?E then TmNeedsAttention else ui_resume_status r)"
    by (simp only: if_distrib [of tm_status] assms(4) set_status_simps)
  ultimately show ?thesis unfolding team option.map by blast
qed

definition "question1 = request_user_input ''t'' ''l'' ''Q'' ''why'' ''i'' 6 (after (run5 Standard))"
definition "question2 = resolve_user_input ''t'' ''i'' ''yes'' 7 (after question1)"

lemma question1_reachable: "reaches (team_moves parse) empty_db (after question1)"
proof -
  have "succeeds question1" by code_simp
  then show ?thesis by (rule moves [OF _ _ run5_reachable]) (auto simp: question1_def intro: do_request_input)
qed

theorem answer_resumes_witness:
  "map_option tm_status (row_of tm_id ''t'' (d_teams (after question1))) = Some TmNeedsAttention
    \<and> map_option tm_status (row_of tm_id ''t'' (d_teams (after question2))) = Some TmActive"
proof -
  have q1: "map_option tm_status (row_of tm_id ''t'' (d_teams (after question1))) = Some TmNeedsAttention"
    by code_simp
  then obtain team where team: "row_of tm_id ''t'' (d_teams (after question1)) = Some team" "tm_status team = TmNeedsAttention"
    by auto
  have "succeeds question2" by code_simp
  then obtain r where r: "question2 = Inr (r, after question2)" using succeeds_after by blast
  have "(case question2 of Inr (x, d) \<Rightarrow> ui_resume_status x = TmActive | Inl e \<Rightarrow> False)" by code_simp
  then have resume: "ui_resume_status r = TmActive" by (subst (asm) r) simp
  have none: "\<not> list_ex (\<lambda>u. ui_team u = ''t'' \<and> ui_status u = UiPending \<and> ui_id u \<noteq> ''i'') (d_inputs (after question1))"
    by code_simp
  have "map_option tm_status (row_of tm_id ''t'' (d_teams (after question2))) = Some TmActive"
    using answer_resumes [OF r [unfolded question2_def] reachable_schema [OF question1_reachable [of any_option]] team,
        folded question2_def] none resume
    by (auto simp: list_ex_iff)
  then show ?thesis using q1 by blast
qed

subsection \<open>Starting a team\<close>



end
