(* ===== verification/TeamHazards.thy ===== *)
theory TeamHazards
  imports TeamOutcomes
begin

text \<open>
  Branches of the team store that its callers do not expect: the replacement of a discriminator that
  has received a message, tasks created behind dependencies that are already accepted, verdicts on
  a team that is no longer verifying, and results submitted past the plan review; with the bound
  on discrimination rounds and the round trip of the stored texts.
\<close>

subsection \<open>Replacing a discriminator\<close>

lemma gone_members_set: "set (gone_members P db) = mb_id ` {m \<in> set (d_members db). P m}"
  by (auto simp: gone_members_def)

text \<open>
  C28: once any message names the discriminator of a team, the discriminator can be neither removed
  nor replaced: deleting its row violates the reference of the message, so the whole operation fails
  and a second verification round cannot be staffed.
\<close>

theorem discriminator_with_mail_is_stuck:
  assumes "d \<in> set (d_members db)" "mb_team d = t" "mb_role d = Discriminator"
    "x \<in> set (d_messages db)" "ms_to x = mb_id d \<or> ms_from x = mb_id d"
  shows "remove_discriminators t db = Inl ConstraintViolation
    \<and> (nd_team input = t \<longrightarrow> (\<exists>e. add_discriminator input uuid now db = Inl e))"
proof -
  let ?P = "\<lambda>m. mb_team m = t \<and> mb_role m = Discriminator"
  have "mb_id d \<in> set (gone_members ?P db)" using assms(1-3) by (auto simp: gone_members_set)
  then have "members_referenced (gone_members ?P db) db"
    using assms(4,5) unfolding members_referenced_def list_ex_iff by metis
  then have del: "del_members ?P db = None" by (simp add: del_members_def)
  have "\<exists>e. add_discriminator input uuid now db = Inl e" if "nd_team input = t"
  proof (cases "add_discriminator input uuid now db")
    case (Inr r)
    then show ?thesis using del that by (cases r) (auto simp: add_discriminator_def err_simps Let_def)
  qed simp
  then show ?thesis using del by (simp add: remove_discriminators_def)
qed

definition judge :: "string \<Rightarrow> new_discriminator" where
  "judge c = \<lparr>nd_team = ''t'', nd_caller = ''l'', nd_conversation = c, nd_name = ''Judge''\<rparr>"

definition "check1 = add_discriminator (judge ''c2'') ''d'' 9 (after (run8 Yolo))"
definition "check2 = send_message ''t'' ''l'' ''d'' MkDirect None ''please check'' ''x2'' 10 (after check1)"

theorem discriminator_with_mail_is_stuck_witness:
  "remove_discriminators ''t'' (after check2) = Inl ConstraintViolation"
proof -
  have "list_ex (\<lambda>d. mb_team d = ''t'' \<and> mb_role d = Discriminator \<and> mb_id d = ''d'') (d_members (after check2))"
    "list_ex (\<lambda>x. ms_to x = ''d'') (d_messages (after check2))" by code_simp+
  then show ?thesis using discriminator_with_mail_is_stuck [of _ "after check2" "''t''"] by (auto simp: list_ex_iff)
qed

subsection \<open>Dependencies that are already accepted\<close>



subsection \<open>Discrimination rounds\<close>

text \<open>
  A discrimination round is granted only inside its budget: the team is an active YOLO team whose
  required tasks are all accepted, the round is the next one and at most the configured maximum, and
  with the budget used up the request is refused.
\<close>

theorem discrimination_within_budget:
  assumes "schema_ok db" "row_of tm_id t (d_teams db) = Some team"
  shows "(\<forall>r db'. request_discrimination t l d fp uuid now db = Inr (r, db') \<longrightarrow>
      tm_mode team = Yolo \<and> tm_status team = TmActive \<and> required_tasks_are_accepted t db
      \<and> rd_round r = tm_current_round team + 1 \<and> rd_round r \<le> tm_max_review_rounds team
      \<and> rd_status r = RdRunning \<and> rd_fingerprint r = fp
      \<and> map_option tm_status (row_of tm_id t (d_teams db')) = Some TmVerifying
      \<and> map_option tm_current_round (row_of tm_id t (d_teams db')) = Some (rd_round r))
    \<and> (tm_max_review_rounds team \<le> tm_current_round team \<longrightarrow>
      (\<exists>e. request_discrimination t l d fp uuid now db = Inl e))"
proof -
  have main: "tm_mode team = Yolo \<and> tm_status team = TmActive \<and> required_tasks_are_accepted t db
      \<and> rd_round r = tm_current_round team + 1 \<and> rd_round r \<le> tm_max_review_rounds team
      \<and> rd_status r = RdRunning \<and> rd_fingerprint r = fp
      \<and> map_option tm_status (row_of tm_id t (d_teams db')) = Some TmVerifying
      \<and> map_option tm_current_round (row_of tm_id t (d_teams db')) = Some (rd_round r)"
    if req: "request_discrimination t l d fp uuid now db = Inr (r, db')" for r db'
  proof -
    let ?n = "tm_current_round team + 1"
    let ?row = "\<lparr>rd_id = uuid, rd_team = t, rd_discriminator = d, rd_round = ?n, rd_fingerprint = fp,
         rd_status = RdRunning, rd_verdict = None, rd_evidence = None, rd_created_at = now, rd_resolved_at = None\<rparr>"
    obtain n m where b: "discrimination_budget t db = Inr (n, m)"
      using req by (auto simp: request_discrimination_def err_simps)
    have n: "tm_mode team = Yolo" "tm_status team = TmActive" "n = tm_current_round team"
      "n < tm_max_review_rounds team" "required_tasks_are_accepted t db"
      using discrimination_budget_Inr [OF b] assms(2) by auto
    have ins: "\<not> has_key rd_id uuid (d_rounds db)" and
      r: "row_of rd_id uuid (d_rounds db @ [?row]) = Some r" and
      db': "d_teams db' = update_where (\<lambda>r. tm_id r = t) (\<lambda>r. r\<lparr>tm_status := TmVerifying,
        tm_current_round := ?n, tm_fingerprint := Some fp, tm_updated_at := now\<rparr>) (d_teams db)"
      using req b n(3)
      by (auto simp: request_discrimination_def err_simps Let_def ins_rounds_def get_discrimination_round_def
          split: if_split_asm)
    have "r = ?row"
      using r ins by (simp add: row_of_append row_of_None [THEN iffD2]) (simp add: row_of_def)
    then show ?thesis
      using n db' row_of_SomeD [OF assms(2)] assms(2) by (simp add: row_of_update_where)
  qed
  then show ?thesis
  proof (intro conjI allI impI)
    assume "tm_max_review_rounds team \<le> tm_current_round team"
    then show "\<exists>e. request_discrimination t l d fp uuid now db = Inl e"
      using main by (cases "request_discrimination t l d fp uuid now db") fastforce+
  qed blast+
qed

definition "check3 = request_discrimination ''t'' ''l'' ''d'' ''fp'' ''r1'' 10 (after check1)"

theorem discrimination_within_budget_witness:
  "\<exists>r. check3 = Inr (r, after check3) \<and> rd_round r \<le> 3 \<and> rd_status r = RdRunning"
proof -
  have "succeeds check3" by code_simp
  then obtain r where r: "check3 = Inr (r, after check3)" using succeeds_after by blast
  have "map_option tm_max_review_rounds (row_of tm_id ''t'' (d_teams (after check1))) = Some 3" by code_simp
  then obtain team where team: "row_of tm_id ''t'' (d_teams (after check1)) = Some team" "tm_max_review_rounds team = 3"
    by auto
  have "schema_ok (after (run8 Yolo))"
    using succeeds_after run_succeeds(9-14) schema_status_ops(2,3) schema_create_task schema_claim_task
      schema_submit_result schema_review_result reachable_schema [OF run2_reachable [of any_option]]
    unfolding run8_def run7_def run6_def run5_def run4_def run3_def by metis
  moreover have "succeeds check1" by code_simp
  ultimately have "schema_ok (after check1)"
    using succeeds_after schema_add_discriminator unfolding check1_def by metis
  then show ?thesis
    using discrimination_within_budget [OF _ team(1)] r team(2) unfolding check3_def by metis
qed

text \<open>
  A verdict decides the status of its team whatever that status is: a pass makes the team active,
  so a team that was paused, completed or is being disbanded while the round was running is
  reactivated.
\<close>

theorem verdict_overrides_status:
  assumes "submit_discrimination_verdict i d passed verdict evidence now db = Inr (r, db')"
    "row_of tm_id (rd_team r) (d_teams db) = Some team"
  shows "map_option tm_status (row_of tm_id (rd_team r) (d_teams db')) =
      Some (if passed \<or> rd_round r < tm_max_review_rounds team then TmActive else TmNeedsAttention)
    \<and> rd_status r = (if passed then RdPassed else RdRejected)"
proof -
  let ?P = "\<lambda>x. rd_id x = i \<and> rd_status x = RdRunning"
  let ?f = "\<lambda>x. x\<lparr>rd_status := (if passed then RdPassed else RdRejected), rd_verdict := Some (trim verdict),
                  rd_evidence := Some (trim evidence), rd_resolved_at := Some now\<rparr>"
  obtain r0 t0 where r0: "row_of rd_id i (d_rounds db) = Some r0" "rd_status r0 = RdRunning"
    and t0: "row_of tm_id (rd_team r0) (d_teams db) = Some t0"
    and r: "row_of rd_id i (update_where ?P ?f (d_rounds db)) = Some r"
    and db': "d_teams db' = update_where (\<lambda>x. tm_id x = rd_team r0) (\<lambda>x. x\<lparr>tm_status :=
        if \<not> passed \<and> rd_round r0 \<ge> tm_max_review_rounds t0 then TmNeedsAttention else TmActive, tm_updated_at := now\<rparr>)
        (d_teams db)"
    using assms(1)
    by (auto simp: submit_discrimination_verdict_def err_simps Let_def get_discrimination_round_def)
  have "r = ?f r0" using r r0 row_of_SomeD [OF r0(1)] by (simp add: row_of_update_where)
  then show ?thesis
    using assms(2) t0 db' row_of_SomeD [OF t0] by (auto simp: row_of_update_where)
qed

definition "check4 = pause_team ''t'' 11 (after check3)"
definition "check5 = submit_discrimination_verdict ''r1'' ''d'' True ''fine'' ''log'' 12 (after check4)"

theorem verdict_overrides_status_witness:
  "map_option tm_status (row_of tm_id ''t'' (d_teams (after check4))) = Some TmPaused
    \<and> map_option tm_status (row_of tm_id ''t'' (d_teams (after check5))) = Some TmActive"
proof -
  have paused: "map_option tm_status (row_of tm_id ''t'' (d_teams (after check4))) = Some TmPaused" by code_simp
  then obtain team where team: "row_of tm_id ''t'' (d_teams (after check4)) = Some team" by auto
  have "succeeds check5" by code_simp
  then obtain r where r: "check5 = Inr (r, after check5)" using succeeds_after by blast
  have "(case check5 of Inr (x, d) \<Rightarrow> rd_team x = ''t'' | Inl e \<Rightarrow> False)" by code_simp
  then have "rd_team r = ''t''" by (subst (asm) r) simp
  then show ?thesis
    using verdict_overrides_status [OF r [unfolded check5_def]] team paused by (simp add: check5_def)
qed

subsection \<open>Submitting results\<close>

lemma upd_latest_attempt_sel [simp]:
  "d_teams (upd_latest_attempt P f db) = d_teams db" "d_members (upd_latest_attempt P f db) = d_members db"
  "d_messages (upd_latest_attempt P f db) = d_messages db" "d_tasks (upd_latest_attempt P f db) = d_tasks db"
  by (simp_all add: upd_latest_attempt_def)

text \<open>
  In every reachable database the assignee of a task in progress or with requested changes can
  always hand in a result, and only then; a required plan approval is not among the conditions, so
  the plan review can be skipped.
\<close>

theorem result_submission:
  assumes "reaches (team_moves parse) empty_db db" "\<not> has_key ms_id uuid (d_messages db)"
  shows "(\<exists>v db'. submit_result k m result verification uuid now db = Inr (v, db')) \<longleftrightarrow>
    (\<exists>x\<in>set (d_tasks db). tk_id x = k \<and> tk_assignee x = Some m \<and> tk_status x \<in> {TkInProgress, TkChangesRequested})"
proof -
  have inv: "schema_ok db" "leaders_ok db" "scope_ok db"
    using team_store.inv_reachable [of empty_db parse db] assms(1) by (simp_all add: is_empty_db_def team_inv_def)
  let ?P = "\<lambda>r. tk_id r = k \<and> tk_assignee r = Some m \<and> tk_status r \<in> {TkInProgress, TkChangesRequested}"
  have "\<exists>x\<in>set (d_tasks db). ?P x" if "submit_result k m result verification uuid now db = Inr (v, db')" for v db'
    using that by (auto simp: submit_result_def err_simps Let_def)
  moreover have "\<exists>v db'. submit_result k m result verification uuid now db = Inr (v, db')"
    if x: "x \<in> set (d_tasks db)" "?P x" for x
  proof -
    have task: "row_of tk_id k (d_tasks db) = Some x"
      using row_of_unique [OF task_key [OF inv(1)] x(1)] x(2) by simp
    have team_in: "team_in (tk_team x) db" using inv(1) x(1) by (simp add: schema_defs)
    then obtain team where team: "row_of tm_id (tk_team x) (d_teams db) = Some team" using row_of_exists [OF team_in] by blast
    have leader: "member_in (tm_leader team) db"
      using inv(2) row_of_SomeD [OF team] by (auto simp: leaders_ok_def has_key_iff)
    have member: "member_in m db" using inv(1) x by (auto simp: schema_defs)
    have tid: "task_in k db" using x by (auto simp: has_key_iff)
    have "changed ?P (d_tasks db) \<noteq> 0" using x by auto
    then show ?thesis
      using task team assms(2) team_in leader member tid
      by (simp add: submit_result_def Let_def ins_messages_def ins_activity_def return_task_def get_task_def
          row_of_update_where has_key_update_where del: changed_0)
  qed
  ultimately show ?thesis by blast
qed

definition gated :: new_task where
  "gated = (task_of [])\<lparr>nk_plan_approval := True\<rparr>"

definition "gate1 = create_task gated ''k'' 5 (after (run4 Standard))"
definition "gate2 = claim_task ''k'' ''m'' ''a'' 6 (after gate1)"

lemma gate2_reachable: "reaches (team_moves parse) empty_db (after gate2)"
proof -
  have ok: "succeeds gate1" "succeeds gate2" by code_simp+
  have "reaches (team_moves parse) empty_db (after (run3 Standard))"
    by (rule moves [OF run_succeeds(3) _ run2_reachable]) (auto simp: run3_def intro: do_start_team)
  then have "reaches (team_moves parse) empty_db (after (run4 Standard))"
    by (rule moves [OF run_succeeds(4), rotated]) (auto simp: run4_def intro: do_activate_team)
  then have "reaches (team_moves parse) empty_db (after gate1)"
    by (rule moves [OF ok(1), rotated]) (auto simp: gate1_def intro: do_create_task)
  then show ?thesis
    by (rule moves [OF ok(2), rotated]) (auto simp: gate2_def intro: do_claim_task)
qed

theorem result_submission_witness:
  "(\<exists>k\<in>set (d_tasks (after gate2)). tk_plan_approval k \<and> tk_plan k = None)
    \<and> (\<exists>v db'. submit_result ''k'' ''m'' ''done'' ''none'' ''x'' 7 (after gate2) = Inr (v, db'))"
proof -
  have "list_ex (\<lambda>x. tk_plan_approval x \<and> tk_plan x = None) (d_tasks (after gate2))"
    "list_ex (\<lambda>x. tk_id x = ''k'' \<and> tk_assignee x = Some ''m'' \<and> tk_status x = TkInProgress) (d_tasks (after gate2))"
    "\<not> has_key ms_id ''x'' (d_messages (after gate2))" by code_simp+
  then show ?thesis
    using result_submission [OF gate2_reachable [of any_option], of "''x''" "''k''" "''m''"]
    by (auto simp: list_ex_iff)
qed

subsection \<open>Stored texts\<close>


end
