(* ===== verification/ExperimentStore.thy ===== *)
theory ExperimentStore
  imports TeamMailbox "HOL-Library.Option_ord"
begin

text \<open>
  The operations of the experiment store (\<open>src/server/src/experiment_store/mod.rs\<close>): execution
  envelopes of research rounds, admission of launches, the life of an experiment, the delivery of
  its outcome into the team mailbox, waits, reminders and decisions.

  Every operation takes the SQL time \<open>now\<close> (\<open>CURRENT_TIMESTAMP\<close>, seconds) and, where the code
  reads \<open>self.now()\<close>, the injectable clock \<open>clk\<close>.  Random identifiers are arguments; an operation
  that draws several takes them in the order it draws them.  SHA-256 of the canonical request is
  the parameter \<open>hash\<close>.  A failing statement is \<open>XDatabase\<close>.  The wakes of the team runtime, which
  follow a commit, are hints outside the database and are not part of the model.
\<close>

subsection \<open>Text\<close>

fun decimal :: "nat \<Rightarrow> string" where
  "decimal n = (if n < 10 then [char_of (48 + n)] else decimal (n div 10) @ [char_of (48 + n mod 10)])"

declare decimal.simps [simp del]

definition decimal_int :: "int \<Rightarrow> string" where
  "decimal_int i = (if i < 0 then ''-'' @ decimal (nat (- i)) else decimal (nat i))"

definition is_control :: "char \<Rightarrow> bool" where
  "is_control c = (let n = (of_char c :: nat) in n < 32 \<or> 127 \<le> n \<and> n < 160)"

definition quote_char :: char where
  "quote_char = char_of (34 :: nat)"

definition plain_label :: "string \<Rightarrow> string" where
  "plain_label s = take 80 (map (\<lambda>c. if is_control c \<or> c = quote_char then CHR '' '' else c) s)"

definition shown_name :: "experiment_row \<Rightarrow> string" where
  "shown_name e = (let label = trim (plain_label (ex_label e)) in if label = [] then ex_id e else label)"

definition describe :: "experiment_row \<Rightarrow> event_kind \<Rightarrow> string" where
  "describe e kind =
    (let name = [quote_char] @ shown_name e @ [quote_char];
         state = as_str experiment_state_tab (ex_state e) in
     case kind of
       EkFinished \<Rightarrow>
         if ex_state e = ExUnknown
         then ''Experiment '' @ name @ '' has an unknown outcome: its process could not be accounted for. '' @
              ''Do not assume it succeeded and do not rerun it; ask the researcher to reconcile it.''
         else ''Experiment '' @ name @ '' ended: '' @ state @
              (case ex_exit_code e of None \<Rightarrow> [] | Some code \<Rightarrow> '' (exit code '' @ decimal_int code @ '')'') @
              ''. It is waiting for your analysis: review its '' @
              ''logs and artifacts, publish what you learned, then continue or report. Until it is '' @
              ''analyzed the Team cannot complete.''
     | EkWaitExpired \<Rightarrow>
         ''Your wait on experiment '' @ name @ '' expired while it was '' @ state @
         ''. The experiment itself is unchanged; check on it and decide what to do.''
     | EkReconciled \<Rightarrow>
         ''Experiment '' @ name @ '' was reconciled by the researcher: '' @ state @
         ''. Analyze the outcome if one was recorded.'')"

subsection \<open>Reading\<close>

definition require_round :: "string \<Rightarrow> string \<Rightarrow> string \<Rightarrow> db \<Rightarrow> experiment_error + unit" where
  "require_round p r rd db =
    guard (list_ex (\<lambda>x. rr_id x = rd \<and> rr_research x = r
              \<and> list_ex (\<lambda>q. rq_id q = rr_research x \<and> rq_project q = p) (d_questions db))
            (d_research_rounds db)) XNotFound"

definition load_envelope :: "string \<Rightarrow> db \<Rightarrow> envelope option" where
  "load_envelope rd db = row_of en_round rd (d_envelopes db)"

definition load_experiment :: "string \<Rightarrow> db \<Rightarrow> experiment_error + experiment_row" where
  "load_experiment i db = opt_err XNotFound (row_of ex_id i (d_experiments db))"

definition scope_of :: "string \<Rightarrow> db \<Rightarrow> experiment_error + (string \<times> string)" where
  "scope_of i db =
    ebind (opt_err XDatabase (row_of ex_id i (d_experiments db))) (\<lambda>e. Inr (ex_project e, ex_research e))"

text \<open>\<open>ORDER BY key DESC, rowid DESC\<close>; a missing time sorts before every time.\<close>

definition newest_first :: "('r \<Rightarrow> 'k::linorder) \<Rightarrow> ('r \<Rightarrow> bool) \<Rightarrow> 'r list \<Rightarrow> 'r list" where
  "newest_first key P rows = rev (sort_key key (filter P rows))"

definition newest :: "('r \<Rightarrow> 'k::linorder) \<Rightarrow> ('r \<Rightarrow> bool) \<Rightarrow> 'r list \<Rightarrow> 'r option" where
  "newest key P rows = (case newest_first key P rows of [] \<Rightarrow> None | r # _ \<Rightarrow> Some r)"

definition find_by_key :: "string \<Rightarrow> string \<Rightarrow> db \<Rightarrow> (experiment_row \<times> string) option" where
  "find_by_key rd key db =
    map_option (\<lambda>e. (e, ex_hash e)) (row_of (\<lambda>e. (ex_round e, ex_key e)) (rd, key) (d_experiments db))"

definition running_count :: "string \<Rightarrow> db \<Rightarrow> nat" where
  "running_count rd db =
    count_where (\<lambda>e. ex_round e = rd \<and> ex_state e \<in> {ExReserved, ExLaunching, ExRunning, ExCancelling, ExUnknown})
      (d_experiments db)"

definition finished_attempt :: "string \<Rightarrow> experiment_row \<Rightarrow> bool" where
  "finished_attempt rd e \<longleftrightarrow> ex_round e = rd \<and> \<not> ex_refunded e
     \<and> ex_state e \<in> {ExExited, ExTimedOut, ExFailedToStart}"

definition recent_attempts :: "string \<Rightarrow> nat \<Rightarrow> db \<Rightarrow> experiment_row list" where
  "recent_attempts rd limit db = take limit (newest_first ex_finished_at (finished_attempt rd) (d_experiments db))"

definition unproductive :: "experiment_row \<Rightarrow> bool" where
  "unproductive e \<longleftrightarrow> ex_state e \<noteq> ExExited \<or> ex_exit_code e \<noteq> Some 0"

definition no_progress :: "string \<Rightarrow> nat \<Rightarrow> db \<Rightarrow> bool" where
  "no_progress rd limit db =
    (let recent = recent_attempts rd limit db in
     limit \<le> length recent \<and> list_all unproductive recent)"

definition check_team_scope :: "string \<Rightarrow> string \<Rightarrow> new_launch \<Rightarrow> db \<Rightarrow> experiment_error + unit" where
  "check_team_scope p t launch db =
    ebind (case row_of tm_id t (filter (\<lambda>x. tm_project_id x = p) (d_teams db)) of
             None \<Rightarrow> Inl XNotFound
           | Some team \<Rightarrow> guard (tm_status team = TmActive) (XDenied TeamNotActive)) (\<lambda>_.
    ebind (guard (list_ex (\<lambda>x. rr_id x = nl_round launch \<and> rr_team x = Some t) (d_research_rounds db)) XNotFound) (\<lambda>_.
    ebind (case nl_owner launch of
             None \<Rightarrow> Inr ()
           | Some m \<Rightarrow> guard (list_ex (\<lambda>x. mb_id x = m \<and> mb_team x = t) (d_members db)) XNotFound) (\<lambda>_.
    case nl_task launch of
      None \<Rightarrow> Inr ()
    | Some k \<Rightarrow> guard (list_ex (\<lambda>x. tk_id x = k \<and> tk_team x = t) (d_tasks db)) XNotFound)))"

text \<open>Without the table \<open>work_items\<close> there is no such row either, which the code reports alike.\<close>

definition check_native_task :: "string \<Rightarrow> string \<Rightarrow> string \<Rightarrow> db \<Rightarrow> experiment_error + unit" where
  "check_native_task p rd k db =
    guard (list_ex (\<lambda>w. wr_id w = k \<and> wr_project w = p \<and> wr_round w = Some rd
             \<and> wr_origin w = ''native'' \<and> wr_lifecycle w = ''active'') (d_work_items db)) XNotFound"

subsection \<open>Transactions\<close>

text \<open>
  \<open>write\<close>: an error rolls the transaction back; a scope \<open>(project, research)\<close> appends a
  content-free \<open>research_updated\<close> event in the same transaction.
\<close>

type_synonym scope = "string \<times> string"

definition append_research_event :: "scope \<Rightarrow> db \<Rightarrow> db" where
  "append_research_event sc db =
    append_workspace_event ''research_updated'' (fst sc) [(''research_id'', snd sc), (''change'', ''execution'')] db"

definition write_tx :: "experiment_error + ('a \<times> scope option \<times> db) \<Rightarrow> experiment_error + ('a \<times> db)" where
  "write_tx m = ebind m (\<lambda>(v, sc, db).
     Inr (v, case sc of None \<Rightarrow> db | Some s \<Rightarrow> append_research_event s db))"

text \<open>The usual end of a transaction on one experiment: \<open>Ok((load_experiment, Some(scope_of)))\<close>.\<close>

definition done_experiment :: "string \<Rightarrow> db \<Rightarrow> experiment_error + (experiment_row \<times> scope option \<times> db)" where
  "done_experiment i db =
    ebind (load_experiment i db) (\<lambda>e. ebind (scope_of i db) (\<lambda>sc. Inr (e, Some sc, db)))"

definition done_flag :: "string \<Rightarrow> db \<Rightarrow> experiment_error + (bool \<times> scope option \<times> db)" where
  "done_flag i db = ebind (scope_of i db) (\<lambda>sc. Inr (True, Some sc, db))"

abbreviation set_experiment :: "string \<Rightarrow> (experiment_row \<Rightarrow> experiment_row) \<Rightarrow> db \<Rightarrow> db" where
  "set_experiment i f db \<equiv> upd_experiments (\<lambda>e. ex_id e = i) f db"

subsection \<open>Delivery into the mailbox\<close>

text \<open>The identifiers a delivery draws: the event, the message and the leader's copy.\<close>

type_synonym delivery_ids = "string \<times> string \<times> string"

definition leader_of :: "string \<Rightarrow> db \<Rightarrow> experiment_error + string" where
  "leader_of t db = ebind (opt_err XDatabase (row_of tm_id t (d_teams db))) (\<lambda>r. Inr (tm_leader r))"

definition recipient_of :: "string \<Rightarrow> db \<Rightarrow> experiment_error + string" where
  "recipient_of i db = ebind (opt_err XDatabase (row_of ms_id i (d_messages db))) (\<lambda>r. Inr (ms_to r))"

definition insert_message :: "string \<Rightarrow> string \<Rightarrow> string \<Rightarrow> string option \<Rightarrow> string \<Rightarrow> string \<Rightarrow> nat \<Rightarrow> db
    \<Rightarrow> experiment_error + db" where
  "insert_message t from_m to_m task body uuid now db =
    opt_err XDatabase (ins_messages (new_message_row uuid t from_m to_m MkSystem task body now) db)"

definition enqueue_to_leader :: "experiment_row \<Rightarrow> string \<Rightarrow> string \<Rightarrow> nat \<Rightarrow> db \<Rightarrow> experiment_error + db" where
  "enqueue_to_leader e body uuid now db =
    ebind (opt_err XNotFound (ex_team e)) (\<lambda>t.
    ebind (leader_of t db) (\<lambda>leader.
    insert_message t leader leader (ex_task e) body uuid now db))"

definition latest_wait :: "string \<Rightarrow> db \<Rightarrow> experiment_wait option" where
  "latest_wait i db = newest wt_created_at (\<lambda>w. wt_experiment w = i) (d_waits db)"

definition or_else :: "'a option \<Rightarrow> 'a option \<Rightarrow> 'a option" where
  "or_else a b = (case a of None \<Rightarrow> b | Some x \<Rightarrow> Some x)"

definition recipient_for :: "string \<Rightarrow> string \<Rightarrow> string option \<Rightarrow> db \<Rightarrow> string" where
  "recipient_for t leader candidate db =
    (case candidate of
       Some m \<Rightarrow> if list_ex (\<lambda>x. mb_id x = m \<and> mb_team x = t) (d_members db) then m else leader
     | None \<Rightarrow> leader)"

definition enqueue_message :: "experiment_row \<Rightarrow> string \<Rightarrow> string option \<Rightarrow> string \<Rightarrow> nat \<Rightarrow> db
    \<Rightarrow> experiment_error + db" where
  "enqueue_message e body hint uuid now db =
    ebind (opt_err XNotFound (ex_team e)) (\<lambda>t.
    ebind (leader_of t db) (\<lambda>leader.
    let last_wait = latest_wait (ex_id e) db;
        task = or_else (ex_task e) (Option.bind last_wait wt_task);
        candidate = or_else hint (or_else (map_option wt_owner last_wait) (ex_owner e)) in
    insert_message t leader (recipient_for t leader candidate db) task body uuid now db))"

definition event_known :: "experiment_event \<Rightarrow> db \<Rightarrow> bool" where
  "event_known r db \<longleftrightarrow> has_key ee_id (ee_id r) (d_events db)
     \<or> has_key (\<lambda>x. (ee_experiment x, ee_kind x, ee_subject x)) (ee_experiment r, ee_kind r, ee_subject r) (d_events db)"

abbreviation link_message :: "string \<Rightarrow> string \<Rightarrow> db \<Rightarrow> db" where
  "link_message ev message db \<equiv> upd_events (\<lambda>x. ee_id x = ev) (\<lambda>x. x\<lparr>ee_message := Some message\<rparr>) db"

text \<open>The copy for the leader when the result of an experiment went to somebody else.\<close>

definition tell_leader :: "experiment_row \<Rightarrow> string \<Rightarrow> string \<Rightarrow> event_kind \<Rightarrow> delivery_ids \<Rightarrow> nat \<Rightarrow> db
    \<Rightarrow> experiment_error + db" where
  "tell_leader e t body kind ids now db =
    (case ids of (ev, message, copy) \<Rightarrow>
       if kind = EkFinished then
         ebind (recipient_of message db) (\<lambda>to_m.
         ebind (leader_of t db) (\<lambda>leader.
         if to_m \<noteq> leader then
           ebind (enqueue_to_leader e (body @ '' (Its owner has also been told.)'') copy now db) (\<lambda>db'.
           Inr (link_message ev copy db'))
         else Inr db))
       else Inr db)"

definition deliver_about :: "string \<Rightarrow> event_kind \<Rightarrow> experiment_wait option \<Rightarrow> delivery_ids \<Rightarrow> nat \<Rightarrow> db
    \<Rightarrow> experiment_error + db" where
  "deliver_about i kind wait ids now db =
    (case ids of (ev, message, copy) \<Rightarrow>
     ebind (load_experiment i db) (\<lambda>e.
     let row = \<lparr>ee_id = ev, ee_experiment = i, ee_kind = kind,
                ee_subject = (case wait of None \<Rightarrow> [] | Some w \<Rightarrow> wt_id w), ee_message = None\<rparr> in
     if event_known row db then Inr db else
     ebind (opt_err XDatabase (ins_events row db)) (\<lambda>db1.
     case ex_team e of
       None \<Rightarrow> Inr db1
     | Some t \<Rightarrow>
         let body = describe e kind in
         ebind (enqueue_message e body (map_option wt_owner wait) message now db1) (\<lambda>db2.
         tell_leader e t body kind ids now (link_message ev message db2)))))"

abbreviation deliver :: "string \<Rightarrow> event_kind \<Rightarrow> delivery_ids \<Rightarrow> nat \<Rightarrow> db \<Rightarrow> experiment_error + db" where
  "deliver i kind ids now db \<equiv> deliver_about i kind None ids now db"

definition resolve_open_waits :: "string \<Rightarrow> nat \<Rightarrow> db \<Rightarrow> db" where
  "resolve_open_waits i now db =
    upd_waits (\<lambda>w. wt_experiment w = i \<and> wt_state w = WtOpen)
      (\<lambda>w. w\<lparr>wt_state := WtResolved, wt_resolved_at := Some now\<rparr>) db"

subsection \<open>Envelopes\<close>

text \<open>The revision a request writes: \<open>None\<close> when it changes nothing.\<close>

definition next_revision :: "envelope option \<Rightarrow> nat option \<Rightarrow> envelope_limits \<Rightarrow> experiment_error + nat option" where
  "next_revision current expected limits =
    (case current of
       None \<Rightarrow> (case expected of
           None \<Rightarrow> Inr (Some 1)
         | Some n \<Rightarrow> if n = 0 then Inr (Some 1) else Inl (XEnvelopeConflict 0))
     | Some en \<Rightarrow>
         if expected = Some (en_revision en)
         then Inr (if en_limits en = limits then None else Some (en_revision en + 1))
         else Inl (XEnvelopeConflict (en_revision en)))"

definition new_envelope :: "string \<Rightarrow> string \<Rightarrow> nat \<Rightarrow> envelope_limits \<Rightarrow> nat \<Rightarrow> envelope" where
  "new_envelope rd r revision limits now =
    \<lparr>en_round = rd, en_research = r, en_revision = revision, en_state = EvActive, en_limits = limits,
     en_launches_reserved = 0, en_created_at = now, en_updated_at = now\<rparr>"

definition store_limits :: "string \<Rightarrow> string \<Rightarrow> nat \<Rightarrow> envelope_limits \<Rightarrow> nat \<Rightarrow> db \<Rightarrow> experiment_error + db" where
  "store_limits r rd revision limits now db =
    (if load_envelope rd db = None
     then opt_err XDatabase (ins_envelopes (new_envelope rd r revision limits now) db)
     else Inr (upd_envelopes (\<lambda>x. en_round x = rd)
            (\<lambda>x. x\<lparr>en_revision := revision, en_limits := limits, en_updated_at := now\<rparr>) db))"

definition set_envelope :: "string \<Rightarrow> string \<Rightarrow> string \<Rightarrow> nat option \<Rightarrow> envelope_limits \<Rightarrow> string option
    \<Rightarrow> nat \<Rightarrow> db \<Rightarrow> experiment_error + (envelope \<times> db)" where
  "set_envelope p r rd expected request actor now db =
    ebind (normalized_limits request) (\<lambda>limits.
    write_tx (
      ebind (require_round p r rd db) (\<lambda>_.
      ebind (next_revision (load_envelope rd db) expected limits) (\<lambda>revision.
      case revision of
        None \<Rightarrow> ebind (opt_err XDatabase (load_envelope rd db)) (\<lambda>en. Inr (en, None, db))
      | Some n \<Rightarrow>
          ebind (store_limits r rd n limits now db) (\<lambda>db1.
          ebind (opt_err XDatabase (ins_envelope_revisions
                   \<lparr>er_round = rd, er_revision = n, er_limits = limits, er_actor = actor\<rparr> db1)) (\<lambda>db2.
          ebind (opt_err XDatabase (load_envelope rd db2)) (\<lambda>en. Inr (en, Some (p, r), db2))))))))"

definition envelope_of :: "string \<Rightarrow> string \<Rightarrow> string \<Rightarrow> db \<Rightarrow> experiment_error + envelope option" where
  "envelope_of p r rd db = ebind (require_round p r rd db) (\<lambda>_. Inr (load_envelope rd db))"

definition set_envelope_state :: "string \<Rightarrow> string \<Rightarrow> string \<Rightarrow> envelope_state \<Rightarrow> nat \<Rightarrow> db
    \<Rightarrow> experiment_error + (envelope \<times> db)" where
  "set_envelope_state p r rd state now db =
    write_tx (
      ebind (require_round p r rd db) (\<lambda>_.
      ebind (opt_err XNotFound (load_envelope rd db)) (\<lambda>en.
      if en_state en = state then Inr (en, None, db)
      else if en_state en = EvClosed then Inl (XState ''a closed envelope cannot be reopened'')
      else
        let db1 = upd_envelopes (\<lambda>x. en_round x = rd) (\<lambda>x. x\<lparr>en_state := state, en_updated_at := now\<rparr>) db in
        ebind (opt_err XDatabase (load_envelope rd db1)) (\<lambda>en'. Inr (en', Some (p, r), db1)))))"

subsection \<open>Admission\<close>

type_synonym canonical_request = "string list \<times> string \<times> string list \<times> string option \<times> string option"

definition request_hash :: "(canonical_request \<Rightarrow> string) \<Rightarrow> new_launch \<Rightarrow> string" where
  "request_hash hash l = hash (nl_argv l, nl_cwd l, nl_artifacts l, nl_team l, nl_task l)"

definition admit :: "string \<Rightarrow> new_launch \<Rightarrow> envelope \<Rightarrow> int \<Rightarrow> db \<Rightarrow> experiment_error + unit" where
  "admit p l en clk db =
    ebind (case en_state en of
             EvPaused \<Rightarrow> Inl (XDenied EnvelopePaused)
           | EvClosed \<Rightarrow> Inl (XDenied EnvelopeClosed)
           | EvActive \<Rightarrow> Inr ()) (\<lambda>_.
    ebind (case li_deadline_at (en_limits en) of
             None \<Rightarrow> Inr ()
           | Some deadline \<Rightarrow> guard (clk < deadline) (XDenied DeadlinePassed)) (\<lambda>_.
    ebind (guard (authorizes (en_limits en) (nl_argv l)) (XDenied CommandNotAuthorized)) (\<lambda>_.
    ebind (case nl_team l of
             Some t \<Rightarrow> check_team_scope p t l db
           | None \<Rightarrow> (case nl_task l of
               Some k \<Rightarrow> check_native_task p (nl_round l) k db
             | None \<Rightarrow> Inr ())) (\<lambda>_.
    ebind (guard (en_launches_reserved en < li_max_launches (en_limits en)) (XDenied LaunchBudgetExhausted)) (\<lambda>_.
    ebind (guard (running_count (nl_round l) db < li_max_concurrent (en_limits en)) (XDenied ConcurrencyLimit)) (\<lambda>_.
    guard (\<not> no_progress (nl_round l) (li_max_no_progress (en_limits en)) db) (XDenied NoProgress)))))))"

definition clamp_runtime :: "nat option \<Rightarrow> nat \<Rightarrow> nat" where
  "clamp_runtime asked limit = min limit (max 1 (case asked of None \<Rightarrow> limit | Some n \<Rightarrow> n))"

definition new_experiment :: "string \<Rightarrow> string \<Rightarrow> new_launch \<Rightarrow> string \<Rightarrow> envelope \<Rightarrow> string \<Rightarrow> nat \<Rightarrow> experiment_row" where
  "new_experiment p r l h en uuid now =
    \<lparr>ex_id = uuid, ex_project = p, ex_research = r, ex_round = nl_round l, ex_team = nl_team l,
     ex_task = nl_task l, ex_owner = nl_owner l, ex_key = nl_key l, ex_hash = h, ex_label = nl_label l,
     ex_argv = nl_argv l, ex_cwd = nl_cwd l, ex_artifacts = nl_artifacts l, ex_sources = nl_sources l,
     ex_policy_revision = en_revision en,
     ex_max_runtime_secs = clamp_runtime (nl_max_runtime_secs l) (li_max_runtime_secs (en_limits en)),
     ex_state = ExReserved, ex_analysis = AnNone, ex_identity = None, ex_exit_code = None,
     ex_signal = None, ex_reason = None, ex_cancel_requested = False, ex_artifact_revisions = [],
     ex_reminders = 0, ex_reminded_at = None, ex_refunded = False, ex_created_at = now,
     ex_launched_at = None, ex_finished_at = None\<rparr>"

definition charge_launch :: "string \<Rightarrow> nat \<Rightarrow> db \<Rightarrow> db" where
  "charge_launch rd now db = upd_envelopes (\<lambda>x. en_round x = rd)
     (\<lambda>x. x\<lparr>en_launches_reserved := en_launches_reserved x + 1, en_updated_at := now\<rparr>) db"

definition refund_launch :: "string \<Rightarrow> db \<Rightarrow> db" where
  "refund_launch rd db = upd_envelopes (\<lambda>x. en_round x = rd)
     (\<lambda>x. x\<lparr>en_launches_reserved := en_launches_reserved x - 1\<rparr>) db"

definition reserve :: "(canonical_request \<Rightarrow> string) \<Rightarrow> string \<Rightarrow> string \<Rightarrow> new_launch \<Rightarrow> string \<Rightarrow> nat \<Rightarrow> int \<Rightarrow> db
    \<Rightarrow> experiment_error + ((experiment_row \<times> bool) \<times> db)" where
  "reserve hash p r launch uuid now clk db =
    ebind (normalized_launch launch) (\<lambda>l.
    let h = request_hash hash l in
    write_tx (
      ebind (require_round p r (nl_round l) db) (\<lambda>_.
      case find_by_key (nl_round l) (nl_key l) db of
        Some found \<Rightarrow> if snd found \<noteq> h then Inl XKeyReuse else Inr ((fst found, False), None, db)
      | None \<Rightarrow>
          ebind (opt_err (XDenied NoEnvelope) (load_envelope (nl_round l) db)) (\<lambda>en.
          ebind (admit p l en clk db) (\<lambda>_.
          ebind (opt_err XDatabase (ins_experiments (new_experiment p r l h en uuid now) db)) (\<lambda>db1.
          let db2 = charge_launch (nl_round l) now db1 in
          ebind (load_experiment uuid db2) (\<lambda>e. Inr ((e, True), Some (p, r), db2))))))))"

subsection \<open>The life of an experiment\<close>

definition transition :: "string \<Rightarrow> experiment_state list \<Rightarrow> experiment_state \<Rightarrow> string option \<Rightarrow> db
    \<Rightarrow> experiment_error + (experiment_row \<times> db)" where
  "transition i from_states to_state reason db =
    write_tx (
      let P = (\<lambda>e. ex_id e = i \<and> ex_state e \<in> set from_states) in
      ebind (guard (changed P (d_experiments db) \<noteq> 0)
              (XState ''the experiment is not in the expected state'')) (\<lambda>_.
      done_experiment i (upd_experiments P
        (\<lambda>e. e\<lparr>ex_state := to_state, ex_reason := or_else reason (ex_reason e)\<rparr>) db)))"

definition mark_launching :: "string \<Rightarrow> db \<Rightarrow> experiment_error + (experiment_row \<times> db)" where
  "mark_launching i db = transition i [ExReserved] ExLaunching None db"

definition running_row :: "experiment_state \<Rightarrow> process_identity \<Rightarrow> nat \<Rightarrow> experiment_row \<Rightarrow> experiment_row" where
  "running_row state pid now e =
    e\<lparr>ex_state := state, ex_identity := Some pid, ex_launched_at := or_else (ex_launched_at e) (Some now)\<rparr>"

definition mark_running :: "string \<Rightarrow> process_identity \<Rightarrow> nat \<Rightarrow> db \<Rightarrow> experiment_error + (experiment_row \<times> db)" where
  "mark_running i pid now db =
    write_tx (
      ebind (load_experiment i db) (\<lambda>e.
      let state = (if ex_cancel_requested e then ExCancelling else ExRunning);
          P = (\<lambda>x. ex_id x = i \<and> ex_state x \<in> {ExLaunching, ExReserved, ExCancelling}) in
      ebind (guard (changed P (d_experiments db) \<noteq> 0) (XState ''the experiment is not launching'')) (\<lambda>_.
      done_experiment i (upd_experiments P (running_row state pid now) db))))"

definition observed_row :: "experiment_state \<Rightarrow> outcome \<Rightarrow> nat \<Rightarrow> experiment_row \<Rightarrow> experiment_row" where
  "observed_row state oc now e =
    e\<lparr>ex_state := state, ex_exit_code := oc_exit_code oc, ex_signal := oc_signal oc,
      ex_reason := map_option (take MAX_REASON_CHARS) (oc_reason oc), ex_analysis := AnPending,
      ex_artifact_revisions := oc_artifact_revisions oc,
      ex_finished_at := (if state \<noteq> ExUnknown then Some now else ex_finished_at e)\<rparr>"

definition observed_state :: "outcome \<Rightarrow> experiment_row \<Rightarrow> experiment_state" where
  "observed_state oc e =
    (case oc_state oc of Some s \<Rightarrow> s | None \<Rightarrow> if ex_cancel_requested e then ExCancelled else ExExited)"

definition observe :: "string \<Rightarrow> outcome \<Rightarrow> delivery_ids \<Rightarrow> nat \<Rightarrow> db \<Rightarrow> experiment_error + (bool \<times> db)" where
  "observe i oc ids now db =
    write_tx (
      ebind (load_experiment i db) (\<lambda>e.
      if \<not> is_active (ex_state e) then Inr (False, None, db)
      else
        let state = observed_state oc e in
        ebind (guard (\<not> (is_active state \<and> state \<noteq> ExUnknown)) (XInvalid ''an observation must be terminal'')) (\<lambda>_.
        ebind (deliver i EkFinished ids now (set_experiment i (observed_row state oc now) db)) (\<lambda>db1.
        done_flag i (resolve_open_waits i now db1)))))"

definition cancelled_before_launch :: "nat \<Rightarrow> experiment_row \<Rightarrow> experiment_row" where
  "cancelled_before_launch now e =
    e\<lparr>ex_state := ExCancelled, ex_analysis := AnPending, ex_reason := Some ''cancelled before launch'',
      ex_finished_at := Some now\<rparr>"

definition request_cancel :: "string \<Rightarrow> delivery_ids \<Rightarrow> nat \<Rightarrow> db \<Rightarrow> experiment_error + (experiment_row \<times> db)" where
  "request_cancel i ids now db =
    write_tx (
      ebind (load_experiment i db) (\<lambda>e.
      if \<not> is_active (ex_state e) \<or> ex_cancel_requested e then Inr (e, None, db)
      else
        let db1 = set_experiment i (\<lambda>x. x\<lparr>ex_cancel_requested := True\<rparr>) db in
        ebind (if ex_state e = ExReserved then
                 ebind (deliver i EkFinished ids now (set_experiment i (cancelled_before_launch now) db1)) (\<lambda>db2.
                 Inr (resolve_open_waits i now db2))
               else if ex_state e \<in> {ExLaunching, ExRunning} then
                 Inr (set_experiment i (\<lambda>x. x\<lparr>ex_state := ExCancelling\<rparr>) db1)
               else Inr db1) (\<lambda>db3.
        done_experiment i db3)))"

definition reconciled_row :: "reconcile_truth \<Rightarrow> int option \<Rightarrow> string \<Rightarrow> nat \<Rightarrow> experiment_row \<Rightarrow> experiment_row" where
  "reconciled_row truth code reason now e =
    (case truth of
       NotStarted \<Rightarrow> e\<lparr>ex_state := ExFailedToStart, ex_analysis := AnNone, ex_reason := Some reason,
                       ex_refunded := True, ex_finished_at := Some now\<rparr>
     | ReallyFinished \<Rightarrow> e\<lparr>ex_state := ExExited, ex_exit_code := code, ex_reason := Some reason,
                       ex_analysis := AnPending, ex_finished_at := Some now\<rparr>)"

definition reconcile :: "string \<Rightarrow> string \<Rightarrow> reconcile_truth \<Rightarrow> int option \<Rightarrow> string \<Rightarrow> delivery_ids \<Rightarrow> nat \<Rightarrow> db
    \<Rightarrow> experiment_error + (experiment_row \<times> db)" where
  "reconcile p i truth code actor ids now db =
    write_tx (
      ebind (load_experiment i db) (\<lambda>e.
      ebind (guard (ex_project e = p) XNotFound) (\<lambda>_.
      ebind (guard (ex_state e = ExUnknown) (XState ''only an unknown experiment is reconciled'')) (\<lambda>_.
      let reason = ''reconciled as '' @ as_str reconcile_truth_tab truth @ '' by '' @ actor;
          db1 = set_experiment i (reconciled_row truth code reason now) db;
          db2 = (if truth = NotStarted then refund_launch (ex_round e) db1 else db1) in
      ebind (deliver i EkReconciled ids now (resolve_open_waits i now db2)) (\<lambda>db3.
      done_experiment i db3)))))"

definition set_reason :: "string \<Rightarrow> string \<Rightarrow> db \<Rightarrow> experiment_error + (unit \<times> db)" where
  "set_reason i reason db =
    write_tx (Inr ((), None,
      upd_experiments (\<lambda>e. ex_id e = i \<and> ex_state e \<in> {ExLaunching, ExRunning, ExCancelling})
        (\<lambda>e. e\<lparr>ex_reason := Some reason\<rparr>) db))"

definition abandoned_row :: "string \<Rightarrow> nat \<Rightarrow> experiment_row \<Rightarrow> experiment_row" where
  "abandoned_row reason now e =
    e\<lparr>ex_state := ExFailedToStart, ex_analysis := AnPending, ex_reason := Some reason,
      ex_refunded := True, ex_finished_at := Some now\<rparr>"

definition abandon_reserved :: "string \<Rightarrow> string \<Rightarrow> delivery_ids \<Rightarrow> nat \<Rightarrow> db \<Rightarrow> experiment_error + (bool \<times> db)" where
  "abandon_reserved i reason ids now db =
    write_tx (
      ebind (load_experiment i db) (\<lambda>e.
      if ex_state e \<noteq> ExReserved then Inr (False, None, db)
      else
        ebind (deliver i EkFinished ids now
                (refund_launch (ex_round e) (set_experiment i (abandoned_row reason now) db))) (\<lambda>db1.
        done_flag i (resolve_open_waits i now db1))))"

definition mark_analyzed :: "string \<Rightarrow> db \<Rightarrow> experiment_error + (experiment_row \<times> db)" where
  "mark_analyzed i db =
    write_tx (
      ebind (load_experiment i db) (\<lambda>e.
      ebind (guard (\<not> is_active (ex_state e)) (XState ''the experiment has not finished'')) (\<lambda>_.
      if ex_analysis e = AnAnalyzed then Inr (e, None, db)
      else done_experiment i (set_experiment i (\<lambda>x. x\<lparr>ex_analysis := AnAnalyzed\<rparr>) db))))"

subsection \<open>Waits\<close>

text \<open>\<open>ORDER BY created_at DESC LIMIT 1\<close> leaves ties open; the model takes the first such row.\<close>

definition open_attempt_of :: "string \<Rightarrow> string \<Rightarrow> db \<Rightarrow> task_attempt option" where
  "open_attempt_of t m db =
    latest at_created_at (\<lambda>a. at_team a = t \<and> at_member a = m
      \<and> at_status a \<in> {AtQueued, AtRunning, AtNeedsReport}) (d_attempts db)"

definition check_wait :: "string \<Rightarrow> string \<Rightarrow> string \<Rightarrow> experiment_row \<Rightarrow> string option \<Rightarrow> db \<Rightarrow> experiment_error + unit" where
  "check_wait p t m e task db =
    ebind (guard (ex_project e = p \<and> ex_team e = Some t) XNotFound) (\<lambda>_.
    ebind (guard (list_ex (\<lambda>x. tm_id x = t \<and> tm_leader x = m) (d_teams db) \<or> ex_owner e = Some m) XNotFound) (\<lambda>_.
    ebind (guard (list_ex (\<lambda>x. mb_id x = m \<and> mb_team x = t) (d_members db)) XNotFound) (\<lambda>_.
    case task of
      None \<Rightarrow> Inr ()
    | Some k \<Rightarrow> guard (list_ex (\<lambda>x. tk_id x = k \<and> tk_team x = t) (d_tasks db)) XNotFound)))"

definition wait_deadline :: "int option \<Rightarrow> int \<Rightarrow> nat \<Rightarrow> int" where
  "wait_deadline asked clk runtime =
    (case asked of
       Some at \<Rightarrow> min (clk + MAX_WAIT_SECS) (max clk at)
     | None \<Rightarrow> clk + int runtime + 600)"

definition new_wait :: "string \<Rightarrow> string \<Rightarrow> string option \<Rightarrow> string option \<Rightarrow> string \<Rightarrow> string \<Rightarrow> int \<Rightarrow> bool
    \<Rightarrow> string \<Rightarrow> nat \<Rightarrow> experiment_wait" where
  "new_wait i t task attempt m follow_up deadline finished uuid now =
    \<lparr>wt_id = uuid, wt_experiment = i, wt_team = t, wt_task = task, wt_attempt = attempt, wt_owner = m,
     wt_follow_up = follow_up, wt_deadline_at = Some deadline,
     wt_state = (if finished then WtResolved else WtOpen), wt_created_at = now,
     wt_resolved_at = (if finished then Some now else None)\<rparr>"

definition register_wait :: "string \<Rightarrow> string \<Rightarrow> string \<Rightarrow> string \<Rightarrow> string option \<Rightarrow> string \<Rightarrow> int option
    \<Rightarrow> string \<Rightarrow> nat \<Rightarrow> int \<Rightarrow> db \<Rightarrow> experiment_error + (experiment_wait \<times> db)" where
  "register_wait p t m i task expected deadline_at uuid now clk db =
    (let follow_up = trim expected in
     ebind (guard (length follow_up \<le> MAX_FOLLOW_UP_CHARS) (XInvalid ''the expected follow-up is too long'')) (\<lambda>_.
     write_tx (
       ebind (load_experiment i db) (\<lambda>e.
       ebind (check_wait p t m e task db) (\<lambda>_.
       case find (\<lambda>w. wt_experiment w = i \<and> wt_owner w = m \<and> wt_state w = WtOpen) (d_waits db) of
         Some w \<Rightarrow> Inr (w, None, db)
       | None \<Rightarrow>
          let existing = newest wt_created_at (\<lambda>w. wt_experiment w = i \<and> wt_owner w = m) (d_waits db);
              finished = \<not> is_active (ex_state e) in
          if existing \<noteq> None \<and> finished then Inr (the existing, None, db)
          else
            let row = new_wait i t task (map_option at_id (open_attempt_of t m db)) m follow_up
                        (wait_deadline deadline_at clk (ex_max_runtime_secs e)) finished uuid now in
            ebind (opt_err XDatabase (ins_waits row db)) (\<lambda>db1.
            ebind (scope_of i db1) (\<lambda>sc. Inr (row, Some sc, db1))))))))"

text \<open>
  The waits past their deadline, in table order (the statement has no \<open>ORDER BY\<close>), are expired one
  by one in one transaction; \<open>ids\<close> gives the identifiers drawn for each wait.
\<close>

definition due_wait :: "int \<Rightarrow> experiment_wait \<Rightarrow> bool" where
  "due_wait clk w \<longleftrightarrow> wt_state w = WtOpen \<and> (case wt_deadline_at w of None \<Rightarrow> False | Some d \<Rightarrow> d \<le> clk)"

fun expire_waits :: "(string \<Rightarrow> delivery_ids) \<Rightarrow> nat \<Rightarrow> string list \<Rightarrow> db
    \<Rightarrow> experiment_error + (experiment_wait list \<times> db)" where
  "expire_waits ids now [] db = Inr ([], db)"
| "expire_waits ids now (i # is) db =
    (let db1 = upd_waits (\<lambda>w. wt_id w = i \<and> wt_state w = WtOpen)
                 (\<lambda>w. w\<lparr>wt_state := WtExpired, wt_resolved_at := Some now\<rparr>) db in
     ebind (opt_err XDatabase (row_of wt_id i (d_waits db1))) (\<lambda>w.
     ebind (deliver_about (wt_experiment w) EkWaitExpired (Some w) (ids i) now db1) (\<lambda>db2.
     ebind (scope_of (wt_experiment w) db2) (\<lambda>sc.
     ebind (expire_waits ids now is (append_research_event sc db2)) (\<lambda>(ws, db3).
     Inr (w # ws, db3))))))"

definition expire_due_waits :: "(string \<Rightarrow> delivery_ids) \<Rightarrow> nat \<Rightarrow> int \<Rightarrow> db
    \<Rightarrow> experiment_error + (experiment_wait list \<times> db)" where
  "expire_due_waits ids now clk db =
    expire_waits ids now (map wt_id (filter (due_wait clk) (d_waits db))) db"

definition reassign_waits_of_member :: "string \<Rightarrow> string \<Rightarrow> nat \<Rightarrow> db \<Rightarrow> experiment_error + (nat \<times> db)" where
  "reassign_waits_of_member t m now db =
    write_tx (
      let P = (\<lambda>w. wt_team w = t \<and> wt_owner w = m \<and> wt_state w = WtOpen) in
      Inr (changed P (d_waits db), None,
           upd_waits P (\<lambda>w. w\<lparr>wt_state := WtReassigned, wt_resolved_at := Some now\<rparr>) db))"

subsection \<open>Reminders\<close>

record reminder_outcome =
  ro_reminded :: "string list"
  ro_exhausted :: "(string \<times> string) list"

record due_reminder =
  du_experiment :: string
  du_team :: string
  du_reminders :: nat
  du_event :: string

text \<open>
  The rows of the query: an unanalysed experiment of an active team whose finished event has no
  message any more or an acknowledged one, not reminded within the last \<open>wait\<close> seconds.
\<close>

definition last_told :: "experiment_row \<Rightarrow> int" where
  "last_told e = (case ex_reminded_at e of
     Some at \<Rightarrow> at
   | None \<Rightarrow> int (case ex_finished_at e of Some at \<Rightarrow> at | None \<Rightarrow> ex_created_at e))"

definition message_settled :: "experiment_event \<Rightarrow> db \<Rightarrow> bool" where
  "message_settled ev db = (case Option.bind (ee_message ev) (\<lambda>i. row_of ms_id i (d_messages db)) of
     None \<Rightarrow> True
   | Some x \<Rightarrow> ms_delivery x = DvAcknowledged)"

definition reminder_due :: "int \<Rightarrow> int \<Rightarrow> nat \<Rightarrow> experiment_row \<Rightarrow> bool" where
  "reminder_due clk wait most e \<longleftrightarrow>
    ex_analysis e = AnPending \<and> ex_reminders e \<le> most \<and> last_told e \<le> clk - wait"

definition active_team_of :: "experiment_row \<Rightarrow> db \<Rightarrow> string option" where
  "active_team_of e db = Option.bind (ex_team e) (\<lambda>t.
     if list_ex (\<lambda>x. tm_id x = t \<and> tm_status x = TmActive) (d_teams db) then Some t else None)"

definition due_reminders :: "int \<Rightarrow> int \<Rightarrow> nat \<Rightarrow> db \<Rightarrow> due_reminder list" where
  "due_reminders clk wait most db =
    concat (map (\<lambda>e. case active_team_of e db of
        None \<Rightarrow> []
      | Some t \<Rightarrow> map (\<lambda>ev. \<lparr>du_experiment = ex_id e, du_team = t, du_reminders = ex_reminders e, du_event = ee_id ev\<rparr>)
          (filter (\<lambda>ev. ee_experiment ev = ex_id e \<and> ee_kind ev = EkFinished \<and> message_settled ev db)
            (d_events db)))
      (sort_key ex_created_at (filter (reminder_due clk wait most) (d_experiments db))))"

fun remind :: "(string \<Rightarrow> string) \<Rightarrow> nat \<Rightarrow> int \<Rightarrow> nat \<Rightarrow> due_reminder list \<Rightarrow> db
    \<Rightarrow> experiment_error + (reminder_outcome \<times> db)" where
  "remind ids now clk most [] db = Inr (\<lparr>ro_reminded = [], ro_exhausted = []\<rparr>, db)"
| "remind ids now clk most (du # dues) db =
    (let i = du_experiment du in
     if most \<le> du_reminders du then
       ebind (remind ids now clk most dues (set_experiment i (\<lambda>e. e\<lparr>ex_reminders := most + 1\<rparr>) db)) (\<lambda>(out, db').
       Inr (out\<lparr>ro_exhausted := (du_team du, i) # ro_exhausted out\<rparr>, db'))
     else
       ebind (load_experiment i db) (\<lambda>e.
       let body = ''Reminder '' @ decimal (du_reminders du + 1) @ '': '' @ describe e EkFinished in
       ebind (enqueue_to_leader e body (ids i) now db) (\<lambda>db1.
       let db2 = link_message (du_event du) (ids i) db1;
           db3 = set_experiment i (\<lambda>x. x\<lparr>ex_reminders := ex_reminders x + 1, ex_reminded_at := Some clk\<rparr>) db2 in
       ebind (remind ids now clk most dues db3) (\<lambda>(out, db').
       Inr (out\<lparr>ro_reminded := i # ro_reminded out\<rparr>, db')))))"

definition remind_unanalyzed :: "int \<Rightarrow> nat \<Rightarrow> (string \<Rightarrow> string) \<Rightarrow> nat \<Rightarrow> int \<Rightarrow> db
    \<Rightarrow> experiment_error + (reminder_outcome \<times> db)" where
  "remind_unanalyzed wait most ids now clk db =
    write_tx (
      ebind (remind ids now clk most (due_reminders clk wait most db) db) (\<lambda>(out, db'). Inr (out, None, db')))"

subsection \<open>Decisions\<close>

definition decision_key_of :: "new_decision \<Rightarrow> string" where
  "decision_key_of d =
    (case trim_nonempty (dn_key d) of Some key \<Rightarrow> key | None \<Rightarrow> as_str decision_kind_tab (dn_kind d))"

definition decision_row_of :: "string \<Rightarrow> decision_kind \<Rightarrow> string \<Rightarrow> db \<Rightarrow> experiment_decision option" where
  "decision_row_of i kind key db =
    row_of (\<lambda>x. (ed_experiment x, ed_kind x, ed_key x)) (i, kind, key) (d_decisions db)"

definition record_decision :: "string \<Rightarrow> new_decision \<Rightarrow> string \<Rightarrow> nat \<Rightarrow> db
    \<Rightarrow> experiment_error + ((experiment_decision \<times> bool) \<times> db)" where
  "record_decision p d uuid now db =
    (let rationale = trim (dn_rationale d); key = decision_key_of d; i = dn_experiment d in
     ebind (guard (rationale \<noteq> [] \<and> length rationale \<le> MAX_RATIONALE_CHARS)
             (XInvalid ''a rationale of 1 to 2000 characters is required'')) (\<lambda>_.
     ebind (guard (length (dn_evidence d) \<le> MAX_DECISION_EVIDENCE)
             (XInvalid ''too much evidence on one decision'')) (\<lambda>_.
     ebind (guard (length key \<le> MAX_KEY_CHARS) (XInvalid ''the decision key is too long'')) (\<lambda>_.
     write_tx (
       ebind (load_experiment i db) (\<lambda>e.
       ebind (guard (ex_project e = p) XNotFound) (\<lambda>_.
       case decision_row_of i (dn_kind d) key db of
         Some existing \<Rightarrow> Inr ((existing, False), None, db)
       | None \<Rightarrow>
           ebind (guard (\<not> is_active (ex_state e)) (XState ''the experiment has not finished'')) (\<lambda>_.
           let row = \<lparr>ed_id = uuid, ed_experiment = i, ed_member = dn_member d, ed_kind = dn_kind d,
                      ed_key = key, ed_rationale = rationale, ed_evidence = dn_evidence d,
                      ed_launched = dn_launched d, ed_created_at = now\<rparr> in
           ebind (opt_err XDatabase (ins_decisions row db)) (\<lambda>db1.
           let db2 = (if resolves_analysis (dn_kind d)
                      then upd_experiments (\<lambda>x. ex_id x = i \<and> ex_analysis x = AnPending)
                             (\<lambda>x. x\<lparr>ex_analysis := AnAnalyzed\<rparr>) db1
                      else db1) in
           ebind (scope_of i db2) (\<lambda>sc. Inr ((row, True), Some sc, db2)))))))))))"

definition find_decision :: "string \<Rightarrow> string \<Rightarrow> decision_kind \<Rightarrow> string \<Rightarrow> db
    \<Rightarrow> experiment_error + experiment_decision option" where
  "find_decision p i kind key db =
    ebind (load_experiment i db) (\<lambda>e.
    ebind (guard (ex_project e = p) XNotFound) (\<lambda>_. Inr (decision_row_of i kind key db)))"

subsection \<open>Queries\<close>

definition in_round :: "string \<Rightarrow> string \<Rightarrow> db \<Rightarrow> bool" where
  "in_round rd i db \<longleftrightarrow> list_ex (\<lambda>e. ex_id e = i \<and> ex_round e = rd) (d_experiments db)"

definition decisions :: "string \<Rightarrow> string \<Rightarrow> string \<Rightarrow> db \<Rightarrow> experiment_error + experiment_decision list" where
  "decisions p r rd db = ebind (require_round p r rd db) (\<lambda>_.
     Inr (newest_first ed_created_at (\<lambda>x. in_round rd (ed_experiment x) db) (d_decisions db)))"

definition launch_blockers :: "string \<Rightarrow> string \<Rightarrow> string \<Rightarrow> int \<Rightarrow> db \<Rightarrow> experiment_error + launch_denial list" where
  "launch_blockers p r rd clk db =
    ebind (require_round p r rd db) (\<lambda>_.
    case load_envelope rd db of
      None \<Rightarrow> Inr [NoEnvelope]
    | Some en \<Rightarrow>
        let l = en_limits en in
        Inr ((case en_state en of EvPaused \<Rightarrow> [EnvelopePaused] | EvClosed \<Rightarrow> [EnvelopeClosed] | EvActive \<Rightarrow> [])
          @ (case li_deadline_at l of None \<Rightarrow> [] | Some d \<Rightarrow> if clk \<ge> d then [DeadlinePassed] else [])
          @ (if en_launches_reserved en \<ge> li_max_launches l then [LaunchBudgetExhausted] else [])
          @ (if running_count rd db \<ge> li_max_concurrent l then [ConcurrencyLimit] else [])
          @ (if no_progress rd (li_max_no_progress l) db then [NoProgress] else [])))"

definition project_experiment :: "string \<Rightarrow> string \<Rightarrow> db \<Rightarrow> experiment_error + experiment_row" where
  "project_experiment p i db =
    ebind (load_experiment i db) (\<lambda>e. ebind (guard (ex_project e = p) XNotFound) (\<lambda>_. Inr e))"

definition experiments :: "string \<Rightarrow> string \<Rightarrow> string \<Rightarrow> db \<Rightarrow> experiment_error + experiment_row list" where
  "experiments p r rd db = ebind (require_round p r rd db) (\<lambda>_.
     Inr (newest_first ex_created_at (\<lambda>e. ex_round e = rd) (d_experiments db)))"

definition waits :: "string \<Rightarrow> string \<Rightarrow> string \<Rightarrow> db \<Rightarrow> experiment_error + experiment_wait list" where
  "waits p r rd db = ebind (require_round p r rd db) (\<lambda>_.
     Inr (newest_first wt_created_at (\<lambda>w. in_round rd (wt_experiment w) db) (d_waits db)))"

definition active_experiments :: "db \<Rightarrow> experiment_row list" where
  "active_experiments db =
    sort_key ex_created_at (filter (\<lambda>e. ex_state e \<in> {ExReserved, ExLaunching, ExRunning, ExCancelling})
      (d_experiments db))"

end
