(* ===== verification/ExperimentSystem.thy ===== *)
theory ExperimentSystem
  imports ExperimentStore ScopeInvariants
begin

text \<open>
  The experiment store as a transition system over the shared database, and its place beside the
  team store: every operation is a sequence of writes to the execution tables, of messages posted
  inside one team and of log entries, so it keeps the invariant of the team store.
\<close>

subsection \<open>Operations as steps\<close>

text \<open>
  A random identifier is unused: an event whose identifier happens to be taken would be dropped by
  \<open>INSERT OR IGNORE\<close>.  Collisions of the other identifiers are statement failures.
\<close>

definition fresh_event :: "delivery_ids \<Rightarrow> db \<Rightarrow> bool" where
  "fresh_event ids db \<longleftrightarrow> \<not> has_key ee_id (fst ids) (d_events db)"

datatype exp_op =
    SetEnvelope | SetEnvelopeState | Reserve | Launching | Running | Observe | Cancel | Reconcile
  | SetReason | Abandon | MarkAnalyzed | RegisterWait | ExpireWaits | Remind | Decide | ReassignWaits

inductive exp_step :: "(canonical_request \<Rightarrow> string) \<Rightarrow> exp_op \<Rightarrow> db \<Rightarrow> db \<Rightarrow> bool" for hash where
  do_set_envelope: "set_envelope p r rd expected limits actor now db = Inr (en, db') \<Longrightarrow> exp_step hash SetEnvelope db db'"
| do_set_envelope_state: "set_envelope_state p r rd ens now db = Inr (en, db') \<Longrightarrow> exp_step hash SetEnvelopeState db db'"
| do_reserve: "reserve hash p r l u now clk db = Inr (eb, db') \<Longrightarrow> exp_step hash Reserve db db'"
| do_mark_launching: "mark_launching i db = Inr (e, db') \<Longrightarrow> exp_step hash Launching db db'"
| do_mark_running: "mark_running i pid now db = Inr (e, db') \<Longrightarrow> exp_step hash Running db db'"
| do_observe: "fresh_event ids db \<Longrightarrow> observe i oc ids now db = Inr (b, db') \<Longrightarrow> exp_step hash Observe db db'"
| do_request_cancel: "fresh_event ids db \<Longrightarrow> request_cancel i ids now db = Inr (e, db') \<Longrightarrow> exp_step hash Cancel db db'"
| do_reconcile: "fresh_event ids db \<Longrightarrow> reconcile p i truth code actor' ids now db = Inr (e, db') \<Longrightarrow> exp_step hash Reconcile db db'"
| do_set_reason: "set_reason i why db = Inr (un, db') \<Longrightarrow> exp_step hash SetReason db db'"
| do_abandon: "fresh_event ids db \<Longrightarrow> abandon_reserved i why ids now db = Inr (b, db') \<Longrightarrow> exp_step hash Abandon db db'"
| do_mark_analyzed: "mark_analyzed i db = Inr (e, db') \<Longrightarrow> exp_step hash MarkAnalyzed db db'"
| do_register_wait: "register_wait p t m i ko text dl u now clk db = Inr (w, db') \<Longrightarrow> exp_step hash RegisterWait db db'"
| do_expire_waits: "expire_due_waits idf now clk db = Inr (gone, db') \<Longrightarrow> exp_step hash ExpireWaits db db'"
| do_remind: "remind_unanalyzed wsecs most uf now clk db = Inr (out, db') \<Longrightarrow> exp_step hash Remind db db'"
| do_record_decision: "record_decision p d u now db = Inr (db0, db') \<Longrightarrow> exp_step hash Decide db db'"
| do_reassign_waits: "reassign_waits_of_member t m now db = Inr (n, db') \<Longrightarrow> exp_step hash ReassignWaits db db'"

subsection \<open>Inversion of the transaction wrappers\<close>

lemma write_tx_Inr:
  "write_tx m = Inr (v, db') \<longleftrightarrow>
    (\<exists>sc db1. m = Inr (v, sc, db1)
       \<and> db' = (case sc of None \<Rightarrow> db1 | Some s \<Rightarrow> append_research_event s db1))"
  by (auto simp: write_tx_def ebind_def split: sum.splits)

lemma load_experiment_Inr: "load_experiment i db = Inr e \<longleftrightarrow> row_of ex_id i (d_experiments db) = Some e"
  by (simp add: load_experiment_def err_simps)

lemma scope_of_Inr:
  "scope_of i db = Inr sc \<longleftrightarrow>
    (\<exists>e. row_of ex_id i (d_experiments db) = Some e \<and> sc = (ex_project e, ex_research e))"
  by (auto simp: scope_of_def err_simps)

lemma done_experiment_Inr:
  "done_experiment i db = Inr x \<longleftrightarrow>
    (\<exists>e. row_of ex_id i (d_experiments db) = Some e \<and> x = (e, Some (ex_project e, ex_research e), db))"
  by (auto simp: done_experiment_def err_simps load_experiment_Inr scope_of_Inr)

lemma done_flag_Inr:
  "done_flag i db = Inr x \<longleftrightarrow>
    (\<exists>e. row_of ex_id i (d_experiments db) = Some e \<and> x = (True, Some (ex_project e, ex_research e), db))"
  by (auto simp: done_flag_def err_simps scope_of_Inr)

lemma or_else_simps [simp]: "or_else None b = b" "or_else (Some x) b = Some x"
  by (simp_all add: or_else_def)

lemma or_else_Some: "or_else a b = Some x \<Longrightarrow> a = Some x \<or> b = Some x"
  by (auto simp: or_else_def split: option.splits)

lemma newest_SomeD: "newest key P rows = Some r \<Longrightarrow> r \<in> set rows \<and> P r"
proof -
  assume "newest key P rows = Some r"
  then have "r \<in> set (newest_first key P rows)"
    by (auto simp: newest_def split: list.splits)
  then show ?thesis by (simp add: newest_first_def)
qed

lemmas tx_Inr = write_tx_Inr load_experiment_Inr scope_of_Inr done_experiment_Inr done_flag_Inr

lemma append_research_event_sel [simp]:
  "d_teams (append_research_event sc db) = d_teams db"
  "d_members (append_research_event sc db) = d_members db"
  "d_tasks (append_research_event sc db) = d_tasks db"
  "d_deps (append_research_event sc db) = d_deps db"
  "d_messages (append_research_event sc db) = d_messages db"
  "d_permissions (append_research_event sc db) = d_permissions db"
  "d_rounds (append_research_event sc db) = d_rounds db"
  "d_attempts (append_research_event sc db) = d_attempts db"
  "d_inputs (append_research_event sc db) = d_inputs db"
  "d_envelopes (append_research_event sc db) = d_envelopes db"
  "d_envelope_revisions (append_research_event sc db) = d_envelope_revisions db"
  "d_experiments (append_research_event sc db) = d_experiments db"
  "d_waits (append_research_event sc db) = d_waits db"
  "d_events (append_research_event sc db) = d_events db"
  "d_decisions (append_research_event sc db) = d_decisions db"
  "d_questions (append_research_event sc db) = d_questions db"
  "d_research_rounds (append_research_event sc db) = d_research_rounds db"
  by (simp_all add: append_research_event_def)

subsection \<open>The writes of an operation\<close>

text \<open>
  \<open>writes db db'\<close>: the primitive statements that lead from \<open>db\<close> to \<open>db'\<close>.  Rows keep their keys;
  a message is a system message between members of the team its task belongs to.
\<close>

inductive writes :: "db \<Rightarrow> db \<Rightarrow> bool" where
  w_none: "writes db db"
| w_post: "writes db db1 \<Longrightarrow> in_team t f db1 \<Longrightarrow> in_team t g db1 \<Longrightarrow> (\<And>k. task = Some k \<Longrightarrow> task_in_team t k db1)
    \<Longrightarrow> ins_messages (new_message_row u t f g MkSystem task body now) db1 = Some db2 \<Longrightarrow> writes db db2"
| w_event: "writes db db1 \<Longrightarrow> ins_events ev db1 = Some db2 \<Longrightarrow> writes db db2"
| w_link: "writes db db1 \<Longrightarrow> writes db (upd_events Pev (\<lambda>x. x\<lparr>ee_message := m\<rparr>) db1)"
| w_envelope: "writes db db1 \<Longrightarrow> ins_envelopes en db1 = Some db2 \<Longrightarrow> writes db db2"
| w_revision: "writes db db1 \<Longrightarrow> ins_envelope_revisions er db1 = Some db2 \<Longrightarrow> writes db db2"
| w_experiment: "writes db db1 \<Longrightarrow> ins_experiments ex db1 = Some db2 \<Longrightarrow> writes db db2"
| w_wait: "writes db db1 \<Longrightarrow> ins_waits w db1 = Some db2 \<Longrightarrow> writes db db2"
| w_decision: "writes db db1 \<Longrightarrow> ins_decisions d db1 = Some db2 \<Longrightarrow> writes db db2"
| w_upd_envelopes: "writes db db1 \<Longrightarrow> (\<And>r. en_round (fe r) = en_round r) \<Longrightarrow> writes db (upd_envelopes Pe fe db1)"
| w_upd_experiments: "writes db db1 \<Longrightarrow> (\<And>r. ex_id (fx r) = ex_id r) \<Longrightarrow> (\<And>r. ex_round (fx r) = ex_round r)
    \<Longrightarrow> (\<And>r. ex_key (fx r) = ex_key r) \<Longrightarrow> (\<And>r. ex_team (fx r) = ex_team r)
    \<Longrightarrow> writes db (upd_experiments Px fx db1)"
| w_upd_waits: "writes db db1 \<Longrightarrow> (\<And>r. wt_id (fw r) = wt_id r) \<Longrightarrow> (\<And>r. wt_experiment (fw r) = wt_experiment r)
    \<Longrightarrow> (\<And>r. wt_team (fw r) = wt_team r) \<Longrightarrow> writes db (upd_waits Pw fw db1)"
| w_log: "writes db db1 \<Longrightarrow> writes db (append_research_event sc db1)"

lemma ins_exec_put:
  "ins_events r0 db = Some db' \<Longrightarrow> db' = put_events r0 db"
  "ins_envelopes r1 db = Some db' \<Longrightarrow> db' = put_envelopes r1 db"
  "ins_envelope_revisions r2 db = Some db' \<Longrightarrow> db' = put_envelope_revisions r2 db"
  "ins_experiments r3 db = Some db' \<Longrightarrow> db' = put_experiments r3 db"
  "ins_waits r4 db = Some db' \<Longrightarrow> db' = put_waits r4 db"
  "ins_decisions r5 db = Some db' \<Longrightarrow> db' = put_decisions r5 db"
  "ins_messages r6 db = Some db' \<Longrightarrow> db' = put_messages r6 db"
  by (simp_all add: ins_events_def ins_envelopes_def ins_envelope_revisions_def ins_experiments_def
      ins_waits_def ins_decisions_def ins_messages_def split: if_split_asm)

lemma writes_frames:
  "writes db db' \<Longrightarrow> d_teams db' = d_teams db \<and> d_members db' = d_members db \<and> d_tasks db' = d_tasks db
    \<and> d_deps db' = d_deps db \<and> d_permissions db' = d_permissions db \<and> d_rounds db' = d_rounds db
    \<and> d_attempts db' = d_attempts db \<and> d_inputs db' = d_inputs db
    \<and> d_questions db' = d_questions db \<and> d_research_rounds db' = d_research_rounds db"
  by (induction rule: writes.induct) (auto dest!: ins_exec_put)

lemma schema_writes: "writes db db' \<Longrightarrow> schema_ok db \<Longrightarrow> schema_ok db'"
  by (induction rule: writes.induct)
    (simp_all add: append_research_event_def schema_ins_team_rows schema_ins_exec_rows schema_upd_events
      schema_upd_envelopes schema_upd_experiments schema_upd_waits schema_append_workspace_event)

text \<open>The team store reads none of the execution tables in its invariant except through the schema.\<close>

lemma team_inv_cong:
  assumes "team_inv parse db" "schema_ok db'"
    "d_teams db' = d_teams db" "d_members db' = d_members db" "d_tasks db' = d_tasks db"
    "d_messages db' = d_messages db" "d_deps db' = d_deps db" "d_permissions db' = d_permissions db"
    "d_rounds db' = d_rounds db" "d_attempts db' = d_attempts db" "d_inputs db' = d_inputs db"
  shows "team_inv parse db'"
  using assms(1,2) mailbox_ok_cong [OF assms(6)] permissions_ok_cong [OF assms(8)] limits_ok_cong [OF assms(3)]
    leaders_ok_cong [OF assms(3,4)] teammates_ok_cong [OF assms(4)] work_ok_cong [OF assms(5,10)]
    scope_ok_cong [OF assms(4,5,6,10,7,9,11,8)] assms(7)
  by (simp add: team_inv_def deps_acyclic_def)

lemma team_inv_post:
  assumes "team_inv parse db" "in_team t f db" "in_team t g db" "\<And>k. task = Some k \<Longrightarrow> task_in_team t k db"
    "ins_messages (new_message_row u t f g MkSystem task body now) db = Some db'"
  shows "team_inv parse db'"
proof -
  let ?x = "new_message_row u t f g MkSystem task body now"
  have db': "db' = put_messages ?x db" using assms(5) by (auto simp: ins_messages_def split: if_split_asm)
  have x: "message_scope db ?x" using assms(2-4) by (simp add: message_scope_def)
  have schema: "schema_ok db'" using assms(1,5) schema_ins_team_rows unfolding team_inv_def by blast
  show ?thesis
    using assms(1) schema scope_put_rows(1) [OF _ x] permissions_ok_cong [of db' db parse] limits_ok_cong [of db' db]
      leaders_ok_cong [of db' db] teammates_ok_cong [of db' db] work_ok_cong [of db' db]
    unfolding team_inv_def db' by (simp add: deps_acyclic_def)
qed

lemma team_inv_ins:
  assumes "team_inv parse db"
  shows "ins_events r0 db = Some db' \<Longrightarrow> team_inv parse db'"
    and "ins_envelopes r1 db = Some db' \<Longrightarrow> team_inv parse db'"
    and "ins_envelope_revisions r2 db = Some db' \<Longrightarrow> team_inv parse db'"
    and "ins_experiments r3 db = Some db' \<Longrightarrow> team_inv parse db'"
    and "ins_waits r4 db = Some db' \<Longrightarrow> team_inv parse db'"
    and "ins_decisions r5 db = Some db' \<Longrightarrow> team_inv parse db'"
proof -
  have schema: "schema_ok db" using assms by (simp add: team_inv_def)
  note ok = schema_ins_exec_rows [OF _ schema] and put = ins_exec_put [where db = db and db' = db']
  show "ins_events r0 db = Some db' \<Longrightarrow> team_inv parse db'"
    by (rule team_inv_cong [OF assms]) (auto dest: ok(5), auto dest!: put(1))
  show "ins_envelopes r1 db = Some db' \<Longrightarrow> team_inv parse db'"
    by (rule team_inv_cong [OF assms]) (auto dest: ok(1), auto dest!: put(2))
  show "ins_envelope_revisions r2 db = Some db' \<Longrightarrow> team_inv parse db'"
    by (rule team_inv_cong [OF assms]) (auto dest: ok(2), auto dest!: put(3))
  show "ins_experiments r3 db = Some db' \<Longrightarrow> team_inv parse db'"
    by (rule team_inv_cong [OF assms]) (auto dest: ok(3), auto dest!: put(4))
  show "ins_waits r4 db = Some db' \<Longrightarrow> team_inv parse db'"
    by (rule team_inv_cong [OF assms]) (auto dest: ok(4), auto dest!: put(5))
  show "ins_decisions r5 db = Some db' \<Longrightarrow> team_inv parse db'"
    by (rule team_inv_cong [OF assms]) (auto dest: ok(6), auto dest!: put(6))
qed

lemma team_inv_upd:
  assumes "team_inv parse db"
  shows "team_inv parse (upd_events P0 (\<lambda>x. x\<lparr>ee_message := m\<rparr>) db)"
    and "(\<And>r. en_round (fe r) = en_round r) \<Longrightarrow> team_inv parse (upd_envelopes P1 fe db)"
    and "(\<And>r. ex_id (fx r) = ex_id r) \<Longrightarrow> (\<And>r. ex_round (fx r) = ex_round r) \<Longrightarrow> (\<And>r. ex_key (fx r) = ex_key r)
      \<Longrightarrow> (\<And>r. ex_team (fx r) = ex_team r) \<Longrightarrow> team_inv parse (upd_experiments P2 fx db)"
    and "(\<And>r. wt_id (fw r) = wt_id r) \<Longrightarrow> (\<And>r. wt_experiment (fw r) = wt_experiment r)
      \<Longrightarrow> (\<And>r. wt_team (fw r) = wt_team r) \<Longrightarrow> team_inv parse (upd_waits P3 fw db)"
    and "team_inv parse (append_research_event sc db)"
proof -
  have schema: "schema_ok db" using assms by (simp add: team_inv_def)
  show "team_inv parse (upd_events P0 (\<lambda>x. x\<lparr>ee_message := m\<rparr>) db)"
    by (rule team_inv_cong [OF assms]) (simp_all add: schema_upd_events schema)
  show "(\<And>r. en_round (fe r) = en_round r) \<Longrightarrow> team_inv parse (upd_envelopes P1 fe db)"
    by (rule team_inv_cong [OF assms]) (simp_all add: schema_upd_envelopes schema)
  show "(\<And>r. ex_id (fx r) = ex_id r) \<Longrightarrow> (\<And>r. ex_round (fx r) = ex_round r) \<Longrightarrow> (\<And>r. ex_key (fx r) = ex_key r)
      \<Longrightarrow> (\<And>r. ex_team (fx r) = ex_team r) \<Longrightarrow> team_inv parse (upd_experiments P2 fx db)"
    by (rule team_inv_cong [OF assms]) (simp_all add: schema_upd_experiments schema)
  show "(\<And>r. wt_id (fw r) = wt_id r) \<Longrightarrow> (\<And>r. wt_experiment (fw r) = wt_experiment r)
      \<Longrightarrow> (\<And>r. wt_team (fw r) = wt_team r) \<Longrightarrow> team_inv parse (upd_waits P3 fw db)"
    by (rule team_inv_cong [OF assms]) (simp_all add: schema_upd_waits schema)
  show "team_inv parse (append_research_event sc db)"
    by (rule team_inv_cong [OF assms])
      (simp_all add: append_research_event_def schema_append_workspace_event schema)
qed

lemma team_inv_writes: "writes db db' \<Longrightarrow> team_inv parse db \<Longrightarrow> team_inv parse db'"
proof (induction rule: writes.induct)
  case (w_post db db1 t f g task u body now db2)
  show ?case by (rule team_inv_post [OF w_post.IH [OF w_post.prems] w_post.hyps(2-5)])
qed (simp_all add: team_inv_upd, (erule (1) team_inv_ins)+)

subsection \<open>References of experiments and waits\<close>

text \<open>
  The task of an experiment belongs to the team of the experiment, a wait belongs to the team of
  its experiment and names a task of that team.
\<close>

definition experiment_link :: "db \<Rightarrow> experiment_row \<Rightarrow> bool" where
  "experiment_link db e \<longleftrightarrow> (\<forall>t k. ex_team e = Some t \<and> ex_task e = Some k \<longrightarrow> task_in_team t k db)"

definition wait_link :: "db \<Rightarrow> experiment_wait \<Rightarrow> bool" where
  "wait_link db w \<longleftrightarrow>
    (\<exists>e\<in>set (d_experiments db). ex_id e = wt_experiment w \<and> ex_team e = Some (wt_team w))
    \<and> (\<forall>k. wt_task w = Some k \<longrightarrow> task_in_team (wt_team w) k db)"

definition links_ok :: "db \<Rightarrow> bool" where
  "links_ok db \<longleftrightarrow> (\<forall>e\<in>set (d_experiments db). experiment_link db e) \<and> (\<forall>w\<in>set (d_waits db). wait_link db w)"

lemma links_ok_cong:
  assumes "d_experiments db' = d_experiments db" "d_waits db' = d_waits db" "d_tasks db' = d_tasks db"
  shows "links_ok db' = links_ok db"
  using assms by (simp add: links_ok_def experiment_link_def wait_link_def task_in_team_def)

lemma wait_link_upd_experiments:
  assumes "\<And>r. ex_id (f r) = ex_id r" "\<And>r. ex_team (f r) = ex_team r"
  shows "wait_link (upd_experiments P f db) w = wait_link db w"
proof -
  have "(\<exists>e\<in>set (update_where P f rows). ex_id e = i \<and> ex_team e = t)
      = (\<exists>e\<in>set rows. ex_id e = i \<and> ex_team e = t)" for rows i t
    using assms by (induction rows) (auto simp: update_where_def)
  then show ?thesis by (simp add: wait_link_def task_in_team_def)
qed

lemma links_upd_experiments:
  assumes "links_ok db" "\<And>r. ex_id (f r) = ex_id r" "\<And>r. ex_team (f r) = ex_team r" "\<And>r. ex_task (f r) = ex_task r"
  shows "links_ok (upd_experiments P f db)"
proof -
  have "(P e \<longrightarrow> experiment_link (upd_experiments P f db) (f e)) \<and> (\<not> P e \<longrightarrow> experiment_link (upd_experiments P f db) e)
    \<longleftrightarrow> experiment_link db e" for e
    using assms by (simp add: experiment_link_def task_in_team_def)
  then show ?thesis using assms(1) wait_link_upd_experiments [of f P db] assms(2,3)
    by (simp add: links_ok_def ball_update_where)
qed

lemma links_upd_waits:
  assumes "links_ok db" "\<And>r. wt_experiment (f r) = wt_experiment r" "\<And>r. wt_team (f r) = wt_team r"
    "\<And>r. wt_task (f r) = wt_task r"
  shows "links_ok (upd_waits P f db)"
proof -
  have "(P w \<longrightarrow> wait_link (upd_waits P f db) (f w)) \<and> (\<not> P w \<longrightarrow> wait_link (upd_waits P f db) w)
    \<longleftrightarrow> wait_link db w" for w
    using assms by (simp add: wait_link_def task_in_team_def)
  moreover have "experiment_link (upd_waits P f db) e = experiment_link db e" for e
    by (simp add: experiment_link_def task_in_team_def)
  ultimately show ?thesis using assms(1) by (simp add: links_ok_def ball_update_where)
qed

text \<open>The invariants a delivery relies on.\<close>

definition post_ok :: "db \<Rightarrow> bool" where
  "post_ok db \<longleftrightarrow> schema_ok db \<and> leaders_ok db \<and> links_ok db"

lemma post_ok_cong:
  assumes "post_ok db" "schema_ok db'" "d_teams db' = d_teams db" "d_members db' = d_members db"
    "d_experiments db' = d_experiments db" "d_waits db' = d_waits db" "d_tasks db' = d_tasks db"
  shows "post_ok db'"
  using assms leaders_ok_cong [OF assms(3,4)] links_ok_cong [OF assms(5-7)] by (simp add: post_ok_def)

lemma post_ok_ins:
  assumes "post_ok db"
  shows "ins_events r db = Some db' \<Longrightarrow> post_ok db'"
    and "ins_messages x db = Some db' \<Longrightarrow> post_ok db'"
proof -
  have schema: "schema_ok db" using assms by (simp add: post_ok_def)
  show "ins_events r db = Some db' \<Longrightarrow> post_ok db'"
    by (rule post_ok_cong [OF assms]) (auto dest: schema_ins_exec_rows(5) [OF _ schema], auto dest!: ins_exec_put)
  assume ins: "ins_messages x db = Some db'"
  then have "schema_ok db'" using schema_ins_team_rows schema by blast
  then show "post_ok db'" using ins by (intro post_ok_cong [OF assms]) (auto dest!: ins_exec_put)
qed

lemma post_ok_upd:
  assumes "post_ok db"
  shows "post_ok (upd_events P0 (\<lambda>x. x\<lparr>ee_message := m\<rparr>) db)"
    and "(\<And>r. en_round (fe r) = en_round r) \<Longrightarrow> post_ok (upd_envelopes P1 fe db)"
    and "(\<And>r. ex_id (fx r) = ex_id r) \<Longrightarrow> (\<And>r. ex_round (fx r) = ex_round r) \<Longrightarrow> (\<And>r. ex_key (fx r) = ex_key r)
      \<Longrightarrow> (\<And>r. ex_team (fx r) = ex_team r) \<Longrightarrow> (\<And>r. ex_task (fx r) = ex_task r) \<Longrightarrow> post_ok (upd_experiments P2 fx db)"
    and "(\<And>r. wt_id (fw r) = wt_id r) \<Longrightarrow> (\<And>r. wt_experiment (fw r) = wt_experiment r)
      \<Longrightarrow> (\<And>r. wt_team (fw r) = wt_team r) \<Longrightarrow> (\<And>r. wt_task (fw r) = wt_task r) \<Longrightarrow> post_ok (upd_waits P3 fw db)"
    and "post_ok (append_research_event sc db)"
proof -
  have schema: "schema_ok db" using assms by (simp add: post_ok_def)
  show "post_ok (upd_events P0 (\<lambda>x. x\<lparr>ee_message := m\<rparr>) db)"
    by (rule post_ok_cong [OF assms]) (simp_all add: schema_upd_events schema)
  show "(\<And>r. en_round (fe r) = en_round r) \<Longrightarrow> post_ok (upd_envelopes P1 fe db)"
    by (rule post_ok_cong [OF assms]) (simp_all add: schema_upd_envelopes schema)
  show "(\<And>r. ex_id (fx r) = ex_id r) \<Longrightarrow> (\<And>r. ex_round (fx r) = ex_round r) \<Longrightarrow> (\<And>r. ex_key (fx r) = ex_key r)
      \<Longrightarrow> (\<And>r. ex_team (fx r) = ex_team r) \<Longrightarrow> (\<And>r. ex_task (fx r) = ex_task r) \<Longrightarrow> post_ok (upd_experiments P2 fx db)"
    using assms leaders_ok_cong [of "upd_experiments P2 fx db" db]
    by (simp add: post_ok_def schema_upd_experiments links_upd_experiments)
  show "(\<And>r. wt_id (fw r) = wt_id r) \<Longrightarrow> (\<And>r. wt_experiment (fw r) = wt_experiment r)
      \<Longrightarrow> (\<And>r. wt_team (fw r) = wt_team r) \<Longrightarrow> (\<And>r. wt_task (fw r) = wt_task r) \<Longrightarrow> post_ok (upd_waits P3 fw db)"
    using assms leaders_ok_cong [of "upd_waits P3 fw db" db]
    by (simp add: post_ok_def schema_upd_waits links_upd_waits)
  show "post_ok (append_research_event sc db)"
    by (rule post_ok_cong [OF assms]) (simp_all add: append_research_event_def schema_append_workspace_event schema)
qed

subsection \<open>Delivery is posting\<close>

lemma leader_of_in_team: "leader_of t db = Inr l \<Longrightarrow> leaders_ok db \<Longrightarrow> in_team t l db"
  using leader_in_team by (auto simp: leader_of_def err_simps)

lemma recipient_in_team: "in_team t l db \<Longrightarrow> in_team t (recipient_for t l c db) db"
  by (auto simp: recipient_for_def in_team_def list_ex_iff split: option.split)

lemma row_in_experiments: "row_of ex_id i (d_experiments db) = Some e \<Longrightarrow> e \<in> set (d_experiments db) \<and> ex_id e = i"
  by (drule row_of_SomeD)

lemma message_task_in_team:
  assumes "post_ok db" "e \<in> set (d_experiments db)" "ex_team e = Some t"
    "or_else (ex_task e) (Option.bind (latest_wait (ex_id e) db) wt_task) = Some k"
  shows "task_in_team t k db"
proof -
  consider "ex_task e = Some k" | w where "latest_wait (ex_id e) db = Some w" "wt_task w = Some k"
    using or_else_Some [OF assms(4)] by (auto simp: Option.bind_eq_Some_conv)
  then show ?thesis
  proof cases
    case 1
    then show ?thesis using assms(1-3) by (auto simp: post_ok_def links_ok_def experiment_link_def)
  next
    case (2 w)
    then have w: "w \<in> set (d_waits db)" "wt_experiment w = ex_id e"
      using newest_SomeD unfolding latest_wait_def by fastforce+
    then have "wait_link db w" using assms(1) by (simp add: post_ok_def links_ok_def)
    then obtain e' where e': "e' \<in> set (d_experiments db)" "ex_id e' = ex_id e" "ex_team e' = Some (wt_team w)"
        and k: "task_in_team (wt_team w) k db"
      using 2(2) w(2) by (auto simp: wait_link_def)
    have "e' = e" using unique_key_eqD [OF _ e'(1) assms(2) e'(2)] assms(1) by (simp add: post_ok_def schema_defs)
    then show ?thesis using k e'(3) assms(3) by simp
  qed
qed

lemma enqueue_to_leader_writes:
  assumes "enqueue_to_leader e body u now db = Inr db'" "writes db0 db" "post_ok db" "e \<in> set (d_experiments db)"
  shows "writes db0 db' \<and> post_ok db'"
proof -
  obtain t l where t: "ex_team e = Some t" "leader_of t db = Inr l"
      "ins_messages (new_message_row u t l l MkSystem (ex_task e) body now) db = Some db'"
    using assms(1) by (auto simp: enqueue_to_leader_def insert_message_def err_simps)
  have "in_team t l db" using leader_of_in_team [OF t(2)] assms(3) by (simp add: post_ok_def)
  moreover have "task_in_team t k db" if "ex_task e = Some k" for k
    using that t(1) assms(3,4) by (auto simp: post_ok_def links_ok_def experiment_link_def)
  ultimately show ?thesis using w_post [OF assms(2) _ _ _ t(3)] post_ok_ins(2) [OF assms(3) t(3)] by blast
qed

lemma enqueue_message_writes:
  assumes "enqueue_message e body hint u now db = Inr db'" "writes db0 db" "post_ok db" "e \<in> set (d_experiments db)"
  shows "writes db0 db' \<and> post_ok db'"
proof -
  let ?task = "or_else (ex_task e) (Option.bind (latest_wait (ex_id e) db) wt_task)"
  obtain t l c where t: "ex_team e = Some t" "leader_of t db = Inr l"
      "ins_messages (new_message_row u t l (recipient_for t l c db) MkSystem ?task body now) db = Some db'"
    using assms(1) by (auto simp: enqueue_message_def insert_message_def err_simps Let_def)
  have l: "in_team t l db" using leader_of_in_team [OF t(2)] assms(3) by (simp add: post_ok_def)
  have "task_in_team t k db" if "?task = Some k" for k
    by (rule message_task_in_team [OF assms(3,4) t(1) that])
  then show ?thesis
    using w_post [OF assms(2) l recipient_in_team [OF l] _ t(3)] post_ok_ins(2) [OF assms(3) t(3)] by blast
qed

lemma enqueue_frames:
  "enqueue_to_leader e body u now db = Inr db' \<Longrightarrow> \<exists>x. db' = put_messages x db \<and> ms_id x = u"
  "enqueue_message e body hint u now db = Inr db' \<Longrightarrow> \<exists>x. db' = put_messages x db \<and> ms_id x = u"
  by (auto simp: enqueue_to_leader_def enqueue_message_def insert_message_def err_simps Let_def dest!: ins_exec_put)

lemma tell_leader_writes:
  assumes "tell_leader e t body kind ids now db = Inr db'" "writes db0 db" "post_ok db" "e \<in> set (d_experiments db)"
  shows "writes db0 db' \<and> post_ok db'"
proof -
  obtain ev message copy where ids: "ids = (ev, message, copy)" by (cases ids)
  consider "db' = db"
    | db1 where "enqueue_to_leader e (body @ '' (Its owner has also been told.)'') copy now db = Inr db1"
        "db' = link_message ev copy db1"
    using assms(1) by (auto simp: tell_leader_def ids err_simps split: if_split_asm)
  then show ?thesis
  proof cases
    case 1
    then show ?thesis using assms by simp
  next
    case (2 db1)
    then show ?thesis using enqueue_to_leader_writes [OF 2(1) assms(2-4)] w_link post_ok_upd(1) by auto
  qed
qed

lemma deliver_writes:
  assumes "deliver_about i kind wait ids now db = Inr db'" "writes db0 db" "post_ok db"
  shows "writes db0 db' \<and> post_ok db'"
proof -
  obtain ev message copy where ids: "ids = (ev, message, copy)" by (cases ids)
  obtain e where e: "row_of ex_id i (d_experiments db) = Some e"
    using assms(1) by (auto simp: deliver_about_def ids err_simps load_experiment_Inr)
  then have mem: "e \<in> set (d_experiments db)" by (blast dest: row_in_experiments)
  consider "db' = db" | r db1 where "ins_events r db = Some db1" "db' = db1"
    | r db1 db2 t body hint where "ins_events r db = Some db1" "enqueue_message e body hint message now db1 = Inr db2"
        "tell_leader e t body kind ids now (link_message ev message db2) = Inr db'"
    using assms(1) e
    by (auto simp: deliver_about_def ids err_simps load_experiment_Inr Let_def split: if_split_asm option.splits)
  then show ?thesis
  proof cases
    case 1
    then show ?thesis using assms by simp
  next
    case (2 r db1)
    then show ?thesis using w_event [OF assms(2) 2(1)] post_ok_ins(1) [OF assms(3) 2(1)] by simp
  next
    case (3 r db1 db2 t body hint)
    have mem1: "e \<in> set (d_experiments db1)" using mem ins_exec_put(1) [OF 3(1)] by simp
    have 2: "writes db0 db2 \<and> post_ok db2"
      by (rule enqueue_message_writes [OF 3(2) w_event [OF assms(2) 3(1)] post_ok_ins(1) [OF assms(3) 3(1)] mem1])
    have mem2: "e \<in> set (d_experiments (link_message ev message db2))"
      using mem1 enqueue_frames(2) [OF 3(2)] by auto
    show ?thesis
      by (rule tell_leader_writes [OF 3(3) _ _ mem2]) (use 2 w_link post_ok_upd(1) in blast)+
  qed
qed

subsection \<open>What each operation does when it succeeds\<close>

lemma resolve_open_waits_sel [simp]:
  "d_envelopes (resolve_open_waits i now db) = d_envelopes db"
  "d_envelope_revisions (resolve_open_waits i now db) = d_envelope_revisions db"
  "d_experiments (resolve_open_waits i now db) = d_experiments db"
  "d_events (resolve_open_waits i now db) = d_events db"
  "d_decisions (resolve_open_waits i now db) = d_decisions db"
  "d_tasks (resolve_open_waits i now db) = d_tasks db"
  "d_messages (resolve_open_waits i now db) = d_messages db"
  by (simp_all add: resolve_open_waits_def)

lemma observe_cases:
  assumes "observe i oc ids now db = Inr (b, db')"
  obtains (again) "db' = db" "\<not> b"
  | (first) e db1 sc where "row_of ex_id i (d_experiments db) = Some e" "is_active (ex_state e)"
      "\<not> is_active (observed_state oc e) \<or> observed_state oc e = ExUnknown" "b"
      "deliver i EkFinished ids now (set_experiment i (observed_row (observed_state oc e) oc now) db) = Inr db1"
      "db' = append_research_event sc (resolve_open_waits i now db1)"
  using assms by (auto simp: observe_def tx_Inr err_simps Let_def split: if_split_asm)

lemma request_cancel_cases:
  assumes "request_cancel i ids now db = Inr (r, db')"
  obtains (noop) "db' = db"
  | (before) e db2 sc where "row_of ex_id i (d_experiments db) = Some e" "ex_state e = ExReserved" "\<not> ex_cancel_requested e"
      "deliver i EkFinished ids now (set_experiment i (cancelled_before_launch now)
         (set_experiment i (\<lambda>x. x\<lparr>ex_cancel_requested := True\<rparr>) db)) = Inr db2"
      "db' = append_research_event sc (resolve_open_waits i now db2)"
  | (live) e sc where "row_of ex_id i (d_experiments db) = Some e" "ex_state e \<in> {ExLaunching, ExRunning}"
      "\<not> ex_cancel_requested e"
      "db' = append_research_event sc (set_experiment i (\<lambda>x. x\<lparr>ex_state := ExCancelling\<rparr>)
         (set_experiment i (\<lambda>x. x\<lparr>ex_cancel_requested := True\<rparr>) db))"
  | (intent) e sc where "row_of ex_id i (d_experiments db) = Some e" "ex_state e \<in> {ExCancelling, ExUnknown}"
      "db' = append_research_event sc (set_experiment i (\<lambda>x. x\<lparr>ex_cancel_requested := True\<rparr>) db)"
proof -
  obtain e where e: "row_of ex_id i (d_experiments db) = Some e"
    using assms by (auto simp: request_cancel_def tx_Inr err_simps)
  show thesis
  proof (cases "\<not> is_active (ex_state e) \<or> ex_cancel_requested e")
    case True
    then show thesis using assms e by (intro noop) (simp add: request_cancel_def tx_Inr err_simps load_experiment_def)
  next
    case False
    then have s: "is_active (ex_state e)" "\<not> ex_cancel_requested e" by auto
    show thesis
    proof (cases "ex_state e = ExReserved")
      case True
      then show thesis using assms e s before
        by (auto simp: request_cancel_def tx_Inr err_simps load_experiment_def Let_def)
    next
      case res: False
      show thesis
      proof (cases "ex_state e \<in> {ExLaunching, ExRunning}")
        case True
        then show thesis using assms e s res
          by (intro live [OF e True s(2)]) (auto simp: request_cancel_def tx_Inr err_simps load_experiment_def Let_def)
      next
        case False
        then have "ex_state e \<in> {ExCancelling, ExUnknown}" using s res by (cases "ex_state e") auto
        then show thesis using assms e s res False
          by (intro intent [OF e]) (auto simp: request_cancel_def tx_Inr err_simps load_experiment_def Let_def)
      qed
    qed
  qed
qed

lemma reconcile_cases:
  assumes "reconcile p i truth code actor ids now db = Inr (r, db')"
  obtains e reason db3 sc where "row_of ex_id i (d_experiments db) = Some e" "ex_project e = p" "ex_state e = ExUnknown"
    "deliver i EkReconciled ids now (resolve_open_waits i now
       (if truth = NotStarted then refund_launch (ex_round e) (set_experiment i (reconciled_row truth code reason now) db)
        else set_experiment i (reconciled_row truth code reason now) db)) = Inr db3"
    "db' = append_research_event sc db3"
  using assms by (auto simp: reconcile_def tx_Inr err_simps Let_def)

lemma abandon_cases:
  assumes "abandon_reserved i why ids now db = Inr (b, db')"
  obtains (noop) "db' = db" "\<not> b"
  | (gone) e db1 sc where "row_of ex_id i (d_experiments db) = Some e" "ex_state e = ExReserved" "b"
      "deliver i EkFinished ids now (refund_launch (ex_round e) (set_experiment i (abandoned_row why now) db)) = Inr db1"
      "db' = append_research_event sc (resolve_open_waits i now db1)"
  using assms by (auto simp: abandon_reserved_def tx_Inr err_simps Let_def split: if_split_asm)

lemma transition_cases:
  assumes "transition i from_states to_state why db = Inr (r, db')"
  obtains e sc where "row_of ex_id i (d_experiments db) = Some e"
    "changed (\<lambda>e. ex_id e = i \<and> ex_state e \<in> set from_states) (d_experiments db) \<noteq> 0"
    "db' = append_research_event sc (upd_experiments (\<lambda>e. ex_id e = i \<and> ex_state e \<in> set from_states)
       (\<lambda>e. e\<lparr>ex_state := to_state, ex_reason := or_else why (ex_reason e)\<rparr>) db)"
proof -
  have "changed P rows \<noteq> 0 \<Longrightarrow> (\<And>e. P e \<Longrightarrow> ex_id e = i) \<Longrightarrow> \<exists>e. row_of ex_id i rows = Some e" for P and rows :: "experiment_row list"
    using row_of_exists [of ex_id i rows] by (auto simp: has_key_iff)
  then show thesis using assms that
    by (fastforce simp: transition_def tx_Inr err_simps Let_def simp del: changed_0)
qed

lemma mark_running_cases:
  assumes "mark_running i pid now db = Inr (r, db')"
  obtains e sc where "row_of ex_id i (d_experiments db) = Some e"
    "changed (\<lambda>x. ex_id x = i \<and> ex_state x \<in> {ExLaunching, ExReserved, ExCancelling}) (d_experiments db) \<noteq> 0"
    "db' = append_research_event sc (upd_experiments (\<lambda>x. ex_id x = i \<and> ex_state x \<in> {ExLaunching, ExReserved, ExCancelling})
       (running_row (if ex_cancel_requested e then ExCancelling else ExRunning) pid now) db)"
  using assms by (fastforce simp: mark_running_def tx_Inr err_simps Let_def simp del: changed_0)

lemma set_reason_Inr:
  "set_reason i why db = Inr (u, db') \<Longrightarrow> db' =
    upd_experiments (\<lambda>e. ex_id e = i \<and> ex_state e \<in> {ExLaunching, ExRunning, ExCancelling})
      (\<lambda>e. e\<lparr>ex_reason := Some why\<rparr>) db"
  by (simp add: set_reason_def write_tx_def)

lemma mark_analyzed_cases:
  assumes "mark_analyzed i db = Inr (r, db')"
  obtains (noop) "db' = db"
  | (settled) e sc where "row_of ex_id i (d_experiments db) = Some e" "\<not> is_active (ex_state e)"
      "db' = append_research_event sc (set_experiment i (\<lambda>x. x\<lparr>ex_analysis := AnAnalyzed\<rparr>) db)"
  using assms by (auto simp: mark_analyzed_def tx_Inr err_simps split: if_split_asm)

lemma set_envelope_cases:
  assumes "set_envelope p r rd expected request actor now db = Inr (en, db')"
  obtains (noop) "db' = db" "load_envelope rd db = Some en"
  | (create) limits where "normalized_limits request = Inr limits" "load_envelope rd db = None"
      "db' = append_research_event (p, r) (put_envelope_revisions
         \<lparr>er_round = rd, er_revision = 1, er_limits = limits, er_actor = actor\<rparr>
         (put_envelopes (new_envelope rd r 1 limits now) db))"
      "writes db db'"
  | (revise) limits old where "normalized_limits request = Inr limits" "load_envelope rd db = Some old"
      "expected = Some (en_revision old)" "en_limits old \<noteq> limits"
      "db' = append_research_event (p, r) (put_envelope_revisions
         \<lparr>er_round = rd, er_revision = en_revision old + 1, er_limits = limits, er_actor = actor\<rparr>
         (upd_envelopes (\<lambda>x. en_round x = rd)
            (\<lambda>x. x\<lparr>en_revision := en_revision old + 1, en_limits := limits, en_updated_at := now\<rparr>) db))"
      "writes db db'"
proof -
  obtain limits rev where l: "normalized_limits request = Inr limits"
      "next_revision (load_envelope rd db) expected limits = Inr rev"
    using assms by (auto simp: set_envelope_def tx_Inr err_simps)
  show thesis
  proof (cases rev)
    case None
    then show thesis using assms l
      by (intro noop) (auto simp: set_envelope_def tx_Inr err_simps)
  next
    case (Some n)
    obtain db1 db2 where db: "store_limits r rd n limits now db = Inr db1"
        "ins_envelope_revisions \<lparr>er_round = rd, er_revision = n, er_limits = limits, er_actor = actor\<rparr> db1 = Some db2"
        "db' = append_research_event (p, r) db2"
      using assms l Some by (auto simp: set_envelope_def tx_Inr err_simps)
    show thesis
    proof (cases "load_envelope rd db")
      case None
      then have n: "n = 1" using l(2) Some by (auto simp: next_revision_def split: option.splits if_split_asm)
      have ins: "ins_envelopes (new_envelope rd r n limits now) db = Some db1"
        using db(1) None by (simp add: store_limits_def err_simps)
      have w: "writes db db'" unfolding db(3) by (rule w_log [OF w_revision [OF w_envelope [OF w_none ins] db(2)]])
      show thesis
        by (rule create [OF l(1) None _ w]) (use db(3) ins_exec_put(3) [OF db(2)] ins_exec_put(2) [OF ins] n in simp)
    next
      case old: (Some old)
      then have n: "n = en_revision old + 1" "expected = Some (en_revision old)" "en_limits old \<noteq> limits"
        using l(2) Some by (auto simp: next_revision_def split: if_split_asm)
      have db1: "db1 = upd_envelopes (\<lambda>x. en_round x = rd) (\<lambda>x. x\<lparr>en_revision := n, en_limits := limits, en_updated_at := now\<rparr>) db"
        using db(1) old by (simp add: store_limits_def)
      have "writes db db1" unfolding db1 by (rule w_upd_envelopes [OF w_none]) simp
      then have w: "writes db db'" unfolding db(3) by (rule w_log [OF w_revision [OF _ db(2)]])
      show thesis
        by (rule revise [OF l(1) old n(2,3) _ w]) (use db(3) ins_exec_put(3) [OF db(2)] db1 n in simp)
    qed
  qed
qed

lemma set_envelope_state_cases:
  assumes "set_envelope_state p r rd state now db = Inr (en, db')"
  obtains (noop) "db' = db"
  | (moved) old where "load_envelope rd db = Some old" "en_state old \<noteq> state" "en_state old \<noteq> EvClosed"
      "db' = append_research_event (p, r) (upd_envelopes (\<lambda>x. en_round x = rd)
         (\<lambda>x. x\<lparr>en_state := state, en_updated_at := now\<rparr>) db)"
  using assms by (auto simp: set_envelope_state_def tx_Inr err_simps Let_def split: if_split_asm)

lemma reserve_cases:
  assumes "reserve hash p r launch u now clk db = Inr (eb, db')"
  obtains (replay) l e where "normalized_launch launch = Inr l" "eb = (e, False)" "db' = db"
      "find_by_key (nl_round l) (nl_key l) db = Some (e, request_hash hash l)"
  | (admitted) l en db1 where "normalized_launch launch = Inr l" "require_round p r (nl_round l) db = Inr ()"
      "load_envelope (nl_round l) db = Some en" "find_by_key (nl_round l) (nl_key l) db = None"
      "admit p l en clk db = Inr ()"
      "ins_experiments (new_experiment p r l (request_hash hash l) en u now) db = Some db1"
      "db' = append_research_event (p, r) (charge_launch (nl_round l) now db1)" "snd eb"
proof -
  obtain l where l: "normalized_launch launch = Inr l" using assms by (auto simp: reserve_def err_simps)
  show thesis
  proof (cases "find_by_key (nl_round l) (nl_key l) db")
    case None
    then obtain en e db1 where *: "require_round p r (nl_round l) db = Inr ()"
        "load_envelope (nl_round l) db = Some en" "admit p l en clk db = Inr ()"
        "ins_experiments (new_experiment p r l (request_hash hash l) en u now) db = Some db1"
        "db' = append_research_event (p, r) (charge_launch (nl_round l) now db1)" "eb = (e, True)"
      using assms l by (auto simp: reserve_def tx_Inr err_simps Let_def)
    show thesis by (rule admitted [OF l *(1,2) None *(3-5)]) (simp add: *(6))
  next
    case (Some x)
    then show thesis using assms l
      by (intro replay [OF l, of "fst x"])
        (auto simp: reserve_def tx_Inr err_simps Let_def prod_eq_iff split: if_split_asm)
  qed
qed


lemma register_wait_cases:
  assumes "register_wait p t m i task text dl u now clk db = Inr (w, db')"
  obtains (existing) "db' = db" "w \<in> set (d_waits db)"
  | (registered) e attempt sc where "row_of ex_id i (d_experiments db) = Some e" "check_wait p t m e task db = Inr ()"
      "\<not> (\<exists>w\<in>set (d_waits db). wt_experiment w = i \<and> wt_owner w = m \<and> wt_state w = WtOpen)"
      "w = new_wait i t task attempt m (trim text) (wait_deadline dl clk (ex_max_runtime_secs e)) (\<not> is_active (ex_state e)) u now"
      "ins_waits w db = Some (put_waits w db)" "db' = append_research_event sc (put_waits w db)"
proof -
  let ?open = "\<lambda>w. wt_experiment w = i \<and> wt_owner w = m \<and> wt_state w = WtOpen"
  let ?mine = "newest wt_created_at (\<lambda>w. wt_experiment w = i \<and> wt_owner w = m) (d_waits db)"
  obtain e where e: "row_of ex_id i (d_experiments db) = Some e" "check_wait p t m e task db = Inr ()"
    using assms by (auto simp: register_wait_def tx_Inr err_simps Let_def)
  show thesis
  proof (cases "find ?open (d_waits db)")
    case (Some w0)
    then show thesis using assms e find_SomeD [OF Some]
      by (intro existing) (auto simp: register_wait_def tx_Inr err_simps Let_def)
  next
    case None
    show thesis
    proof (cases "?mine \<noteq> None \<and> \<not> is_active (ex_state e)")
      case True
      then obtain w0 where w0: "?mine = Some w0" by auto
      then show thesis using assms e None True newest_SomeD [OF w0]
        by (intro existing) (auto simp: register_wait_def tx_Inr err_simps Let_def)
    next
      case False
      then obtain attempt db1 sc where *: "ins_waits w db = Some db1" "db' = append_research_event sc db1"
          "w = new_wait i t task attempt m (trim text) (wait_deadline dl clk (ex_max_runtime_secs e)) (\<not> is_active (ex_state e)) u now"
        using assms e None False
        by (auto simp: register_wait_def tx_Inr err_simps Let_def split: if_split_asm)
      show thesis
        by (rule registered [OF e _ *(3)]) (use * None ins_exec_put(5) [OF *(1)] in \<open>auto simp: find_None_iff\<close>)
    qed
  qed
qed

lemma reassign_Inr:
  "reassign_waits_of_member t m now db = Inr (n, db') \<Longrightarrow> db' =
    upd_waits (\<lambda>w. wt_team w = t \<and> wt_owner w = m \<and> wt_state w = WtOpen)
      (\<lambda>w. w\<lparr>wt_state := WtReassigned, wt_resolved_at := Some now\<rparr>) db"
  by (simp add: reassign_waits_of_member_def write_tx_def Let_def)

lemma record_decision_cases:
  assumes "record_decision p d u now db = Inr (rb, db')"
  obtains (existing) x where "rb = (x, False)" "db' = db" "decision_row_of (dn_experiment d) (dn_kind d) (decision_key_of d) db = Some x"
  | (recorded) e x db1 sc where "row_of ex_id (dn_experiment d) (d_experiments db) = Some e" "\<not> is_active (ex_state e)"
      "rb = (x, True)" "ed_experiment x = dn_experiment d" "ed_kind x = dn_kind d" "ed_key x = decision_key_of d"
      "decision_row_of (dn_experiment d) (dn_kind d) (decision_key_of d) db = None"
      "ins_decisions x db = Some db1"
      "db' = append_research_event sc (if resolves_analysis (dn_kind d)
         then upd_experiments (\<lambda>x. ex_id x = dn_experiment d \<and> ex_analysis x = AnPending) (\<lambda>x. x\<lparr>ex_analysis := AnAnalyzed\<rparr>) db1
         else db1)"
proof (cases "decision_row_of (dn_experiment d) (dn_kind d) (decision_key_of d) db")
  case (Some x)
  then show thesis using assms by (intro existing) (auto simp: record_decision_def tx_Inr err_simps Let_def)
next
  case None
  obtain e x db1 sc where *: "row_of ex_id (dn_experiment d) (d_experiments db) = Some e" "\<not> is_active (ex_state e)"
      "rb = (x, True)" "ins_decisions x db = Some db1"
      "x = \<lparr>ed_id = u, ed_experiment = dn_experiment d, ed_member = dn_member d, ed_kind = dn_kind d,
            ed_key = decision_key_of d, ed_rationale = trim (dn_rationale d), ed_evidence = dn_evidence d,
            ed_launched = dn_launched d, ed_created_at = now\<rparr>"
      "db' = append_research_event sc (if resolves_analysis (dn_kind d)
         then upd_experiments (\<lambda>x. ex_id x = dn_experiment d \<and> ex_analysis x = AnPending) (\<lambda>x. x\<lparr>ex_analysis := AnAnalyzed\<rparr>) db1
         else db1)"
    using assms None by (auto simp: record_decision_def tx_Inr err_simps Let_def)
  show thesis by (rule recorded [OF *(1-3) _ _ _ None *(4,6)]) (simp_all add: *(5))
qed

subsection \<open>Every operation is a sequence of writes\<close>

lemma writes_set_experiment:
  assumes "writes db0 db" "post_ok db" "\<And>r. ex_id (f r) = ex_id r" "\<And>r. ex_round (f r) = ex_round r"
    "\<And>r. ex_key (f r) = ex_key r" "\<And>r. ex_team (f r) = ex_team r" "\<And>r. ex_task (f r) = ex_task r"
  shows "writes db0 (upd_experiments P f db) \<and> post_ok (upd_experiments P f db)"
  using w_upd_experiments [OF assms(1,3-6)] post_ok_upd(3) [OF assms(2-7)] by blast

lemma writes_refund:
  "writes db0 db \<Longrightarrow> post_ok db \<Longrightarrow> writes db0 (refund_launch rd db) \<and> post_ok (refund_launch rd db)"
  unfolding refund_launch_def using w_upd_envelopes post_ok_upd(2) by simp

lemma writes_resolve:
  "writes db0 db \<Longrightarrow> post_ok db \<Longrightarrow> writes db0 (resolve_open_waits i now db) \<and> post_ok (resolve_open_waits i now db)"
  unfolding resolve_open_waits_def using w_upd_waits post_ok_upd(4) by simp

lemma row_updates_keep [simp]:
  "ex_id (observed_row s oc now e) = ex_id e" "ex_round (observed_row s oc now e) = ex_round e"
  "ex_key (observed_row s oc now e) = ex_key e" "ex_team (observed_row s oc now e) = ex_team e"
  "ex_task (observed_row s oc now e) = ex_task e" "ex_state (observed_row s oc now e) = s"
  "ex_refunded (observed_row s oc now e) = ex_refunded e" "ex_analysis (observed_row s oc now e) = AnPending"
  "ex_id (running_row s pid now e) = ex_id e" "ex_round (running_row s pid now e) = ex_round e"
  "ex_key (running_row s pid now e) = ex_key e" "ex_team (running_row s pid now e) = ex_team e"
  "ex_task (running_row s pid now e) = ex_task e" "ex_state (running_row s pid now e) = s"
  "ex_refunded (running_row s pid now e) = ex_refunded e" "ex_analysis (running_row s pid now e) = ex_analysis e"
  "ex_id (cancelled_before_launch now e) = ex_id e" "ex_round (cancelled_before_launch now e) = ex_round e"
  "ex_key (cancelled_before_launch now e) = ex_key e" "ex_team (cancelled_before_launch now e) = ex_team e"
  "ex_task (cancelled_before_launch now e) = ex_task e" "ex_state (cancelled_before_launch now e) = ExCancelled"
  "ex_refunded (cancelled_before_launch now e) = ex_refunded e"
  "ex_id (abandoned_row why now e) = ex_id e" "ex_round (abandoned_row why now e) = ex_round e"
  "ex_key (abandoned_row why now e) = ex_key e" "ex_team (abandoned_row why now e) = ex_team e"
  "ex_task (abandoned_row why now e) = ex_task e" "ex_state (abandoned_row why now e) = ExFailedToStart"
  "ex_refunded (abandoned_row why now e)"
  "ex_id (reconciled_row truth code why now e) = ex_id e" "ex_round (reconciled_row truth code why now e) = ex_round e"
  "ex_key (reconciled_row truth code why now e) = ex_key e" "ex_team (reconciled_row truth code why now e) = ex_team e"
  "ex_task (reconciled_row truth code why now e) = ex_task e"
  by (cases truth; simp add: observed_row_def running_row_def cancelled_before_launch_def abandoned_row_def
      reconciled_row_def)+

lemma expire_waits_writes:
  assumes "expire_waits idf now is db = Inr (gone, db')" "writes db0 db" "post_ok db"
  shows "writes db0 db' \<and> post_ok db'"
  using assms
proof (induction "is" arbitrary: gone db)
  case Nil
  then show ?case by simp
next
  case (Cons i "is")
  let ?db1 = "upd_waits (\<lambda>w. wt_id w = i \<and> wt_state w = WtOpen) (\<lambda>w. w\<lparr>wt_state := WtExpired, wt_resolved_at := Some now\<rparr>) db"
  obtain w db2 sc gone' where *: "deliver_about (wt_experiment w) EkWaitExpired (Some w) (idf i) now ?db1 = Inr db2"
      "expire_waits idf now is (append_research_event sc db2) = Inr (gone', db')"
    using Cons.prems(1) by (auto simp: err_simps Let_def)
  have "writes db0 ?db1 \<and> post_ok ?db1"
    using w_upd_waits [OF Cons.prems(2)] post_ok_upd(4) [OF Cons.prems(3)] by simp
  then have "writes db0 db2 \<and> post_ok db2" using deliver_writes [OF *(1)] by blast
  then show ?case using Cons.IH [OF *(2)] w_log post_ok_upd(5) by blast
qed

lemma remind_writes:
  assumes "remind uf now clk most dues db = Inr (out, db')" "writes db0 db" "post_ok db"
  shows "writes db0 db' \<and> post_ok db'"
  using assms
proof (induction dues arbitrary: out db)
  case Nil
  then show ?case by simp
next
  case (Cons du dues)
  show ?case
  proof (cases "most \<le> du_reminders du")
    case True
    then obtain out' where "remind uf now clk most dues (set_experiment (du_experiment du) (\<lambda>e. e\<lparr>ex_reminders := most + 1\<rparr>) db)
        = Inr (out', db')"
      using Cons.prems(1) by (auto simp: err_simps Let_def)
    then show ?thesis using Cons.IH writes_set_experiment [OF Cons.prems(2,3)] by simp
  next
    case False
    then obtain e body db1 out' where *: "row_of ex_id (du_experiment du) (d_experiments db) = Some e"
        "enqueue_to_leader e body (uf (du_experiment du)) now db = Inr db1"
        "remind uf now clk most dues
           (set_experiment (du_experiment du) (\<lambda>x. x\<lparr>ex_reminders := ex_reminders x + 1, ex_reminded_at := Some clk\<rparr>)
             (link_message (du_event du) (uf (du_experiment du)) db1)) = Inr (out', db')"
      using Cons.prems(1) by (auto simp: err_simps Let_def load_experiment_Inr)
    have 1: "writes db0 db1 \<and> post_ok db1"
      using enqueue_to_leader_writes [OF *(2) Cons.prems(2,3)] row_in_experiments [OF *(1)] by blast
    then have 2: "writes db0 (link_message (du_event du) (uf (du_experiment du)) db1)
        \<and> post_ok (link_message (du_event du) (uf (du_experiment du)) db1)"
      using w_link post_ok_upd(1) by blast
    have 3: "writes db0 (set_experiment (du_experiment du) f (link_message (du_event du) (uf (du_experiment du)) db1))
        \<and> post_ok (set_experiment (du_experiment du) f (link_message (du_event du) (uf (du_experiment du)) db1))"
      if "f = (\<lambda>x. x\<lparr>ex_reminders := ex_reminders x + 1, ex_reminded_at := Some clk\<rparr>)" for f
      by (rule writes_set_experiment) (use 2 that in simp_all)
    show ?thesis by (rule Cons.IH [OF *(3)]) (use 3 [OF refl] in blast)+
  qed
qed

lemma link_new_experiment:
  assumes "post_ok db" "ins_experiments e db = Some db'" "experiment_link db e"
  shows "post_ok db'"
proof -
  have db': "db' = put_experiments e db" by (rule ins_exec_put(4) [OF assms(2)])
  have "schema_ok db'" using schema_ins_exec_rows(3) [OF assms(2)] assms(1) by (simp add: post_ok_def)
  then show ?thesis using assms(1,3) leaders_ok_cong [of db' db] unfolding db' post_ok_def links_ok_def
    by (auto simp: experiment_link_def wait_link_def task_in_team_def)
qed

lemma admitted_link:
  assumes "admit p l en clk db = Inr u"
  shows "experiment_link db (new_experiment p r l h en uuid now)"
  using assms
  by (auto simp: experiment_link_def new_experiment_def admit_def check_team_scope_def err_simps list_ex_iff
      task_in_team_def split: option.splits)

lemma wait_link_checked:
  assumes "check_wait p t m e task db = Inr u" "e \<in> set (d_experiments db)" "ex_id e = i"
  shows "wait_link db (new_wait i t task attempt m text deadline finished uuid now)"
  using assms
  by (auto simp: wait_link_def new_wait_def check_wait_def err_simps list_ex_iff task_in_team_def
      split: option.splits)

lemma writes_reserve:
  assumes "reserve hash p r l u now clk db = Inr (eb, db')" "post_ok db"
  shows "writes db db' \<and> post_ok db'"
  using assms(1)
proof (cases rule: reserve_cases)
  case replay
  then show ?thesis using assms(2) w_none by simp
next
  case (admitted l en db1)
  have 1: "writes db db1 \<and> post_ok db1"
    using w_experiment [OF w_none admitted(6)] link_new_experiment [OF assms(2) admitted(6) admitted_link [OF admitted(5)]]
    by blast
  have "writes db (charge_launch (nl_round l) now db1) \<and> post_ok (charge_launch (nl_round l) now db1)"
    unfolding charge_launch_def using 1 w_upd_envelopes post_ok_upd(2) by simp
  then show ?thesis unfolding admitted(7) using w_log post_ok_upd(5) by blast
qed

lemma writes_register_wait:
  assumes "register_wait p t m i ko text dl u now clk db = Inr (w, db')" "post_ok db"
  shows "writes db db' \<and> post_ok db'"
  using assms(1)
proof (cases rule: register_wait_cases)
  case existing
  then show ?thesis using assms(2) w_none by simp
next
  case (registered e attempt sc)
  have "wait_link db w" using wait_link_checked [OF registered(2)] row_in_experiments [OF registered(1)] registered(4) by blast
  moreover have "schema_ok (put_waits w db)"
    using schema_ins_exec_rows(4) [OF registered(5)] assms(2) by (simp add: post_ok_def)
  ultimately have "post_ok (put_waits w db)"
    using assms(2) leaders_ok_cong [of "put_waits w db" db]
    by (auto simp: post_ok_def links_ok_def experiment_link_def wait_link_def task_in_team_def)
  then show ?thesis unfolding registered(6)
    using w_log [OF w_wait [OF w_none registered(5)]] post_ok_upd(5) by blast
qed

lemma writes_observe:
  assumes "observe i oc ids now db = Inr (b, db')" "post_ok db"
  shows "writes db db' \<and> post_ok db'"
  using assms(1)
proof (cases rule: observe_cases)
  case again
  then show ?thesis using assms(2) w_none by simp
next
  case (first e db1 sc)
  have "writes db db1 \<and> post_ok db1"
    by (rule deliver_writes [OF first(5)])
      (use writes_set_experiment [OF w_none assms(2)] in \<open>simp_all del: upd_experiments_sel\<close>)
  then show ?thesis unfolding first(6) using writes_resolve w_log post_ok_upd(5) by blast
qed

lemma writes_request_cancel:
  assumes "request_cancel i ids now db = Inr (r, db')" "post_ok db"
  shows "writes db db' \<and> post_ok db'"
proof -
  let ?db1 = "set_experiment i (\<lambda>x. x\<lparr>ex_cancel_requested := True\<rparr>) db"
  have 1: "writes db ?db1 \<and> post_ok ?db1" by (rule writes_set_experiment [OF w_none assms(2)]) simp_all
  show ?thesis using assms(1)
  proof (cases rule: request_cancel_cases)
    case noop
    then show ?thesis using assms(2) w_none by simp
  next
    case (before e db2 sc)
    have "writes db (set_experiment i (cancelled_before_launch now) ?db1)
        \<and> post_ok (set_experiment i (cancelled_before_launch now) ?db1)"
      by (rule writes_set_experiment) (use 1 in simp_all)
    then have "writes db db2 \<and> post_ok db2" using deliver_writes [OF before(4)] by blast
    then show ?thesis unfolding before(5) using writes_resolve w_log post_ok_upd(5) by blast
  next
    case (live e sc)
    have "writes db (set_experiment i (\<lambda>x. x\<lparr>ex_state := ExCancelling\<rparr>) ?db1)
        \<and> post_ok (set_experiment i (\<lambda>x. x\<lparr>ex_state := ExCancelling\<rparr>) ?db1)"
      by (rule writes_set_experiment) (use 1 in simp_all)
    then show ?thesis unfolding live(4) using w_log post_ok_upd(5) by blast
  next
    case (intent e sc)
    then show ?thesis using 1 w_log post_ok_upd(5) by blast
  qed
qed

lemma writes_reconcile:
  assumes "reconcile p i truth code actor ids now db = Inr (r, db')" "post_ok db"
  shows "writes db db' \<and> post_ok db'"
  using assms(1)
proof (cases rule: reconcile_cases)
  case (1 e reason db3 sc)
  let ?db1 = "set_experiment i (reconciled_row truth code reason now) db"
  let ?db2 = "if truth = NotStarted then refund_launch (ex_round e) ?db1 else ?db1"
  have "writes db ?db1 \<and> post_ok ?db1" by (rule writes_set_experiment [OF w_none assms(2)]) simp_all
  then have "writes db ?db2 \<and> post_ok ?db2" using writes_refund by (cases truth) auto
  then have "writes db db3 \<and> post_ok db3" using deliver_writes [OF 1(4)] writes_resolve by blast
  then show ?thesis unfolding 1(5) using w_log post_ok_upd(5) by blast
qed

lemma writes_abandon:
  assumes "abandon_reserved i why ids now db = Inr (b, db')" "post_ok db"
  shows "writes db db' \<and> post_ok db'"
  using assms(1)
proof (cases rule: abandon_cases)
  case noop
  then show ?thesis using assms(2) w_none by simp
next
  case (gone e db1 sc)
  have "writes db (set_experiment i (abandoned_row why now) db) \<and> post_ok (set_experiment i (abandoned_row why now) db)"
    by (rule writes_set_experiment [OF w_none assms(2)]) simp_all
  then have "writes db db1 \<and> post_ok db1" using deliver_writes [OF gone(4)] writes_refund by blast
  then show ?thesis unfolding gone(5) using writes_resolve w_log post_ok_upd(5) by blast
qed

lemma writes_plain_ops:
  assumes "post_ok db"
  shows "transition i from_states to_state why db = Inr (e, db') \<Longrightarrow> writes db db' \<and> post_ok db'"
    and "mark_running i pid now db = Inr (e, db') \<Longrightarrow> writes db db' \<and> post_ok db'"
    and "set_reason i why' db = Inr (un, db') \<Longrightarrow> writes db db' \<and> post_ok db'"
    and "mark_analyzed i db = Inr (e, db') \<Longrightarrow> writes db db' \<and> post_ok db'"
    and "reassign_waits_of_member t m now db = Inr (n, db') \<Longrightarrow> writes db db' \<and> post_ok db'"
    and "set_envelope_state p r rd ens now db = Inr (en, db') \<Longrightarrow> writes db db' \<and> post_ok db'"
proof -
  note upd = writes_set_experiment [OF w_none assms]
  note log = w_log post_ok_upd(5)
  show "transition i from_states to_state why db = Inr (e, db') \<Longrightarrow> writes db db' \<and> post_ok db'"
    by (erule transition_cases) (simp add: upd log del: upd_experiments_sel)
  show "mark_running i pid now db = Inr (e, db') \<Longrightarrow> writes db db' \<and> post_ok db'"
    by (erule mark_running_cases) (simp add: upd log del: upd_experiments_sel)
  show "set_reason i why' db = Inr (un, db') \<Longrightarrow> writes db db' \<and> post_ok db'"
    by (drule set_reason_Inr) (simp add: upd del: upd_experiments_sel)
  show "mark_analyzed i db = Inr (e, db') \<Longrightarrow> writes db db' \<and> post_ok db'"
    by (erule mark_analyzed_cases) (simp_all add: upd log w_none assms del: upd_experiments_sel)
  show "reassign_waits_of_member t m now db = Inr (n, db') \<Longrightarrow> writes db db' \<and> post_ok db'"
    by (drule reassign_Inr) (simp add: w_upd_waits w_none post_ok_upd(4) assms)
  show "set_envelope_state p r rd ens now db = Inr (en, db') \<Longrightarrow> writes db db' \<and> post_ok db'"
    by (erule set_envelope_state_cases) (simp_all add: w_upd_envelopes w_none post_ok_upd(2) log assms)
qed

lemma post_ok_exec:
  assumes "post_ok db" "writes db db'" "d_experiments db' = d_experiments db" "d_waits db' = d_waits db"
  shows "post_ok db'"
  by (rule post_ok_cong [OF assms(1) schema_writes [OF assms(2)]])
    (use assms writes_frames [OF assms(2)] in \<open>simp_all add: post_ok_def\<close>)

lemma writes_set_envelope:
  assumes "set_envelope p r rd expected request actor now db = Inr (en, db')" "post_ok db"
  shows "writes db db' \<and> post_ok db'"
  using assms(1)
proof (cases rule: set_envelope_cases)
  case noop
  then show ?thesis using assms(2) w_none by simp
next
  case (create limits)
  then show ?thesis using post_ok_exec [OF assms(2) create(4)] by simp
next
  case (revise limits old)
  then show ?thesis using post_ok_exec [OF assms(2) revise(6)] by simp
qed

lemma writes_record_decision:
  assumes "record_decision p d u now db = Inr (rb, db')" "post_ok db"
  shows "writes db db' \<and> post_ok db'"
  using assms(1)
proof (cases rule: record_decision_cases)
  case existing
  then show ?thesis using assms(2) w_none by simp
next
  case (recorded e x db1 sc)
  have w: "writes db db1" by (rule w_decision [OF w_none recorded(8)])
  have p: "post_ok db1"
    by (rule post_ok_exec [OF assms(2) w]) (use ins_exec_put(6) [OF recorded(8)] in simp_all)
  let ?f = "\<lambda>x :: experiment_row. x\<lparr>ex_analysis := AnAnalyzed\<rparr>"
  let ?P = "\<lambda>x. ex_id x = dn_experiment d \<and> ex_analysis x = AnPending"
  have "writes db (upd_experiments ?P ?f db1) \<and> post_ok (upd_experiments ?P ?f db1)"
    by (rule writes_set_experiment [OF w p]) simp_all
  then show ?thesis unfolding recorded(9) using w p w_log post_ok_upd(5) by simp
qed

lemma step_writes: "exp_step hash op db db' \<Longrightarrow> post_ok db \<Longrightarrow> writes db db' \<and> post_ok db'"
  by (induction rule: exp_step.induct)
    (auto simp: mark_launching_def expire_due_waits_def remind_unanalyzed_def write_tx_Inr err_simps
      dest: writes_reserve writes_register_wait writes_observe writes_request_cancel writes_reconcile writes_abandon
        writes_plain_ops writes_set_envelope writes_record_decision
        expire_waits_writes [OF _ w_none] remind_writes [OF _ w_none])

end
