(* ===== verification/ExperimentInvariants.thy ===== *)
theory ExperimentInvariants
  imports ExperimentSystem
begin

text \<open>
  How the operations of the experiment store move the rows of its tables, and the invariant of the
  execution tables: the accounting of launches, the recorded policy of every experiment, the waits
  and the delivered results.
\<close>

subsection \<open>The machine of an experiment\<close>

definition exp_edge :: "exp_op \<Rightarrow> experiment_state \<Rightarrow> experiment_state \<Rightarrow> bool" where
  "exp_edge op s s' \<longleftrightarrow> s' = s \<or> (case op of
      Launching \<Rightarrow> s = ExReserved \<and> s' = ExLaunching
    | Running \<Rightarrow> s \<in> {ExReserved, ExLaunching} \<and> s' \<in> {ExRunning, ExCancelling}
    | Observe \<Rightarrow> is_active s \<and> (\<not> is_active s' \<or> s' = ExUnknown)
    | Cancel \<Rightarrow> s = ExReserved \<and> s' = ExCancelled \<or> s \<in> {ExLaunching, ExRunning} \<and> s' = ExCancelling
    | Reconcile \<Rightarrow> s = ExUnknown \<and> s' \<in> {ExFailedToStart, ExExited}
    | Abandon \<Rightarrow> s = ExReserved \<and> s' = ExFailedToStart
    | _ \<Rightarrow> False)"

definition experiment_ok :: "experiment_row \<Rightarrow> bool" where
  "experiment_ok e \<longleftrightarrow>
    (ex_refunded e \<longrightarrow> ex_state e = ExFailedToStart) \<and>
    (\<not> is_active (ex_state e) \<longrightarrow> ex_finished_at e \<noteq> None) \<and>
    (ex_analysis e = AnPending \<longrightarrow> \<not> is_active (ex_state e) \<or> ex_state e = ExUnknown) \<and>
    (ex_analysis e = AnAnalyzed \<longrightarrow> \<not> is_active (ex_state e)) \<and>
    (ex_state e = ExCancelling \<longrightarrow> ex_cancel_requested e)"

text \<open>The columns that a launch fixes for good.\<close>

definition same_launch :: "experiment_row \<Rightarrow> experiment_row \<Rightarrow> bool" where
  "same_launch e e' \<longleftrightarrow>
    ex_id e' = ex_id e \<and> ex_project e' = ex_project e \<and> ex_research e' = ex_research e \<and>
    ex_round e' = ex_round e \<and> ex_team e' = ex_team e \<and> ex_task e' = ex_task e \<and> ex_owner e' = ex_owner e \<and>
    ex_key e' = ex_key e \<and> ex_hash e' = ex_hash e \<and> ex_argv e' = ex_argv e \<and>
    ex_policy_revision e' = ex_policy_revision e \<and> ex_max_runtime_secs e' = ex_max_runtime_secs e"

definition exp_move :: "exp_op \<Rightarrow> experiment_row \<Rightarrow> experiment_row \<Rightarrow> bool" where
  "exp_move op e e' \<longleftrightarrow>
    same_launch e e' \<and> exp_edge op (ex_state e) (ex_state e') \<and> experiment_ok e' \<and>
    (ex_refunded e \<longrightarrow> ex_refunded e') \<and>
    (op \<notin> {Abandon, Reconcile} \<longrightarrow> ex_refunded e' = ex_refunded e) \<and>
    (ex_analysis e = AnAnalyzed \<longrightarrow> ex_analysis e' = AnAnalyzed)"

abbreviation exp_moves :: "exp_op \<Rightarrow> db \<Rightarrow> db \<Rightarrow> bool" where
  "exp_moves op db db' \<equiv> list_all2 (exp_move op) (d_experiments db) (d_experiments db')"

abbreviation experiments_ok :: "db \<Rightarrow> bool" where
  "experiments_ok db \<equiv> \<forall>e\<in>set (d_experiments db). experiment_ok e"

lemma same_launch_refl [simp]: "same_launch e e"
  by (simp add: same_launch_def)

lemma exp_edge_refl [simp]: "exp_edge op s s"
  by (simp add: exp_edge_def)

lemma exp_move_refl [simp]: "experiment_ok e \<Longrightarrow> exp_move op e e"
  by (simp add: exp_move_def)

lemma exp_edge_final: "\<not> is_active s \<Longrightarrow> exp_edge op s s' \<Longrightarrow> s' = s"
  by (cases op; cases s; simp add: exp_edge_def)

lemma list_all2_update:
  "(\<And>x. x \<in> set xs \<Longrightarrow> P x \<Longrightarrow> R x (f x)) \<Longrightarrow> (\<And>x. x \<in> set xs \<Longrightarrow> \<not> P x \<Longrightarrow> R x x) \<Longrightarrow> list_all2 R xs (update_where P f xs)"
  by (induction xs) (auto simp: update_where_def)

lemma exp_moves_same: "experiments_ok db \<Longrightarrow> d_experiments db' = d_experiments db \<Longrightarrow> exp_moves op db db'"
  by (simp add: list_all2_refl list.rel_refl_strong)

lemma exp_moves_upd:
  assumes "experiments_ok db" "d_experiments db' = update_where P f (d_experiments db)"
    "\<And>e. e \<in> set (d_experiments db) \<Longrightarrow> P e \<Longrightarrow> experiment_ok e \<Longrightarrow> exp_move op e (f e)"
  shows "exp_moves op db db'"
  unfolding assms(2) using assms(1,3) by (intro list_all2_update) auto

lemma same_launch_rows [simp]:
  "same_launch e (observed_row s oc now e)" "same_launch e (running_row s pid now e)"
  "same_launch e (cancelled_before_launch now e)" "same_launch e (abandoned_row why now e)"
  "same_launch e (reconciled_row truth code why now e)"
  by (cases truth; simp add: same_launch_def observed_row_def running_row_def cancelled_before_launch_def
      abandoned_row_def reconciled_row_def)+

lemma tell_leader_effect:
  assumes "tell_leader e t body kind (ev, message, copy) now db = Inr db'"
  shows "db' = db \<or> (\<exists>x. db' = link_message ev copy (put_messages x db))"
proof (cases "kind = EkFinished")
  case False
  then show ?thesis using assms by (simp add: tell_leader_def)
next
  case True
  then consider "db' = db"
    | db1 where "enqueue_to_leader e (body @ '' (Its owner has also been told.)'') copy now db = Inr db1"
        "db' = link_message ev copy db1"
    using assms by (auto simp: tell_leader_def err_simps split: if_split_asm)
  then show ?thesis
  proof cases
    case 2
    then show ?thesis using enqueue_frames(1) [OF 2(1)] by blast
  qed simp
qed

lemma link_new_event:
  assumes "\<not> has_key ee_id ev (d_events db)" "d_events db1 = d_events db @ [r]" "ee_id r = ev"
  shows "d_events (link_message ev m db1) = d_events db @ [r\<lparr>ee_message := Some m\<rparr>]"
proof -
  have "update_where (\<lambda>x. ee_id x = ev) f rows = rows" if "\<not> has_key ee_id ev rows" for f and rows :: "experiment_event list"
    using that by (induction rows) (auto simp: update_where_def)
  then show ?thesis using assms by (simp add: update_where_def)
qed

text \<open>
  A delivery either finds its event recorded, or it records the event; the event of an experiment
  that belongs to a team is linked to a message.
\<close>

lemma deliver_cases:
  assumes "deliver_about i kind w ids now db = Inr db'"
  obtains (known) r where "db' = db" "event_known r db" "ee_experiment r = i" "ee_kind r = kind"
      "ee_id r = fst ids" "ee_subject r = (case w of None \<Rightarrow> [] | Some w \<Rightarrow> wt_id w)"
  | (recorded) e r where "row_of ex_id i (d_experiments db) = Some e" "d_events db' = d_events db @ [r]"
      "ee_experiment r = i" "ee_kind r = kind" "ee_subject r = (case w of None \<Rightarrow> [] | Some w \<Rightarrow> wt_id w)"
      "ex_team e \<noteq> None \<longrightarrow> ee_message r \<noteq> None"
      "d_envelopes db' = d_envelopes db" "d_envelope_revisions db' = d_envelope_revisions db"
      "d_experiments db' = d_experiments db" "d_waits db' = d_waits db" "d_decisions db' = d_decisions db"
      "d_tasks db' = d_tasks db"
proof -
  obtain ev message copy where ids: "ids = (ev, message, copy)" by (cases ids)
  let ?r = "\<lparr>ee_id = ev, ee_experiment = i, ee_kind = kind,
      ee_subject = (case w of None \<Rightarrow> [] | Some w \<Rightarrow> wt_id w), ee_message = None\<rparr>"
  obtain e where e: "row_of ex_id i (d_experiments db) = Some e"
    using assms by (auto simp: deliver_about_def ids err_simps load_experiment_Inr)
  show thesis
  proof (cases "event_known ?r db")
    case True
    then have "db' = db" using assms e by (simp add: deliver_about_def ids load_experiment_def)
    then show thesis using True by (intro known [of ?r]) (simp_all add: ids)
  next
    case False
    then have new: "\<not> has_key ee_id ev (d_events db)" by (simp add: event_known_def)
    obtain db1 where db1: "ins_events ?r db = Some db1"
      using assms e False by (auto simp: deliver_about_def ids load_experiment_def err_simps Let_def)
    note put = ins_exec_put(1) [OF db1]
    show thesis
    proof (cases "ex_team e")
      case None
      then have "db' = db1" using assms e False db1 by (simp add: deliver_about_def ids load_experiment_def)
      then show thesis using put None by (intro recorded [OF e, of ?r]) simp_all
    next
      case (Some t)
      then obtain db2 where db2: "enqueue_message e (describe e kind) (map_option wt_owner w) message now db1 = Inr db2"
          "tell_leader e t (describe e kind) kind (ev, message, copy) now (link_message ev message db2) = Inr db'"
        using assms e False db1 by (auto simp: deliver_about_def ids load_experiment_def err_simps Let_def)
      obtain x where x: "db2 = put_messages x db1" using enqueue_frames(2) [OF db2(1)] by blast
      let ?db3 = "link_message ev message db2"
      have 3: "d_events ?db3 = d_events db @ [?r\<lparr>ee_message := Some message\<rparr>]"
        by (rule link_new_event [OF new]) (simp_all add: x put)
      consider "db' = ?db3" | y where "db' = link_message ev copy (put_messages y ?db3)"
        using tell_leader_effect [OF db2(2)] by blast
      then show thesis
      proof cases
        case 1
        show thesis by (rule recorded [OF e 3 [folded 1]]) (simp_all add: 1 x put)
      next
        case (2 y)
        have 4: "d_events db' = d_events db @ [?r\<lparr>ee_message := Some message, ee_message := Some copy\<rparr>]"
          unfolding 2 by (rule link_new_event [OF new]) (simp_all only: put_messages_sel 3, simp)
        show thesis by (rule recorded [OF e 4]) (simp_all add: 2 x put)
      qed
    qed
  qed
qed

lemma deliver_frames:
  assumes "deliver_about i kind w ids now db = Inr db'"
  shows "d_envelopes db' = d_envelopes db" "d_envelope_revisions db' = d_envelope_revisions db"
    "d_experiments db' = d_experiments db" "d_waits db' = d_waits db" "d_decisions db' = d_decisions db"
    "d_tasks db' = d_tasks db"
proof -
  have "d_envelopes db' = d_envelopes db \<and> d_envelope_revisions db' = d_envelope_revisions db
      \<and> d_experiments db' = d_experiments db \<and> d_waits db' = d_waits db \<and> d_decisions db' = d_decisions db
      \<and> d_tasks db' = d_tasks db"
    using assms by (cases rule: deliver_cases) simp_all
  then show "d_envelopes db' = d_envelopes db" "d_envelope_revisions db' = d_envelope_revisions db"
    "d_experiments db' = d_experiments db" "d_waits db' = d_waits db" "d_decisions db' = d_decisions db"
    "d_tasks db' = d_tasks db" by simp_all
qed

lemma set_experiment_twice:
  "(\<And>e. ex_id (f e) = ex_id e) \<Longrightarrow>
   update_where (\<lambda>e. ex_id e = i) g (update_where (\<lambda>e. ex_id e = i) f rows) = update_where (\<lambda>e. ex_id e = i) (g \<circ> f) rows"
  by (induction rows) (auto simp: update_where_def)

lemma the_experiment:
  assumes "schema_ok db" "row_of ex_id i (d_experiments db) = Some e" "x \<in> set (d_experiments db)" "ex_id x = i"
  shows "x = e"
proof -
  have "unique_key ex_id (d_experiments db)" using assms(1) by (simp add: schema_defs)
  then show ?thesis using row_of_unique assms(2-4) by fastforce
qed

lemma moves_observe:
  assumes "observe i oc ids now db = Inr (b, db')" "schema_ok db" "experiments_ok db"
  shows "exp_moves Observe db db'"
  using assms(1)
proof (cases rule: observe_cases)
  case again
  then show ?thesis using assms(3) exp_moves_same by blast
next
  case (first e db1 sc)
  have rows: "d_experiments db' = update_where (\<lambda>x. ex_id x = i) (observed_row (observed_state oc e) oc now) (d_experiments db)"
    using deliver_frames(3) [OF first(5)] by (simp add: first(6))
  show ?thesis
  proof (rule exp_moves_upd [OF assms(3) rows])
    fix x assume x: "x \<in> set (d_experiments db)" "ex_id x = i" "experiment_ok x"
    then have "x = e" using the_experiment [OF assms(2) first(1)] by blast
    then show "exp_move Observe x (observed_row (observed_state oc e) oc now x)"
      using first(2,3) x(3)
      by (cases "observed_state oc e") (auto simp: exp_move_def exp_edge_def experiment_ok_def observed_row_def same_launch_def)
  qed
qed

lemma moves_request_cancel:
  assumes "request_cancel i ids now db = Inr (r, db')" "schema_ok db" "experiments_ok db"
  shows "exp_moves Cancel db db'"
  using assms(1)
proof (cases rule: request_cancel_cases)
  case noop
  then show ?thesis using assms(3) exp_moves_same by blast
next
  case (before e db2 sc)
  have rows: "d_experiments db' = update_where (\<lambda>x. ex_id x = i)
      (cancelled_before_launch now \<circ> (\<lambda>x. x\<lparr>ex_cancel_requested := True\<rparr>)) (d_experiments db)"
    using deliver_frames(3) [OF before(4)] by (simp add: before(5) set_experiment_twice)
  show ?thesis
  proof (rule exp_moves_upd [OF assms(3) rows])
    fix x assume x: "x \<in> set (d_experiments db)" "ex_id x = i" "experiment_ok x"
    then have "x = e" using the_experiment [OF assms(2) before(1)] by blast
    then show "exp_move Cancel x ((cancelled_before_launch now \<circ> (\<lambda>x. x\<lparr>ex_cancel_requested := True\<rparr>)) x)"
      using before(2) x(3)
      by (auto simp: exp_move_def exp_edge_def experiment_ok_def cancelled_before_launch_def same_launch_def)
  qed
next
  case (live e sc)
  have rows: "d_experiments db' = update_where (\<lambda>x. ex_id x = i)
      ((\<lambda>x. x\<lparr>ex_state := ExCancelling\<rparr>) \<circ> (\<lambda>x. x\<lparr>ex_cancel_requested := True\<rparr>)) (d_experiments db)"
    by (simp add: live(4) set_experiment_twice)
  show ?thesis
  proof (rule exp_moves_upd [OF assms(3) rows])
    fix x assume x: "x \<in> set (d_experiments db)" "ex_id x = i" "experiment_ok x"
    then have "x = e" using the_experiment [OF assms(2) live(1)] by blast
    then show "exp_move Cancel x (((\<lambda>x. x\<lparr>ex_state := ExCancelling\<rparr>) \<circ> (\<lambda>x. x\<lparr>ex_cancel_requested := True\<rparr>)) x)"
      using live(2) x(3) by (auto simp: exp_move_def exp_edge_def experiment_ok_def same_launch_def)
  qed
next
  case (intent e sc)
  have rows: "d_experiments db' = update_where (\<lambda>x. ex_id x = i) (\<lambda>x. x\<lparr>ex_cancel_requested := True\<rparr>) (d_experiments db)"
    by (simp add: intent(3))
  show ?thesis
    by (rule exp_moves_upd [OF assms(3) rows]) (auto simp: exp_move_def experiment_ok_def same_launch_def)
qed

lemma moves_reconcile:
  assumes "reconcile p i truth code actor ids now db = Inr (r, db')" "schema_ok db" "experiments_ok db"
  shows "exp_moves Reconcile db db'"
  using assms(1)
proof (cases rule: reconcile_cases)
  case (1 e reason db3 sc)
  have rows: "d_experiments db' = update_where (\<lambda>x. ex_id x = i) (reconciled_row truth code reason now) (d_experiments db)"
    using deliver_frames(3) [OF 1(4)] by (cases truth) (simp_all add: 1(5) refund_launch_def)
  show ?thesis
  proof (rule exp_moves_upd [OF assms(3) rows])
    fix x assume x: "x \<in> set (d_experiments db)" "ex_id x = i" "experiment_ok x"
    then have "x = e" using the_experiment [OF assms(2) 1(1)] by blast
    then show "exp_move Reconcile x (reconciled_row truth code reason now x)"
      using 1(3) x(3)
      by (cases truth) (auto simp: exp_move_def exp_edge_def experiment_ok_def reconciled_row_def same_launch_def)
  qed
qed

lemma moves_abandon:
  assumes "abandon_reserved i why ids now db = Inr (b, db')" "schema_ok db" "experiments_ok db"
  shows "exp_moves Abandon db db'"
  using assms(1)
proof (cases rule: abandon_cases)
  case noop
  then show ?thesis using assms(3) exp_moves_same by blast
next
  case (gone e db1 sc)
  have rows: "d_experiments db' = update_where (\<lambda>x. ex_id x = i) (abandoned_row why now) (d_experiments db)"
    using deliver_frames(3) [OF gone(4)] by (simp add: gone(5) refund_launch_def)
  show ?thesis
  proof (rule exp_moves_upd [OF assms(3) rows])
    fix x assume x: "x \<in> set (d_experiments db)" "ex_id x = i" "experiment_ok x"
    then have "x = e" using the_experiment [OF assms(2) gone(1)] by blast
    then show "exp_move Abandon x (abandoned_row why now x)"
      using gone(2) x(3) by (auto simp: exp_move_def exp_edge_def experiment_ok_def abandoned_row_def same_launch_def)
  qed
qed

lemma moves_mark_running:
  assumes "mark_running i pid now db = Inr (r, db')" "schema_ok db" "experiments_ok db"
  shows "exp_moves Running db db'"
  using assms(1)
proof (cases rule: mark_running_cases)
  case (1 e sc)
  show ?thesis
  proof (rule exp_moves_upd [OF assms(3)])
    show "d_experiments db' = update_where (\<lambda>x. ex_id x = i \<and> ex_state x \<in> {ExLaunching, ExReserved, ExCancelling})
        (running_row (if ex_cancel_requested e then ExCancelling else ExRunning) pid now) (d_experiments db)"
      by (simp add: 1(3))
    fix x assume x: "x \<in> set (d_experiments db)" "ex_id x = i \<and> ex_state x \<in> {ExLaunching, ExReserved, ExCancelling}"
      "experiment_ok x"
    then have "x = e" using the_experiment [OF assms(2) 1(1)] by blast
    then show "exp_move Running x (running_row (if ex_cancel_requested e then ExCancelling else ExRunning) pid now x)"
      using x(2,3) by (auto simp: exp_move_def exp_edge_def experiment_ok_def running_row_def same_launch_def)
  qed
qed

lemma moves_plain_ops:
  assumes "experiments_ok db"
  shows "mark_launching i db = Inr (e, db') \<Longrightarrow> exp_moves Launching db db'"
    and "set_reason i why' db = Inr (un, db') \<Longrightarrow> exp_moves SetReason db db'"
    and "schema_ok db \<Longrightarrow> mark_analyzed i db = Inr (e, db') \<Longrightarrow> exp_moves MarkAnalyzed db db'"
    and "reassign_waits_of_member t m now db = Inr (n, db') \<Longrightarrow> exp_moves ReassignWaits db db'"
    and "set_envelope_state p r rd ens now db = Inr (en, db') \<Longrightarrow> exp_moves SetEnvelopeState db db'"
    and "set_envelope p r rd expected request actor now db = Inr (en, db') \<Longrightarrow> exp_moves SetEnvelope db db'"
    and "register_wait p t m i ko text dl u now clk db = Inr (w, db') \<Longrightarrow> exp_moves RegisterWait db db'"
proof -
  note upd = exp_moves_upd [OF assms] and same = exp_moves_same [OF assms]
  note defs = exp_move_def exp_edge_def experiment_ok_def same_launch_def
  show "exp_moves Launching db db'" if m: "mark_launching i db = Inr (e, db')"
    using m unfolding mark_launching_def
  proof (cases rule: transition_cases)
    case (1 x sc)
    have rows: "d_experiments db' = update_where (\<lambda>e. ex_id e = i \<and> ex_state e \<in> set [ExReserved])
        (\<lambda>e. e\<lparr>ex_state := ExLaunching, ex_reason := or_else None (ex_reason e)\<rparr>) (d_experiments db)"
      by (simp add: 1(3))
    show ?thesis by (rule upd [OF rows]) (auto simp: defs)
  qed
  show "exp_moves SetReason db db'" if m: "set_reason i why' db = Inr (un, db')"
  proof -
    have rows: "d_experiments db' = update_where (\<lambda>e. ex_id e = i \<and> ex_state e \<in> {ExLaunching, ExRunning, ExCancelling})
        (\<lambda>e. e\<lparr>ex_reason := Some why'\<rparr>) (d_experiments db)"
      using set_reason_Inr [OF m] by simp
    show ?thesis by (rule upd [OF rows]) (auto simp: defs)
  qed
  show "exp_moves MarkAnalyzed db db'" if ok: "schema_ok db" and m: "mark_analyzed i db = Inr (e, db')"
    using m
  proof (cases rule: mark_analyzed_cases)
    case noop
    then show ?thesis using same by blast
  next
    case (settled x sc)
    show ?thesis
    proof (rule upd)
      show "d_experiments db' = update_where (\<lambda>x. ex_id x = i) (\<lambda>x. x\<lparr>ex_analysis := AnAnalyzed\<rparr>) (d_experiments db)"
        by (simp add: settled(3))
      fix y assume y: "y \<in> set (d_experiments db)" "ex_id y = i" "experiment_ok y"
      then have "y = x" using the_experiment [OF ok settled(1)] by blast
      then show "exp_move MarkAnalyzed y (y\<lparr>ex_analysis := AnAnalyzed\<rparr>)" using settled(2) y(3) by (auto simp: defs)
    qed
  qed
  show "reassign_waits_of_member t m now db = Inr (n, db') \<Longrightarrow> exp_moves ReassignWaits db db'"
    by (drule reassign_Inr, rule same) simp
  show "set_envelope_state p r rd ens now db = Inr (en, db') \<Longrightarrow> exp_moves SetEnvelopeState db db'"
    by (erule set_envelope_state_cases; rule same) simp_all
  show "set_envelope p r rd expected request actor now db = Inr (en, db') \<Longrightarrow> exp_moves SetEnvelope db db'"
    by (erule set_envelope_cases; rule same) simp_all
  show "register_wait p t m i ko text dl u now clk db = Inr (w, db') \<Longrightarrow> exp_moves RegisterWait db db'"
    by (erule register_wait_cases; rule same) simp_all
qed

lemma moves_expire:
  "expire_waits idf now is db = Inr (gone, db') \<Longrightarrow> d_experiments db' = d_experiments db"
proof (induction "is" arbitrary: gone db)
  case Nil
  then show ?case by simp
next
  case (Cons i "is")
  then show ?case by (fastforce simp: err_simps Let_def dest: deliver_frames(3))
qed

lemma exp_moves_trans_remind:
  "list_all2 (exp_move Remind) xs ys \<Longrightarrow> list_all2 (exp_move Remind) ys zs \<Longrightarrow> list_all2 (exp_move Remind) xs zs"
proof (erule list_all2_trans [rotated])
  fix a b c assume "exp_move Remind a b" "exp_move Remind b c"
  then show "exp_move Remind a c" by (auto simp: exp_move_def same_launch_def exp_edge_def)
qed

lemma moves_remind:
  "remind uf now clk most dues db = Inr (out, db') \<Longrightarrow> experiments_ok db \<Longrightarrow> exp_moves Remind db db'"
proof (induction dues arbitrary: out db)
  case Nil
  then show ?case using exp_moves_same by simp
next
  case (Cons du dues)
  have step: "exp_moves Remind db db'"
    if moved: "remind uf now clk most dues (set_experiment (du_experiment du) f db1) = Inr (out', db')"
      and rows: "d_experiments db1 = d_experiments db"
      and f: "\<And>e. experiment_ok e \<Longrightarrow> exp_move Remind e (f e)" for f db1 out'
  proof -
    have rows': "d_experiments (set_experiment (du_experiment du) f db1)
        = update_where (\<lambda>e. ex_id e = du_experiment du) f (d_experiments db)" by (simp add: rows)
    have 1: "exp_moves Remind db (set_experiment (du_experiment du) f db1)"
      by (rule exp_moves_upd [OF Cons.prems(2) rows']) (use f in blast)
    then have "experiments_ok (set_experiment (du_experiment du) f db1)"
      by (auto simp: list_all2_conv_all_nth in_set_conv_nth exp_move_def)
    then show ?thesis using exp_moves_trans_remind [OF 1] Cons.IH [OF moved] by blast
  qed
  show ?case
  proof (cases "most \<le> du_reminders du")
    case True
    then obtain out' where "remind uf now clk most dues (set_experiment (du_experiment du) (\<lambda>e. e\<lparr>ex_reminders := most + 1\<rparr>) db)
        = Inr (out', db')"
      using Cons.prems(1) by (auto simp: err_simps Let_def)
    then show ?thesis by (rule step) (auto simp: exp_move_def same_launch_def experiment_ok_def)
  next
    case False
    then obtain e body db1 out' where *: "enqueue_to_leader e body (uf (du_experiment du)) now db = Inr db1"
        "remind uf now clk most dues
           (set_experiment (du_experiment du) (\<lambda>x. x\<lparr>ex_reminders := ex_reminders x + 1, ex_reminded_at := Some clk\<rparr>)
             (link_message (du_event du) (uf (du_experiment du)) db1)) = Inr (out', db')"
      using Cons.prems(1) by (auto simp: err_simps Let_def)
    show ?thesis
      by (rule step [OF *(2)]) (use enqueue_frames(1) [OF *(1)] in \<open>auto simp: exp_move_def same_launch_def experiment_ok_def\<close>)
  qed
qed

lemma moves_record_decision:
  assumes "record_decision p d u now db = Inr (rb, db')" "schema_ok db" "experiments_ok db"
  shows "exp_moves Decide db db'"
  using assms(1)
proof (cases rule: record_decision_cases)
  case existing
  then show ?thesis using assms(3) exp_moves_same by blast
next
  case (recorded e x db1 sc)
  have db1: "d_experiments db1 = d_experiments db" using ins_exec_put(6) [OF recorded(8)] by simp
  show ?thesis
  proof (cases "resolves_analysis (dn_kind d)")
    case False
    then show ?thesis by (intro exp_moves_same [OF assms(3)]) (simp add: recorded(9) db1)
  next
    case True
    show ?thesis
    proof (rule exp_moves_upd [OF assms(3)])
      show "d_experiments db' = update_where (\<lambda>x. ex_id x = dn_experiment d \<and> ex_analysis x = AnPending)
          (\<lambda>x. x\<lparr>ex_analysis := AnAnalyzed\<rparr>) (d_experiments db)"
        using True by (simp add: recorded(9) db1)
      fix y assume y: "y \<in> set (d_experiments db)" "ex_id y = dn_experiment d \<and> ex_analysis y = AnPending" "experiment_ok y"
      then have "y = e" using the_experiment [OF assms(2) recorded(1)] by blast
      then show "exp_move Decide y (y\<lparr>ex_analysis := AnAnalyzed\<rparr>)"
        using recorded(2) y(3) by (auto simp: exp_move_def experiment_ok_def same_launch_def)
    qed
  qed
qed

lemma moves_reserve:
  assumes "reserve hash p r launch u now clk db = Inr (eb, db')" "experiments_ok db"
  shows "exp_moves op db db' \<or> (\<exists>l h en. d_experiments db' = d_experiments db @ [new_experiment p r l h en u now]
    \<and> \<not> has_key ex_id u (d_experiments db))"
  using assms(1)
proof (cases rule: reserve_cases)
  case replay
  then show ?thesis using exp_moves_same [OF assms(2)] by blast
next
  case (admitted l en db1)
  have "\<not> has_key ex_id u (d_experiments db)"
    using admitted(6) by (auto simp: ins_experiments_def new_experiment_def split: if_split_asm)
  then show ?thesis
    using ins_exec_put(4) [OF admitted(6)] by (auto simp: admitted(7) charge_launch_def)
qed

lemma new_experiment_ok [simp]: "experiment_ok (new_experiment p r l h en u now)"
  by (simp add: new_experiment_def experiment_ok_def)

lemma moves_step:
  assumes "exp_step hash op db db'" "schema_ok db" "experiments_ok db"
  shows "exp_moves op db db' \<or> op = Reserve \<and> (\<exists>p r l h en u now.
    d_experiments db' = d_experiments db @ [new_experiment p r l h en u now] \<and> \<not> has_key ex_id u (d_experiments db))"
  using assms
proof (induction rule: exp_step.induct)
  case (do_reserve p r l u now clk db eb db')
  show ?case using moves_reserve [OF do_reserve(1,3)] by blast
next
  case (do_expire_waits idf now clk db gone db')
  then show ?case unfolding expire_due_waits_def using moves_expire exp_moves_same by blast
next
  case (do_remind wsecs most uf now clk db out db')
  then have "remind uf now clk most (due_reminders clk wsecs most db) db = Inr (out, db')"
    by (auto simp: remind_unanalyzed_def write_tx_Inr err_simps)
  then show ?case using moves_remind do_remind by blast
qed (blast intro: moves_plain_ops moves_observe moves_request_cancel moves_reconcile moves_abandon moves_mark_running
      moves_record_decision)+

lemma experiments_ok_step:
  assumes "exp_step hash op db db'" "schema_ok db" "experiments_ok db"
  shows "experiments_ok db'"
proof -
  have "experiments_ok db'" if "exp_moves op db db'"
    using that by (auto simp: list_all2_conv_all_nth in_set_conv_nth exp_move_def)
  then show ?thesis using moves_step [OF assms] assms(3) by auto
qed

subsection \<open>The accounting of launches\<close>

definition launched_count :: "string \<Rightarrow> db \<Rightarrow> nat" where
  "launched_count rd db = count_where (\<lambda>e. ex_round e = rd \<and> \<not> ex_refunded e) (d_experiments db)"

definition envelope_ok :: "db \<Rightarrow> envelope \<Rightarrow> bool" where
  "envelope_ok db en \<longleftrightarrow> limits_in_range (en_limits en) \<and> en_launches_reserved en = launched_count (en_round en) db
     \<and> launched_count (en_round en) db \<le> MAX_LAUNCHES \<and> running_count (en_round en) db \<le> MAX_CONCURRENT"

definition budget_ok :: "db \<Rightarrow> bool" where
  "budget_ok db \<longleftrightarrow> (\<forall>e\<in>set (d_experiments db). has_key en_round (ex_round e) (d_envelopes db))
     \<and> (\<forall>en\<in>set (d_envelopes db). envelope_ok db en)"

lemma running_count_active:
  "running_count rd db = count_where (\<lambda>e. ex_round e = rd \<and> is_active (ex_state e)) (d_experiments db)"
proof -
  have "s \<in> {ExReserved, ExLaunching, ExRunning, ExCancelling, ExUnknown} \<longleftrightarrow> is_active s" for s by (cases s) auto
  then show ?thesis by (simp only: running_count_def)
qed

lemma count_where_all2:
  "list_all2 R xs ys \<Longrightarrow> (\<And>x y. R x y \<Longrightarrow> Q y \<Longrightarrow> P x) \<Longrightarrow> count_where Q ys \<le> count_where P xs"
  "list_all2 R xs ys \<Longrightarrow> (\<And>x y. R x y \<Longrightarrow> Q y = P x) \<Longrightarrow> count_where Q ys = count_where P xs"
  by (induction rule: list_all2_induct) (auto intro: le_SucI)

lemma exp_moves_counts:
  assumes "exp_moves op db db'"
  shows "running_count rd db' \<le> running_count rd db"
    and "op \<notin> {Abandon, Reconcile} \<Longrightarrow> launched_count rd db' = launched_count rd db"
proof -
  show "running_count rd db' \<le> running_count rd db" unfolding running_count_active
    by (rule count_where_all2(1) [OF assms])
      (use exp_edge_final in \<open>fastforce simp: exp_move_def same_launch_def\<close>)
  show "op \<notin> {Abandon, Reconcile} \<Longrightarrow> launched_count rd db' = launched_count rd db" unfolding launched_count_def
    by (rule count_where_all2(2) [OF assms]) (auto simp: exp_move_def same_launch_def)
qed

lemma exp_moves_rounds:
  assumes "exp_moves op db db'" "e' \<in> set (d_experiments db')"
  shows "\<exists>e\<in>set (d_experiments db). exp_move op e e'"
  using assms by (metis in_set_conv_nth list_all2_conv_all_nth)

text \<open>An operation that leaves the envelopes and the refunds alone.\<close>

lemma budget_kept:
  assumes "budget_ok db" "exp_moves op db db'" "op \<notin> {Abandon, Reconcile}" "d_envelopes db' = d_envelopes db"
  shows "budget_ok db'"
  using assms(1) exp_moves_counts [OF assms(2)] assms(3,4) exp_moves_rounds [OF assms(2)]
  by (fastforce simp: budget_ok_def envelope_ok_def exp_move_def same_launch_def dest: order_trans)

lemma count_where_flip:
  assumes "unique_key key rows" "row_of key i rows = Some e" "P e" "\<And>x. key x = i \<Longrightarrow> \<not> P (f x)"
  shows "Suc (count_where P (update_where (\<lambda>x. key x = i) f rows)) = count_where P rows"
  using assms(1-3)
proof (induction rows)
  case Nil
  then show ?case by (simp add: row_of_def)
next
  case (Cons a rows)
  show ?case
  proof (cases "key a = i")
    case True
    then have "\<not> has_key key i rows" "a = e"
      using Cons.prems by (auto simp: unique_key_def has_key_iff row_of_def image_iff)
    then have "update_where (\<lambda>x. key x = i) f rows = rows"
      by (induction rows) (auto simp: update_where_def)
    then show ?thesis using True \<open>a = e\<close> Cons.prems(3) assms(4) by (simp add: update_where_def)
  next
    case False
    then show ?thesis using Cons by (simp add: update_where_def row_of_def unique_key_def)
  qed
qed

lemma refund_rows [simp]:
  "d_experiments (refund_launch rd db) = d_experiments db"
  "d_envelopes (refund_launch rd db) = update_where (\<lambda>x. en_round x = rd)
     (\<lambda>x. x\<lparr>en_launches_reserved := en_launches_reserved x - 1\<rparr>) (d_envelopes db)"
  by (simp_all add: refund_launch_def)

lemma budget_refund:
  assumes "budget_ok db" "schema_ok db" "experiments_ok db" "exp_moves op db db'"
    and e: "row_of ex_id i (d_experiments db) = Some e" "ex_state e \<noteq> ExFailedToStart"
    and rows: "d_experiments db' = update_where (\<lambda>x. ex_id x = i) f (d_experiments db)"
    and f: "\<And>x. ex_refunded (f x)" "\<And>x. ex_round (f x) = ex_round x"
    and envs: "d_envelopes db' = update_where (\<lambda>x. en_round x = ex_round e)
     (\<lambda>x. x\<lparr>en_launches_reserved := en_launches_reserved x - 1\<rparr>) (d_envelopes db)"
  shows "budget_ok db'"
proof -
  have key: "unique_key ex_id (d_experiments db)" using assms(2) by (simp add: schema_defs)
  have "e \<in> set (d_experiments db)" using row_in_experiments [OF e(1)] by blast
  then have fresh: "\<not> ex_refunded e" using assms(3) e(2) by (auto simp: experiment_ok_def)
  have here: "Suc (launched_count (ex_round e) db') = launched_count (ex_round e) db"
    unfolding launched_count_def rows by (rule count_where_flip [OF key e(1)]) (use fresh f in auto)
  have there: "launched_count rd db' = launched_count rd db" if other: "rd \<noteq> ex_round e" for rd
  proof -
    have "ex_round x \<noteq> rd" if mem: "x \<in> set (d_experiments db)" "ex_id x = i" for x
      using the_experiment [OF assms(2) e(1) mem] other by blast
    then show ?thesis unfolding launched_count_def rows
      by (intro count_where_update_same) (use f in auto)
  qed
  have run: "running_count rd db' \<le> running_count rd db" for rd using exp_moves_counts(1) [OF assms(4)] .
  have "envelope_ok db' (if en_round en = ex_round e then en\<lparr>en_launches_reserved := en_launches_reserved en - 1\<rparr> else en)"
    if mem: "en \<in> set (d_envelopes db)" for en
    using assms(1) mem here there [of "en_round en"] run [of "en_round en"]
    by (auto simp: budget_ok_def envelope_ok_def dest: order_trans)
  moreover have "has_key en_round (ex_round e') (d_envelopes db')" if "e' \<in> set (d_experiments db')" for e'
    using assms(1) exp_moves_rounds [OF assms(4) that]
    by (auto simp: budget_ok_def envs has_key_update_where exp_move_def same_launch_def)
  ultimately show ?thesis unfolding budget_ok_def envs update_where_set by blast
qed

lemma budget_reserve:
  assumes "reserve hash p r launch u now clk db = Inr (eb, db')" "budget_ok db"
  shows "budget_ok db'"
  using assms(1)
proof (cases rule: reserve_cases)
  case replay
  then show ?thesis using assms(2) by simp
next
  case (admitted l en db1)
  let ?new = "new_experiment p r l (request_hash hash l) en u now"
  have rows: "d_experiments db' = d_experiments db @ [?new]"
    "d_envelopes db' = update_where (\<lambda>x. en_round x = nl_round l)
       (\<lambda>x. x\<lparr>en_launches_reserved := en_launches_reserved x + 1, en_updated_at := now\<rparr>) (d_envelopes db)"
    using ins_exec_put(4) [OF admitted(6)] by (simp_all add: admitted(7) charge_launch_def)
  have en: "en \<in> set (d_envelopes db)" "en_round en = nl_round l"
    using row_of_SomeD admitted(3) unfolding load_envelope_def by fast+
  then have ok: "envelope_ok db en" using assms(2) by (simp add: budget_ok_def)
  have room: "launched_count (nl_round l) db < MAX_LAUNCHES" "running_count (nl_round l) db < MAX_CONCURRENT"
    using admitted(5) ok en(2) by (auto simp: admit_def err_simps envelope_ok_def limits_in_range_def)
  have counts: "launched_count rd db' = launched_count rd db + (if rd = nl_round l then 1 else 0)"
      "running_count rd db' = running_count rd db + (if rd = nl_round l then 1 else 0)" for rd
    by (simp_all add: launched_count_def running_count_def rows new_experiment_def)
  have "envelope_ok db' (if en_round x = nl_round l
      then x\<lparr>en_launches_reserved := en_launches_reserved x + 1, en_updated_at := now\<rparr> else x)"
    if "x \<in> set (d_envelopes db)" for x
    using assms(2) that room counts by (auto simp: budget_ok_def envelope_ok_def)
  moreover have "has_key en_round (ex_round e) (d_envelopes db')" if "e \<in> set (d_experiments db')" for e
  proof -
    have "has_key en_round (ex_round e) (d_envelopes db)"
      using that assms(2) en by (auto simp: budget_ok_def rows(1) new_experiment_def has_key_iff)
    then show ?thesis by (simp add: rows(2) has_key_update_where)
  qed
  ultimately show ?thesis unfolding budget_ok_def rows(2) update_where_set by blast
qed

lemma budget_set_envelope:
  assumes "set_envelope p r rd expected request actor now db = Inr (en, db')" "budget_ok db"
  shows "budget_ok db'"
  using assms(1)
proof (cases rule: set_envelope_cases)
  case noop
  then show ?thesis using assms(2) by simp
next
  case (create limits)
  have rows: "d_experiments db' = d_experiments db" "d_envelopes db' = d_envelopes db @ [new_envelope rd r 1 limits now]"
    by (simp_all add: create(3))
  have counts: "launched_count x db' = launched_count x db" "running_count x db' = running_count x db" for x
    by (simp_all add: launched_count_def running_count_def rows)
  have "ex_round e \<noteq> rd" if "e \<in> set (d_experiments db)" for e
    using assms(2) that create(2) by (auto simp: budget_ok_def load_envelope_def row_of_None)
  then have "launched_count rd db = 0" "running_count rd db = 0"
    by (auto simp: launched_count_def running_count_def)
  then show ?thesis using assms(2) normalized_limits_Inr [OF create(1)] counts
    by (auto simp: budget_ok_def envelope_ok_def rows new_envelope_def)
next
  case (revise limits old)
  have rows: "d_experiments db' = d_experiments db" "d_envelopes db' = update_where (\<lambda>x. en_round x = rd)
      (\<lambda>x. x\<lparr>en_revision := en_revision old + 1, en_limits := limits, en_updated_at := now\<rparr>) (d_envelopes db)"
    by (simp_all add: revise(5))
  have counts: "launched_count x db' = launched_count x db" "running_count x db' = running_count x db" for x
    by (simp_all add: launched_count_def running_count_def rows)
  have "limits_in_range limits" using normalized_limits_Inr [OF revise(1)] by blast
  then show ?thesis using assms(2)
    by (auto simp: budget_ok_def envelope_ok_def rows counts ball_update_where has_key_update_where)
qed

lemma budget_set_envelope_state:
  assumes "set_envelope_state p r rd state now db = Inr (en, db')" "budget_ok db"
  shows "budget_ok db'"
  using assms(1)
proof (cases rule: set_envelope_state_cases)
  case noop
  then show ?thesis using assms(2) by simp
next
  case (moved old)
  have counts: "launched_count x db' = launched_count x db" "running_count x db' = running_count x db" for x
    by (simp_all add: launched_count_def running_count_def moved(4))
  show ?thesis using assms(2)
    by (auto simp: budget_ok_def envelope_ok_def moved(4) counts [unfolded moved(4)] ball_update_where has_key_update_where)
qed

lemma expire_frames:
  "expire_waits idf now is db = Inr (gone, db') \<Longrightarrow>
   d_envelopes db' = d_envelopes db \<and> d_envelope_revisions db' = d_envelope_revisions db
   \<and> d_experiments db' = d_experiments db \<and> d_decisions db' = d_decisions db"
proof (induction "is" arbitrary: gone db)
  case Nil
  then show ?case by simp
next
  case (Cons i "is")
  then show ?case by (fastforce simp: err_simps Let_def dest: deliver_frames)
qed

lemma remind_frames:
  "remind uf now clk most dues db = Inr (out, db') \<Longrightarrow>
   d_envelopes db' = d_envelopes db \<and> d_envelope_revisions db' = d_envelope_revisions db
   \<and> d_waits db' = d_waits db \<and> d_decisions db' = d_decisions db"
proof (induction dues arbitrary: out db)
  case Nil
  then show ?case by simp
next
  case (Cons du dues)
  then show ?case
    by (fastforce simp: err_simps Let_def dest: enqueue_frames(1) split: if_split_asm)
qed

lemma remind_unanalyzed_Inr:
  "remind_unanalyzed wsecs most uf now clk db = Inr (out, db') \<longleftrightarrow>
   remind uf now clk most (due_reminders clk wsecs most db) db = Inr (out, db')"
  by (auto simp: remind_unanalyzed_def write_tx_Inr err_simps)

text \<open>Which operations leave the envelopes and the recorded revisions alone.\<close>

definition envelope_ops :: "exp_op set" where
  "envelope_ops = {SetEnvelope, SetEnvelopeState, Reserve, Abandon, Reconcile}"

lemma envelope_frames:
  assumes "exp_step hash op db db'"
  shows "(op \<notin> envelope_ops \<longrightarrow> d_envelopes db' = d_envelopes db)
    \<and> (op \<noteq> SetEnvelope \<longrightarrow> d_envelope_revisions db' = d_envelope_revisions db)
    \<and> (op \<noteq> Decide \<longrightarrow> d_decisions db' = d_decisions db)"
  using assms
proof (induction rule: exp_step.induct)
  case (do_observe ids db i oc now b db')
  from do_observe(2) show ?case
    by (cases rule: observe_cases) (auto simp: envelope_ops_def dest: deliver_frames)
next
  case (do_request_cancel ids db i now e db')
  from do_request_cancel(2) show ?case
    by (cases rule: request_cancel_cases) (auto simp: envelope_ops_def dest: deliver_frames)
next
  case (do_reconcile ids db p i truth code actor' now e db')
  from do_reconcile(2) show ?case
    by (cases rule: reconcile_cases) (auto simp: envelope_ops_def refund_launch_def dest: deliver_frames)
next
  case (do_abandon ids db i why now b db')
  from do_abandon(2) show ?case
    by (cases rule: abandon_cases) (auto simp: envelope_ops_def refund_launch_def dest: deliver_frames)
next
  case (do_mark_launching i db e db')
  then show ?case unfolding mark_launching_def by (elim transition_cases) simp
next
  case (do_mark_running i pid now db e db')
  then show ?case by (elim mark_running_cases) simp
next
  case (do_set_reason i reason db un db')
  then show ?case by (auto dest: set_reason_Inr)
next
  case (do_mark_analyzed i db e db')
  then show ?case by (elim mark_analyzed_cases) simp_all
next
  case (do_register_wait p t m i ko expected dl u now clk db w db')
  then show ?case by (elim register_wait_cases) simp_all
next
  case (do_expire_waits idf now clk db gone db')
  then show ?case by (auto simp: expire_due_waits_def dest: expire_frames)
next
  case (do_remind wsecs most uf now clk db out db')
  then show ?case by (auto simp: remind_unanalyzed_Inr dest: remind_frames)
next
  case (do_record_decision p d u now db db0 db')
  then show ?case by (elim record_decision_cases) (auto dest!: ins_exec_put)
next
  case (do_reassign_waits t m now db n db')
  then show ?case by (auto dest: reassign_Inr)
next
  case (do_set_envelope p r rd expected limits actor now db en db')
  then show ?case by (elim set_envelope_cases) (simp_all add: envelope_ops_def)
next
  case (do_set_envelope_state p r rd st now db en db')
  then show ?case by (elim set_envelope_state_cases) (simp_all add: envelope_ops_def)
next
  case (do_reserve p r l u now clk db eb db')
  then show ?case by (elim reserve_cases) (auto simp: envelope_ops_def charge_launch_def dest!: ins_exec_put)
qed

lemma budget_abandon:
  assumes "abandon_reserved i why ids now db = Inr (b, db')" "budget_ok db" "schema_ok db" "experiments_ok db"
  shows "budget_ok db'"
proof -
  note moves = moves_abandon [OF assms(1,3,4)]
  show ?thesis using assms(1)
  proof (cases rule: abandon_cases)
    case noop
    then show ?thesis using assms(2) by simp
  next
    case (gone e db1 sc)
    have rows: "d_experiments db' = update_where (\<lambda>x. ex_id x = i) (abandoned_row why now) (d_experiments db)"
      "d_envelopes db' = update_where (\<lambda>x. en_round x = ex_round e)
         (\<lambda>x. x\<lparr>en_launches_reserved := en_launches_reserved x - 1\<rparr>) (d_envelopes db)"
      using deliver_frames(1,3) [OF gone(4)] by (simp_all add: gone(5))
    show ?thesis by (rule budget_refund [OF assms(2-4) moves gone(1) _ rows(1) _ _ rows(2)]) (simp_all add: gone(2))
  qed
qed

lemma budget_reconcile:
  assumes "reconcile p i truth code actor ids now db = Inr (r, db')" "budget_ok db" "schema_ok db" "experiments_ok db"
  shows "budget_ok db'"
proof -
  note moves = moves_reconcile [OF assms(1,3,4)]
  show ?thesis using assms(1)
  proof (cases rule: reconcile_cases)
    case (1 e reason db3 sc)
    have exps: "d_experiments db' = update_where (\<lambda>x. ex_id x = i) (reconciled_row truth code reason now) (d_experiments db)"
      using deliver_frames(3) [OF 1(4)] by (cases truth) (simp_all add: 1(5))
    show ?thesis
    proof (cases truth)
      case NotStarted
      have envs: "d_envelopes db' = update_where (\<lambda>x. en_round x = ex_round e)
         (\<lambda>x. x\<lparr>en_launches_reserved := en_launches_reserved x - 1\<rparr>) (d_envelopes db)"
        using deliver_frames(1) [OF 1(4)] NotStarted by (simp add: 1(5))
      show ?thesis
        by (rule budget_refund [OF assms(2-4) moves 1(1) _ exps _ _ envs])
          (simp_all add: 1(3) NotStarted reconciled_row_def)
    next
      case ReallyFinished
      have envs: "d_envelopes db' = d_envelopes db"
        using deliver_frames(1) [OF 1(4)] ReallyFinished by (simp add: 1(5))
      have "launched_count rd db' = launched_count rd db" for rd
        unfolding launched_count_def exps
        by (rule count_where_update_same) (simp add: reconciled_row_def ReallyFinished)
      then show ?thesis
        using assms(2) exp_moves_counts(1) [OF moves] exp_moves_rounds [OF moves]
        by (fastforce simp: budget_ok_def envelope_ok_def envs exp_move_def same_launch_def dest: order_trans)
    qed
  qed
qed

lemma budget_step:
  assumes "exp_step hash op db db'" "budget_ok db" "schema_ok db" "experiments_ok db"
  shows "budget_ok db'"
proof (cases "op \<in> envelope_ops")
  case False
  then show ?thesis
    using budget_kept [OF assms(2)] moves_step [OF assms(1,3,4)] envelope_frames [OF assms(1)]
    by (auto simp: envelope_ops_def)
next
  case True
  show ?thesis using assms(1) True assms(2-4)
    by (induction rule: exp_step.induct)
      (simp_all add: envelope_ops_def budget_set_envelope budget_set_envelope_state budget_reserve budget_abandon
        budget_reconcile)
qed

end
