(* ===== verification/ExecutionInvariants.thy ===== *)
theory ExecutionInvariants
  imports ExperimentInvariants
begin

text \<open>
  The policy under which every experiment was admitted, the delivery of results, the waits on
  experiments and the decisions about them: what the execution tables keep under every operation
  of the experiment store.
\<close>

subsection \<open>The recorded policy\<close>

definition admitted_under :: "db \<Rightarrow> experiment_row \<Rightarrow> envelope_revision \<Rightarrow> bool" where
  "admitted_under db e v \<longleftrightarrow> er_round v = ex_round e \<and> er_revision v = ex_policy_revision e
     \<and> authorizes (er_limits v) (ex_argv e)
     \<and> 1 \<le> ex_max_runtime_secs e \<and> ex_max_runtime_secs e \<le> li_max_runtime_secs (er_limits v)"

definition envelope_recorded :: "db \<Rightarrow> envelope \<Rightarrow> bool" where
  "envelope_recorded db en \<longleftrightarrow> 1 \<le> en_revision en \<and> limits_in_range (en_limits en)
     \<and> (\<exists>v\<in>set (d_envelope_revisions db). er_round v = en_round en \<and> er_revision v = en_revision en \<and> er_limits v = en_limits en)
     \<and> (\<forall>n. 1 \<le> n \<and> n \<le> en_revision en \<longrightarrow>
          (\<exists>v\<in>set (d_envelope_revisions db). er_round v = en_round en \<and> er_revision v = n))"

definition trail_ok :: "db \<Rightarrow> bool" where
  "trail_ok db \<longleftrightarrow>
    (\<forall>e\<in>set (d_experiments db). \<exists>v\<in>set (d_envelope_revisions db). admitted_under db e v) \<and>
    (\<forall>en\<in>set (d_envelopes db). envelope_recorded db en)"

lemma trail_kept:
  assumes "trail_ok db" "exp_moves op db db'" "d_envelope_revisions db' = d_envelope_revisions db"
    and envs: "d_envelopes db' = update_where P f (d_envelopes db)"
      "\<And>x. en_round (f x) = en_round x" "\<And>x. en_revision (f x) = en_revision x" "\<And>x. en_limits (f x) = en_limits x"
  shows "trail_ok db'"
proof -
  have "\<exists>v\<in>set (d_envelope_revisions db'). admitted_under db' e' v" if e': "e' \<in> set (d_experiments db')" for e'
  proof -
    obtain e where e: "e \<in> set (d_experiments db)" "same_launch e e'"
      using exp_moves_rounds [OF assms(2) e'] by (auto simp: exp_move_def)
    then obtain v where "v \<in> set (d_envelope_revisions db)" "admitted_under db e v"
      using assms(1) by (auto simp: trail_ok_def)
    then show ?thesis using e(2) assms(3) by (auto simp: admitted_under_def same_launch_def)
  qed
  moreover have "envelope_recorded db' (if P en then f en else en)" if "en \<in> set (d_envelopes db)" for en
    using assms(1,3) that envs by (simp add: trail_ok_def envelope_recorded_def)
  ultimately show ?thesis unfolding trail_ok_def envs(1) update_where_set by blast
qed

lemma update_where_nothing: "rows = update_where (\<lambda>_. False) id rows"
  by (simp add: update_where_def)

lemma trail_set_envelope:
  assumes "set_envelope p r rd expected request actor now db = Inr (en, db')" "trail_ok db" "schema_ok db"
  shows "trail_ok db'"
  using assms(1)
proof (cases rule: set_envelope_cases)
  case noop
  then show ?thesis using assms(2) by simp
next
  case (create limits)
  let ?v = "\<lparr>er_round = rd, er_revision = 1, er_limits = limits, er_actor = actor\<rparr>"
  have rows: "d_experiments db' = d_experiments db" "d_envelopes db' = d_envelopes db @ [new_envelope rd r 1 limits now]"
    "d_envelope_revisions db' = d_envelope_revisions db @ [?v]"
    by (simp_all add: create(3))
  have "limits_in_range limits" using normalized_limits_Inr [OF create(1)] by blast
  then have "envelope_recorded db' (new_envelope rd r 1 limits now)"
    by (auto simp: envelope_recorded_def rows new_envelope_def)
  moreover have "envelope_recorded db' x" if "envelope_recorded db x" for x
    using that by (auto simp: envelope_recorded_def rows)
  moreover have "admitted_under db' = admitted_under db" by (simp add: admitted_under_def fun_eq_iff)
  ultimately show ?thesis using assms(2) by (auto simp: trail_ok_def rows)
next
  case (revise limits old)
  let ?n = "en_revision old + 1"
  let ?v = "\<lparr>er_round = rd, er_revision = ?n, er_limits = limits, er_actor = actor\<rparr>"
  let ?f = "\<lambda>x. x\<lparr>en_revision := ?n, en_limits := limits, en_updated_at := now\<rparr>"
  have rows: "d_experiments db' = d_experiments db" "d_envelopes db' = update_where (\<lambda>x. en_round x = rd) ?f (d_envelopes db)"
    "d_envelope_revisions db' = d_envelope_revisions db @ [?v]"
    by (simp_all add: revise(5))
  have old: "old \<in> set (d_envelopes db)" "en_round old = rd"
    using revise(2) row_of_SomeD unfolding load_envelope_def by fast+
  have "limits_in_range limits" using normalized_limits_Inr [OF revise(1)] by blast
  then have new: "envelope_recorded db' (?f old)"
  proof -
    have "\<exists>v\<in>set (d_envelope_revisions db'). er_round v = rd \<and> er_revision v = n" if "1 \<le> n" "n \<le> ?n" for n
    proof (cases "n = ?n")
      case True
      then show ?thesis by (simp add: rows)
    next
      case False
      then show ?thesis using assms(2) old that unfolding trail_ok_def envelope_recorded_def rows by fastforce
    qed
    then show ?thesis using \<open>limits_in_range limits\<close> old(2) by (auto simp: envelope_recorded_def rows)
  qed
  have "(en_round x = rd \<longrightarrow> envelope_recorded db' (?f x)) \<and> (en_round x \<noteq> rd \<longrightarrow> envelope_recorded db' x)"
    if mem: "x \<in> set (d_envelopes db)" for x
  proof (cases "en_round x = rd")
    case True
    then have "x = old" using unique_key_eqD [of en_round "d_envelopes db"] mem old assms(3) by (simp add: schema_defs)
    then show ?thesis using new True by simp
  next
    case False
    then show ?thesis using assms(2) mem by (auto simp: trail_ok_def envelope_recorded_def rows)
  qed
  moreover have "admitted_under db' = admitted_under db" by (simp add: admitted_under_def fun_eq_iff)
  moreover have "\<forall>e\<in>set (d_experiments db). \<exists>v\<in>set (d_envelope_revisions db @ [?v]). admitted_under db e v"
    using assms(2) by (auto simp: trail_ok_def)
  ultimately show ?thesis unfolding trail_ok_def rows ball_update_where by simp
qed

lemma trail_reserve:
  assumes "reserve hash p r launch u now clk db = Inr (eb, db')" "trail_ok db"
  shows "trail_ok db'"
  using assms(1)
proof (cases rule: reserve_cases)
  case replay
  then show ?thesis using assms(2) by simp
next
  case (admitted l en db1)
  let ?new = "new_experiment p r l (request_hash hash l) en u now"
  let ?f = "\<lambda>x. x\<lparr>en_launches_reserved := en_launches_reserved x + 1, en_updated_at := now\<rparr>"
  have rows: "d_experiments db' = d_experiments db @ [?new]" "d_envelope_revisions db' = d_envelope_revisions db"
    "d_envelopes db' = update_where (\<lambda>x. en_round x = nl_round l) ?f (d_envelopes db)"
    using ins_exec_put(4) [OF admitted(6)] by (simp_all add: admitted(7) charge_launch_def)
  have en: "en \<in> set (d_envelopes db)" "en_round en = nl_round l"
    using row_of_SomeD admitted(3) unfolding load_envelope_def by fast+
  then have rec: "envelope_recorded db en" using assms(2) by (simp add: trail_ok_def)
  then obtain v where v: "v \<in> set (d_envelope_revisions db)" "er_round v = nl_round l" "er_revision v = en_revision en"
      "er_limits v = en_limits en"
    using en(2) by (auto simp: envelope_recorded_def)
  have "1 \<le> li_max_runtime_secs (en_limits en)" using rec by (simp add: envelope_recorded_def limits_in_range_def)
  moreover have "authorizes (en_limits en) (nl_argv l)" using admitted(5) by (simp add: admit_def err_simps)
  ultimately have "admitted_under db' ?new v"
    using v by (auto simp: admitted_under_def new_experiment_def clamp_runtime_def split: option.split)
  moreover have "admitted_under db' = admitted_under db" by (simp add: admitted_under_def fun_eq_iff)
  moreover have "envelope_recorded db' (?f x) = envelope_recorded db x" "envelope_recorded db' x = envelope_recorded db x" for x
    by (simp_all add: envelope_recorded_def rows)
  moreover have "\<forall>e\<in>set (d_experiments db). \<exists>v\<in>set (d_envelope_revisions db). admitted_under db e v"
    using assms(2) by (auto simp: trail_ok_def)
  ultimately show ?thesis using assms(2) v(1) unfolding trail_ok_def rows ball_update_where by auto
qed

lemma trail_step:
  assumes "exp_step hash op db db'" "trail_ok db" "schema_ok db" "experiments_ok db"
  shows "trail_ok db'"
proof (cases "op \<in> envelope_ops")
  case False
  then have "op \<noteq> Reserve" "op \<noteq> SetEnvelope" by (auto simp: envelope_ops_def)
  then show ?thesis
    using trail_kept [OF assms(2), of op db' "\<lambda>_. False" id] moves_step [OF assms(1,3,4)] envelope_frames [OF assms(1)] False
      update_where_nothing by auto
next
  case True
  from assms(1) True assms(2-4) moves_step [OF assms(1,3,4)] show ?thesis
  proof (induction rule: exp_step.induct)
    case (do_set_envelope_state p r rd st now db en db')
    have moves: "exp_moves SetEnvelopeState db db'" using do_set_envelope_state(6) by blast
    from do_set_envelope_state(1) show ?case
    proof (cases rule: set_envelope_state_cases)
      case noop
      then show ?thesis using do_set_envelope_state(3) by simp
    next
      case (moved old)
      show ?thesis
        by (rule trail_kept [OF do_set_envelope_state(3) moves, where P = "\<lambda>x. en_round x = rd"
              and f = "\<lambda>x. x\<lparr>en_state := st, en_updated_at := now\<rparr>"]) (simp_all add: moved(4))
    qed
  next
    case (do_abandon ids db i why now b db')
    have moves: "exp_moves Abandon db db'" using do_abandon(7) by blast
    from do_abandon(2) show ?case
    proof (cases rule: abandon_cases)
      case noop
      then show ?thesis using do_abandon(4) by simp
    next
      case (gone e db1 sc)
      show ?thesis
        by (rule trail_kept [OF do_abandon(4) moves, where P = "\<lambda>x. en_round x = ex_round e"
              and f = "\<lambda>x. x\<lparr>en_launches_reserved := en_launches_reserved x - 1\<rparr>"])
          (use deliver_frames [OF gone(4)] in \<open>simp_all add: gone(5) refund_launch_def\<close>)
    qed
  next
    case (do_reconcile ids db p i truth code actor' now e db')
    have moves: "exp_moves Reconcile db db'" using do_reconcile(7) by blast
    from do_reconcile(2) show ?case
    proof (cases rule: reconcile_cases)
      case (1 x reason db3 sc)
      show ?thesis
      proof (cases truth)
        case NotStarted
        show ?thesis
          by (rule trail_kept [OF do_reconcile(4) moves, where P = "\<lambda>y. en_round y = ex_round x"
                and f = "\<lambda>y. y\<lparr>en_launches_reserved := en_launches_reserved y - 1\<rparr>"])
            (use deliver_frames [OF 1(4)] in \<open>simp_all add: 1(5) refund_launch_def NotStarted\<close>)
      next
        case ReallyFinished
        show ?thesis
          by (rule trail_kept [OF do_reconcile(4) moves, where P = "\<lambda>_. False" and f = id])
            (use deliver_frames [OF 1(4)] in \<open>simp_all add: 1(5) ReallyFinished update_where_def\<close>)
      qed
    qed
  qed (simp_all add: envelope_ops_def trail_set_envelope trail_reserve)
qed

subsection \<open>Events\<close>

definition event_link :: "experiment_event \<Rightarrow> experiment_event \<Rightarrow> bool" where
  "event_link v v' \<longleftrightarrow> ee_id v' = ee_id v \<and> ee_experiment v' = ee_experiment v \<and> ee_kind v' = ee_kind v
     \<and> ee_subject v' = ee_subject v \<and> (ee_message v \<noteq> None \<longrightarrow> ee_message v' \<noteq> None)"

definition event_told :: "db \<Rightarrow> experiment_event \<Rightarrow> bool" where
  "event_told db v \<longleftrightarrow> (\<exists>e. row_of ex_id (ee_experiment v) (d_experiments db) = Some e
     \<and> (ex_team e \<noteq> None \<longrightarrow> ee_message v \<noteq> None))"

definition events_grow :: "db \<Rightarrow> db \<Rightarrow> bool" where
  "events_grow db db' \<longleftrightarrow> (\<exists>olds news. d_events db' = olds @ news \<and> list_all2 event_link (d_events db) olds
     \<and> (\<forall>v\<in>set news. event_told db v))"

lemma event_link_refl [simp]: "event_link v v"
  by (simp add: event_link_def)

lemma event_links_refl [simp]: "list_all2 event_link vs vs"
  by (simp add: list.rel_refl)

lemma event_links_trans: "list_all2 event_link xs ys \<Longrightarrow> list_all2 event_link ys zs \<Longrightarrow> list_all2 event_link xs zs"
proof (erule list_all2_trans [rotated])
  fix a b c assume "event_link a b" "event_link b c"
  then show "event_link a c" by (simp add: event_link_def)
qed

lemma events_grow_same: "d_events db' = d_events db \<Longrightarrow> events_grow db db'"
  unfolding events_grow_def by (rule exI [of _ "d_events db"], rule exI [of _ "[]"]) simp

lemma events_grow_links: "list_all2 event_link (d_events db) (d_events db') \<Longrightarrow> events_grow db db'"
  unfolding events_grow_def by (rule exI [of _ "d_events db'"], rule exI [of _ "[]"]) simp

lemma event_told_set_experiment:
  assumes "\<And>x. ex_id (f x) = ex_id x" "\<And>x. ex_team (f x) = ex_team x" "d_experiments db1 = update_where P f (d_experiments db)"
  shows "event_told db1 v = event_told db v"
  unfolding event_told_def assms(3) row_of_update_where [of ex_id, OF assms(1)] using assms(2)
  by (cases "row_of ex_id (ee_experiment v) (d_experiments db)") auto

lemma events_grow_deliver:
  assumes "deliver_about i kind w ids now db1 = Inr db2" "d_events db1 = d_events db"
    "\<And>v. event_told db1 v = event_told db v" "d_events db' = d_events db2"
  shows "events_grow db db'"
  using assms(1)
proof (cases rule: deliver_cases)
  case known
  then show ?thesis using assms(2,4) by (simp add: events_grow_same)
next
  case (recorded e r)
  then have "event_told db1 r" by (simp add: event_told_def)
  then show ?thesis using recorded(2) assms(2-4) unfolding events_grow_def
    by (intro exI [of _ "d_events db"] exI [of _ "[r]"]) simp
qed

lemma events_observe:
  assumes "observe i oc ids now db = Inr (b, db')"
  shows "events_grow db db'"
  using assms
proof (cases rule: observe_cases)
  case again
  then show ?thesis by (simp add: events_grow_same)
next
  case (first e db1 sc)
  show ?thesis
    by (rule events_grow_deliver [OF first(5)])
      (simp_all add: first(6) event_told_set_experiment [where f = "observed_row (observed_state oc e) oc now"])
qed

lemma events_request_cancel:
  assumes "request_cancel i ids now db = Inr (r, db')"
  shows "events_grow db db'"
  using assms
proof (cases rule: request_cancel_cases)
  case noop
  then show ?thesis by (simp add: events_grow_same)
next
  case (before e db2 sc)
  show ?thesis
    by (rule events_grow_deliver [OF before(4)])
      (simp_all add: before(5) set_experiment_twice
        event_told_set_experiment [where f = "cancelled_before_launch now \<circ> (\<lambda>x. x\<lparr>ex_cancel_requested := True\<rparr>)"])
next
  case (live e sc)
  then show ?thesis by (simp add: events_grow_same)
next
  case (intent e sc)
  then show ?thesis by (simp add: events_grow_same)
qed

lemma events_reconcile:
  assumes "reconcile p i truth code actor ids now db = Inr (r, db')"
  shows "events_grow db db'"
  using assms
proof (cases rule: reconcile_cases)
  case (1 e reason db3 sc)
  show ?thesis
    by (rule events_grow_deliver [OF 1(4)])
      (simp_all add: 1(5) refund_launch_def event_told_set_experiment [where f = "reconciled_row truth code reason now"])
qed

lemma events_abandon:
  assumes "abandon_reserved i why ids now db = Inr (b, db')"
  shows "events_grow db db'"
  using assms
proof (cases rule: abandon_cases)
  case noop
  then show ?thesis by (simp add: events_grow_same)
next
  case (gone e db1 sc)
  show ?thesis
    by (rule events_grow_deliver [OF gone(4)])
      (simp_all add: gone(5) refund_launch_def event_told_set_experiment [where f = "abandoned_row why now"])
qed

lemma events_expire:
  "expire_waits idf now is db = Inr (gone, db') \<Longrightarrow>
   \<exists>news. d_events db' = d_events db @ news \<and> (\<forall>v\<in>set news. event_told db v)"
proof (induction "is" arbitrary: gone db)
  case Nil
  then show ?case by simp
next
  case (Cons i "is")
  let ?db1 = "upd_waits (\<lambda>w. wt_id w = i \<and> wt_state w = WtOpen) (\<lambda>w. w\<lparr>wt_state := WtExpired, wt_resolved_at := Some now\<rparr>) db"
  obtain w db2 sc gone' where *: "deliver_about (wt_experiment w) EkWaitExpired (Some w) (idf i) now ?db1 = Inr db2"
      "expire_waits idf now is (append_research_event sc db2) = Inr (gone', db')"
    using Cons.prems by (auto simp: err_simps Let_def)
  have told: "event_told (append_research_event sc db2) = event_told db" "event_told ?db1 = event_told db"
    using deliver_frames(3) [OF *(1)] by (simp_all add: event_told_def fun_eq_iff)
  obtain news where news: "d_events db' = d_events db2 @ news" "\<forall>v\<in>set news. event_told db v"
    using Cons.IH [OF *(2)] told by auto
  from *(1) show ?case
  proof (cases rule: deliver_cases)
    case known
    then show ?thesis using news by simp
  next
    case (recorded e r)
    then have "event_told ?db1 r" by (simp add: event_told_def)
    then show ?thesis using news recorded(2) told(2) by simp
  qed
qed

lemma events_remind:
  "remind uf now clk most dues db = Inr (out, db') \<Longrightarrow> list_all2 event_link (d_events db) (d_events db')"
proof (induction dues arbitrary: out db)
  case Nil
  then show ?case by simp
next
  case (Cons du dues)
  show ?case
  proof (cases "most \<le> du_reminders du")
    case True
    then show ?thesis using Cons by (fastforce simp: err_simps Let_def)
  next
    case False
    then obtain e body db1 out' where *: "enqueue_to_leader e body (uf (du_experiment du)) now db = Inr db1"
        "remind uf now clk most dues
           (set_experiment (du_experiment du) (\<lambda>x. x\<lparr>ex_reminders := ex_reminders x + 1, ex_reminded_at := Some clk\<rparr>)
             (link_message (du_event du) (uf (du_experiment du)) db1)) = Inr (out', db')"
      using Cons.prems by (auto simp: err_simps Let_def)
    have "list_all2 event_link (d_events db) (d_events (link_message (du_event du) (uf (du_experiment du)) db1))"
      using enqueue_frames(1) [OF *(1)] by (auto simp: event_link_def intro!: list_all2_update)
    then show ?thesis using Cons.IH [OF *(2)] event_links_trans by simp
  qed
qed

lemma events_step:
  assumes "exp_step hash op db db'"
  shows "events_grow db db'"
  using assms
proof (induction rule: exp_step.induct)
  case (do_expire_waits idf now clk db gone db')
  then obtain news where "d_events db' = d_events db @ news" "\<forall>v\<in>set news. event_told db v"
    using events_expire unfolding expire_due_waits_def by blast
  then show ?case unfolding events_grow_def by (intro exI [of _ "d_events db"] exI [of _ news]) simp
next
  case (do_remind wsecs most uf now clk db out db')
  then show ?case using events_remind events_grow_links by (fastforce simp: remind_unanalyzed_Inr)
next
  case (do_observe ids db i oc now b db')
  then show ?case using events_observe by blast
next
  case (do_request_cancel ids db i now e db')
  then show ?case using events_request_cancel by blast
next
  case (do_reconcile ids db p i truth code actor' now e db')
  then show ?case using events_reconcile by blast
next
  case (do_abandon ids db i why now b db')
  then show ?case using events_abandon by blast
next
  case (do_mark_launching i db e db')
  then show ?case unfolding mark_launching_def by (elim transition_cases) (simp add: events_grow_same)
next
  case (do_mark_running i pid now db e db')
  then show ?case by (elim mark_running_cases) (simp add: events_grow_same)
next
  case (do_set_reason i reason db un db')
  then show ?case by (auto dest: set_reason_Inr simp: events_grow_same)
next
  case (do_mark_analyzed i db e db')
  then show ?case by (elim mark_analyzed_cases) (simp_all add: events_grow_same)
next
  case (do_register_wait p t m i ko expected dl u now clk db w db')
  then show ?case by (elim register_wait_cases) (simp_all add: events_grow_same)
next
  case (do_record_decision p d u now db db0 db')
  then show ?case by (elim record_decision_cases) (auto dest!: ins_exec_put simp: events_grow_same)
next
  case (do_reassign_waits t m now db n db')
  then show ?case by (auto dest: reassign_Inr simp: events_grow_same)
next
  case (do_set_envelope p r rd expected limits actor now db en db')
  then show ?case by (elim set_envelope_cases) (simp_all add: events_grow_same)
next
  case (do_set_envelope_state p r rd st now db en db')
  then show ?case by (elim set_envelope_state_cases) (simp_all add: events_grow_same)
next
  case (do_reserve p r l u now clk db eb db')
  then show ?case by (elim reserve_cases) (auto simp: charge_launch_def events_grow_same dest!: ins_exec_put)
qed

subsection \<open>Results are delivered\<close>

definition owed :: "experiment_row \<Rightarrow> bool" where
  "owed e \<longleftrightarrow> \<not> is_active (ex_state e) \<or> ex_state e = ExUnknown"

definition has_result :: "string \<Rightarrow> db \<Rightarrow> bool" where
  "has_result i db \<longleftrightarrow> (\<exists>v\<in>set (d_events db). ee_experiment v = i \<and> ee_kind v = EkFinished \<and> ee_subject v = [])"

definition told :: "db \<Rightarrow> experiment_event \<Rightarrow> bool" where
  "told db v \<longleftrightarrow> (\<forall>e\<in>set (d_experiments db). ex_id e = ee_experiment v \<and> ex_team e \<noteq> None \<longrightarrow> ee_message v \<noteq> None)"

definition results_ok :: "db \<Rightarrow> bool" where
  "results_ok db \<longleftrightarrow> (\<forall>e\<in>set (d_experiments db). owed e \<longrightarrow> has_result (ex_id e) db)
     \<and> (\<forall>v\<in>set (d_events db). told db v)"

lemma all2_left: "list_all2 R xs ys \<Longrightarrow> x \<in> set xs \<Longrightarrow> \<exists>y\<in>set ys. R x y"
  by (induction rule: list_all2_induct) auto

lemma all2_right: "list_all2 R xs ys \<Longrightarrow> y \<in> set ys \<Longrightarrow> \<exists>x\<in>set xs. R x y"
  by (induction rule: list_all2_induct) auto

lemma has_result_grow:
  assumes "events_grow db db'" "has_result i db"
  shows "has_result i db'"
proof -
  obtain olds news where e: "d_events db' = olds @ news" "list_all2 event_link (d_events db) olds"
    using assms(1) by (auto simp: events_grow_def)
  obtain v where "v \<in> set (d_events db)" "ee_experiment v = i" "ee_kind v = EkFinished" "ee_subject v = []"
    using assms(2) by (auto simp: has_result_def)
  then show ?thesis using all2_left [OF e(2)] e(1) by (fastforce simp: has_result_def event_link_def)
qed

lemma has_result_deliver:
  assumes "deliver i EkFinished ids now db1 = Inr db2" "fresh_event ids db1"
  shows "has_result i db2"
  using assms(1)
proof (cases rule: deliver_cases)
  case (known r)
  then show ?thesis using assms(2) by (auto simp: event_known_def fresh_event_def has_result_def has_key_iff)
next
  case (recorded e r)
  then show ?thesis by (auto simp: has_result_def)
qed

lemma told_step:
  assumes "events_grow db db'" "schema_ok db" "\<forall>v\<in>set (d_events db). told db v"
    and exps: "\<And>e'. e' \<in> set (d_experiments db') \<Longrightarrow>
      (\<exists>e\<in>set (d_experiments db). same_launch e e') \<or> \<not> has_key ex_id (ex_id e') (d_experiments db)"
    and v: "v \<in> set (d_events db')"
  shows "told db' v"
proof -
  obtain olds news where e: "d_events db' = olds @ news" "list_all2 event_link (d_events db) olds"
      "\<forall>v\<in>set news. event_told db v"
    using assms(1) by (auto simp: events_grow_def)
  have known: "has_key ex_id (ee_experiment u) (d_experiments db)" if "u \<in> set (d_events db)" for u
    using assms(2) that by (simp add: schema_defs)
  consider (old) u where "u \<in> set (d_events db)" "event_link u v" | (new) "event_told db v"
    using v e all2_right [OF e(2)] by auto
  then have "has_key ex_id (ee_experiment v) (d_experiments db) \<and>
    (\<forall>e\<in>set (d_experiments db). ex_id e = ee_experiment v \<and> ex_team e \<noteq> None \<longrightarrow> ee_message v \<noteq> None)"
  proof cases
    case old
    then show ?thesis using known [OF old(1)] assms(3) by (fastforce simp: told_def event_link_def)
  next
    case new
    then obtain x where x: "row_of ex_id (ee_experiment v) (d_experiments db) = Some x"
        "ex_team x \<noteq> None \<longrightarrow> ee_message v \<noteq> None" by (auto simp: event_told_def)
    then show ?thesis using the_experiment [OF assms(2) x(1)] row_of_SomeD [OF x(1)] unfolding has_key_iff by blast
  qed
  then have in_db: "has_key ex_id (ee_experiment v) (d_experiments db)"
    and told: "\<And>e. e \<in> set (d_experiments db) \<Longrightarrow> ex_id e = ee_experiment v \<Longrightarrow> ex_team e \<noteq> None \<Longrightarrow> ee_message v \<noteq> None"
    by blast+
  show ?thesis unfolding told_def
  proof (intro ballI impI)
    fix e' assume e': "e' \<in> set (d_experiments db')" "ex_id e' = ee_experiment v \<and> ex_team e' \<noteq> None"
    then obtain e where e: "e \<in> set (d_experiments db)" "same_launch e e'"
      using exps [OF e'(1)] in_db by auto
    show "ee_message v \<noteq> None" by (rule told [OF e(1)]) (use e(2) e'(2) in \<open>auto simp: same_launch_def\<close>)
  qed
qed

text \<open>The operations that finish an experiment deliver its result.\<close>

lemma finish_delivers:
  assumes moves: "exp_moves op db db'" and ok: "results_ok db" and grow: "events_grow db db'"
    and fin: "\<And>e e'. e \<in> set (d_experiments db) \<Longrightarrow> exp_move op e e' \<Longrightarrow> e' \<in> set (d_experiments db') \<Longrightarrow> owed e'
       \<Longrightarrow> owed e \<or> has_result (ex_id e) db'"
    and e': "e' \<in> set (d_experiments db')" "owed e'"
  shows "has_result (ex_id e') db'"
proof -
  obtain e where e: "e \<in> set (d_experiments db)" "exp_move op e e'" using exp_moves_rounds [OF moves e'(1)] by blast
  have same: "ex_id e' = ex_id e" using e(2) by (simp add: exp_move_def same_launch_def)
  from fin [OF e e'] show ?thesis
  proof
    assume "owed e"
    then show ?thesis using ok e(1) has_result_grow [OF grow] same by (simp add: results_ok_def)
  qed (simp add: same)
qed

lemma update_other:
  "e' \<in> set (update_where (\<lambda>x. key x = i) f rows) \<Longrightarrow> (\<And>x. key (f x) = key x) \<Longrightarrow> key e' \<noteq> i \<Longrightarrow> e' \<in> set rows"
  by (auto simp: update_where_set split: if_splits)

lemma quiet_edge:
  "op \<notin> {Observe, Cancel, Abandon} \<Longrightarrow> exp_move op e e' \<Longrightarrow> owed e' \<Longrightarrow> owed e"
  by (cases op; cases "ex_state e"; cases "ex_state e'") (auto simp: exp_move_def exp_edge_def owed_def)

lemma same_row:
  assumes "schema_ok db" "e \<in> set (d_experiments db)" "e' \<in> set (d_experiments db)" "exp_move op e e'"
  shows "e' = e"
proof -
  have key: "unique_key ex_id (d_experiments db)" using assms(1) by (simp add: schema_defs)
  have "ex_id e' = ex_id e" using assms(4) by (simp add: exp_move_def same_launch_def)
  then show ?thesis by (rule unique_key_eqD [OF key assms(3,2)])
qed

text \<open>Only the experiment the operation names changes.\<close>

lemma kept_row:
  assumes "d_experiments db' = update_where (\<lambda>x. ex_id x = i) f (d_experiments db)" "\<And>x. ex_id (f x) = ex_id x"
    "schema_ok db" "e \<in> set (d_experiments db)" "exp_move op e e'" "e' \<in> set (d_experiments db')" "ex_id e \<noteq> i"
  shows "e' = e"
proof -
  have "ex_id e' \<noteq> i" using assms(5,7) by (simp add: exp_move_def same_launch_def)
  then have "e' \<in> set (d_experiments db)" using update_other [of e' ex_id i f "d_experiments db"] assms(1,2,6) by simp
  then show ?thesis by (rule same_row [OF assms(3,4) _ assms(5)])
qed

lemma results_observe:
  assumes "observe i oc ids now db = Inr (b, db')" "fresh_event ids db" "schema_ok db"
    "e \<in> set (d_experiments db)" "exp_move Observe e e'" "e' \<in> set (d_experiments db')" "owed e'"
  shows "owed e \<or> has_result (ex_id e) db'"
  using assms(1)
proof (cases rule: observe_cases)
  case again
  then show ?thesis using same_row [OF assms(3,4) _ assms(5)] assms(6,7) by auto
next
  case (first x db1 sc)
  have rows: "d_experiments db' = update_where (\<lambda>x. ex_id x = i) (observed_row (observed_state oc x) oc now) (d_experiments db)"
    using deliver_frames(3) [OF first(5)] by (simp add: first(6))
  have "has_result i db1" by (rule has_result_deliver [OF first(5)]) (use assms(2) in \<open>simp add: fresh_event_def\<close>)
  then have "has_result i db'" by (simp add: first(6) has_result_def)
  then show ?thesis using kept_row [OF rows _ assms(3-6)] assms(7) by (cases "ex_id e = i") auto
qed

lemma results_request_cancel:
  assumes "request_cancel i ids now db = Inr (r, db')" "fresh_event ids db" "schema_ok db"
    "e \<in> set (d_experiments db)" "exp_move Cancel e e'" "e' \<in> set (d_experiments db')" "owed e'"
  shows "owed e \<or> has_result (ex_id e) db'"
  using assms(1)
proof (cases rule: request_cancel_cases)
  case noop
  then show ?thesis using same_row [OF assms(3,4) _ assms(5)] assms(6,7) by auto
next
  case (before x db2 sc)
  have rows: "d_experiments db' = update_where (\<lambda>x. ex_id x = i)
      (cancelled_before_launch now \<circ> (\<lambda>x. x\<lparr>ex_cancel_requested := True\<rparr>)) (d_experiments db)"
    using deliver_frames(3) [OF before(4)] by (simp add: before(5) set_experiment_twice)
  have "has_result i db2" by (rule has_result_deliver [OF before(4)]) (use assms(2) in \<open>simp add: fresh_event_def\<close>)
  then have "has_result i db'" by (simp add: before(5) has_result_def)
  then show ?thesis using kept_row [OF rows _ assms(3-6)] assms(7) by (cases "ex_id e = i") auto
next
  case (live x sc)
  have rows: "d_experiments db' = update_where (\<lambda>x. ex_id x = i)
      ((\<lambda>x. x\<lparr>ex_state := ExCancelling\<rparr>) \<circ> (\<lambda>x. x\<lparr>ex_cancel_requested := True\<rparr>)) (d_experiments db)"
    by (simp add: live(4) set_experiment_twice)
  have "owed e" if "ex_id e = i"
  proof -
    have "e = x" by (rule the_experiment [OF assms(3) live(1) assms(4) that])
    then show ?thesis using live(2) assms(5,7) by (cases "ex_state e'") (auto simp: exp_move_def exp_edge_def owed_def)
  qed
  then show ?thesis using kept_row [OF rows _ assms(3-6)] assms(7) by (cases "ex_id e = i") auto
next
  case (intent x sc)
  have rows: "d_experiments db' = update_where (\<lambda>x. ex_id x = i) (\<lambda>x. x\<lparr>ex_cancel_requested := True\<rparr>) (d_experiments db)"
    by (simp add: intent(3))
  have "owed e" if "ex_id e = i"
  proof -
    have "e = x" by (rule the_experiment [OF assms(3) intent(1) assms(4) that])
    then show ?thesis using intent(2) assms(5,7) by (cases "ex_state e'") (auto simp: exp_move_def exp_edge_def owed_def)
  qed
  then show ?thesis using kept_row [OF rows _ assms(3-6)] assms(7) by (cases "ex_id e = i") auto
qed

lemma results_abandon:
  assumes "abandon_reserved i why ids now db = Inr (b, db')" "fresh_event ids db" "schema_ok db"
    "e \<in> set (d_experiments db)" "exp_move Abandon e e'" "e' \<in> set (d_experiments db')" "owed e'"
  shows "owed e \<or> has_result (ex_id e) db'"
  using assms(1)
proof (cases rule: abandon_cases)
  case noop
  then show ?thesis using same_row [OF assms(3,4) _ assms(5)] assms(6,7) by auto
next
  case (gone x db1 sc)
  have rows: "d_experiments db' = update_where (\<lambda>x. ex_id x = i) (abandoned_row why now) (d_experiments db)"
    using deliver_frames(3) [OF gone(4)] by (simp add: gone(5) refund_launch_def)
  have "has_result i db1"
    by (rule has_result_deliver [OF gone(4)]) (use assms(2) in \<open>simp add: fresh_event_def refund_launch_def\<close>)
  then have "has_result i db'" by (simp add: gone(5) has_result_def)
  then show ?thesis using kept_row [OF rows _ assms(3-6)] assms(7) by (cases "ex_id e = i") auto
qed

lemma results_step:
  assumes "exp_step hash op db db'" "results_ok db" "schema_ok db" "experiments_ok db"
  shows "results_ok db'"
proof -
  note grow = events_step [OF assms(1)]
  have exps: "(\<exists>e\<in>set (d_experiments db). same_launch e e') \<or> \<not> has_key ex_id (ex_id e') (d_experiments db)"
    if "e' \<in> set (d_experiments db')" for e'
    using moves_step [OF assms(1,3,4)]
  proof
    assume "exp_moves op db db'"
    then show ?thesis using exp_moves_rounds that by (fastforce simp: exp_move_def)
  next
    assume "op = Reserve \<and> (\<exists>p r l h en u now.
      d_experiments db' = d_experiments db @ [new_experiment p r l h en u now] \<and> \<not> has_key ex_id u (d_experiments db))"
    then obtain p r l h en u now where new: "d_experiments db' = d_experiments db @ [new_experiment p r l h en u now]"
        "\<not> has_key ex_id u (d_experiments db)" by blast
    show ?thesis
    proof (cases "e' \<in> set (d_experiments db)")
      case True
      then show ?thesis using same_launch_refl by blast
    next
      case False
      then show ?thesis using that new by (simp add: new_experiment_def)
    qed
  qed
  have told: "\<forall>v\<in>set (d_events db'). told db' v"
    using told_step [OF grow assms(3) _ exps] assms(2) by (simp add: results_ok_def)
  have "has_result (ex_id e') db'" if e': "e' \<in> set (d_experiments db')" "owed e'" for e'
    using moves_step [OF assms(1,3,4)]
  proof
    assume moves: "exp_moves op db db'"
    show ?thesis
    proof (rule finish_delivers [OF moves assms(2) grow _ e'])
      fix e x assume x: "e \<in> set (d_experiments db)" "exp_move op e x" "x \<in> set (d_experiments db')" "owed x"
      show "owed e \<or> has_result (ex_id e) db'"
      proof (cases "op \<in> {Observe, Cancel, Abandon}")
        case False
        then show ?thesis using quiet_edge x(2,4) by blast
      next
        case True
        from assms(1) True x assms(3) show ?thesis
        proof (induction rule: exp_step.induct)
          case (do_observe ids db i oc now b db')
          show ?case by (rule results_observe [OF do_observe(2,1,8) do_observe(4-7)])
        next
          case (do_request_cancel ids db i now r db')
          show ?case by (rule results_request_cancel [OF do_request_cancel(2,1,8) do_request_cancel(4-7)])
        next
          case (do_abandon ids db i why now b db')
          show ?case by (rule results_abandon [OF do_abandon(2,1,8) do_abandon(4-7)])
        qed simp_all
      qed
    qed
  next
    assume "op = Reserve \<and> (\<exists>p r l h en u now.
      d_experiments db' = d_experiments db @ [new_experiment p r l h en u now] \<and> \<not> has_key ex_id u (d_experiments db))"
    then have "e' \<in> set (d_experiments db)" using e' by (auto simp: new_experiment_def owed_def)
    then show ?thesis using assms(2) e'(2) has_result_grow [OF grow] by (simp add: results_ok_def)
  qed
  then show ?thesis using told by (simp add: results_ok_def)
qed

subsection \<open>Waits\<close>

definition wait_ok :: "db \<Rightarrow> experiment_wait \<Rightarrow> bool" where
  "wait_ok db w \<longleftrightarrow> (wt_state w = WtOpen \<longleftrightarrow> wt_resolved_at w = None) \<and> wt_deadline_at w \<noteq> None
     \<and> (wt_state w = WtOpen \<longrightarrow> (\<exists>e\<in>set (d_experiments db). ex_id e = wt_experiment w \<and> is_active (ex_state e)))"

definition same_open_wait :: "experiment_wait \<Rightarrow> experiment_wait \<Rightarrow> bool" where
  "same_open_wait w w' \<longleftrightarrow> wt_state w = WtOpen \<and> wt_state w' = WtOpen
     \<and> wt_experiment w' = wt_experiment w \<and> wt_owner w' = wt_owner w"

definition waits_ok :: "db \<Rightarrow> bool" where
  "waits_ok db \<longleftrightarrow> (\<forall>w\<in>set (d_waits db). wait_ok db w)
     \<and> (\<forall>w\<in>set (d_waits db). \<forall>w'\<in>set (d_waits db). same_open_wait w w' \<longrightarrow> w' = w)"

definition wait_move :: "experiment_wait \<Rightarrow> experiment_wait \<Rightarrow> bool" where
  "wait_move w w' \<longleftrightarrow> w' = w \<or>
     wt_id w' = wt_id w \<and> wt_experiment w' = wt_experiment w \<and> wt_owner w' = wt_owner w \<and> wt_team w' = wt_team w
     \<and> wt_deadline_at w' = wt_deadline_at w \<and> wt_state w = WtOpen \<and> wt_state w' \<noteq> WtOpen \<and> wt_resolved_at w' \<noteq> None"

abbreviation wait_moves :: "db \<Rightarrow> db \<Rightarrow> bool" where
  "wait_moves db db' \<equiv> list_all2 wait_move (d_waits db) (d_waits db')"

lemma wait_move_refl [simp]: "wait_move w w"
  by (simp add: wait_move_def)

lemma wait_moves_same: "d_waits db' = d_waits db \<Longrightarrow> wait_moves db db'"
  by (simp add: list.rel_refl)

lemma wait_moves_trans: "list_all2 wait_move xs ys \<Longrightarrow> list_all2 wait_move ys zs \<Longrightarrow> list_all2 wait_move xs zs"
proof (erule list_all2_trans [rotated])
  fix a b c assume "wait_move a b" "wait_move b c"
  then show "wait_move a c" by (auto simp: wait_move_def)
qed

lemma wait_open_before: "wait_move w w' \<Longrightarrow> wt_state w' = WtOpen \<Longrightarrow> w' = w"
  by (auto simp: wait_move_def)

lemma waits_moved:
  assumes "waits_ok db" "wait_moves db db'"
    and active: "\<And>w. w \<in> set (d_waits db) \<Longrightarrow> w \<in> set (d_waits db') \<Longrightarrow> wt_state w = WtOpen \<Longrightarrow> wait_ok db w
      \<Longrightarrow> \<exists>e\<in>set (d_experiments db'). ex_id e = wt_experiment w \<and> is_active (ex_state e)"
  shows "waits_ok db'"
proof -
  have before: "\<exists>w\<in>set (d_waits db). wait_move w w'" if "w' \<in> set (d_waits db')" for w'
    using all2_right [OF assms(2) that] .
  have "wait_ok db' w'" if w': "w' \<in> set (d_waits db')" for w'
  proof -
    obtain w where w: "w \<in> set (d_waits db)" "wait_move w w'" using before [OF w'] by blast
    then have ok: "wait_ok db w" using assms(1) by (simp add: waits_ok_def)
    show ?thesis
    proof (cases "wt_state w' = WtOpen")
      case True
      then have "w' = w" using wait_open_before [OF w(2)] by blast
      then show ?thesis using ok active [OF w(1)] w' True by (simp add: wait_ok_def)
    next
      case False
      then show ?thesis using ok w(2) by (auto simp: wait_move_def wait_ok_def)
    qed
  qed
  moreover have "w2 = w1" if w: "w1 \<in> set (d_waits db')" "w2 \<in> set (d_waits db')" "same_open_wait w1 w2" for w1 w2
  proof -
    have "w1 \<in> set (d_waits db)" "w2 \<in> set (d_waits db)"
      using before [OF w(1)] before [OF w(2)] w(3) wait_open_before by (auto simp: same_open_wait_def)
    then show ?thesis using assms(1) w(3) by (simp add: waits_ok_def)
  qed
  ultimately show ?thesis by (simp add: waits_ok_def)
qed

lemma active_kept:
  "op \<notin> {Observe, Cancel, Abandon, Reconcile} \<Longrightarrow> exp_move op e e' \<Longrightarrow> is_active (ex_state e) \<Longrightarrow> is_active (ex_state e')"
  by (cases op) (auto simp: exp_move_def exp_edge_def)

lemma waits_quiet:
  assumes "waits_ok db" "wait_moves db db'" "exp_moves op db db'" "op \<notin> {Observe, Cancel, Abandon, Reconcile}"
  shows "waits_ok db'"
proof (rule waits_moved [OF assms(1,2)])
  fix w assume "wt_state w = WtOpen" "wait_ok db w"
  then obtain e where e: "e \<in> set (d_experiments db)" "ex_id e = wt_experiment w" "is_active (ex_state e)"
    by (auto simp: wait_ok_def)
  then obtain e' where e': "e' \<in> set (d_experiments db')" "exp_move op e e'" using all2_left [OF assms(3)] by blast
  have "ex_id e' = wt_experiment w" using e'(2) e(2) by (simp add: exp_move_def same_launch_def)
  then show "\<exists>e\<in>set (d_experiments db'). ex_id e = wt_experiment w \<and> is_active (ex_state e)"
    using e'(1) active_kept [OF assms(4) e'(2) e(3)] by blast
qed

text \<open>An operation that settles one experiment and resolves the open waits on it.\<close>

lemma waits_settled:
  assumes "waits_ok db" "d_experiments db' = update_where (\<lambda>x. ex_id x = i) f (d_experiments db)"
    "d_waits db' = update_where (\<lambda>w. wt_experiment w = i \<and> wt_state w = WtOpen)
       (\<lambda>w. w\<lparr>wt_state := WtResolved, wt_resolved_at := Some now\<rparr>) (d_waits db)"
  shows "waits_ok db'"
proof (rule waits_moved [OF assms(1)])
  show "wait_moves db db'"
    unfolding assms(3) by (rule list_all2_update) (auto simp: wait_move_def)
  fix w assume w: "w \<in> set (d_waits db')" "wt_state w = WtOpen" "wait_ok db w"
  have "\<forall>w\<in>set (d_waits db'). wt_state w = WtOpen \<longrightarrow> wt_experiment w \<noteq> i"
    unfolding assms(3) ball_update_where by auto
  then have other: "wt_experiment w \<noteq> i" using w(1,2) by blast
  obtain e where e: "e \<in> set (d_experiments db)" "ex_id e = wt_experiment w" "is_active (ex_state e)"
    using w(2,3) by (auto simp: wait_ok_def)
  then have "e \<in> set (d_experiments db')" using other e(1,2) unfolding assms(2) update_where_set by force
  then show "\<exists>e\<in>set (d_experiments db'). ex_id e = wt_experiment w \<and> is_active (ex_state e)" using e by blast
qed

lemma waits_row_kept:
  assumes "waits_ok db" "d_experiments db' = update_where (\<lambda>x. ex_id x = i) f (d_experiments db)" "d_waits db' = d_waits db"
    "\<And>e. ex_id (f e) = ex_id e" "\<And>e. e \<in> set (d_experiments db) \<Longrightarrow> ex_id e = i \<Longrightarrow> is_active (ex_state e) \<Longrightarrow> is_active (ex_state (f e))"
  shows "waits_ok db'"
proof (rule waits_moved [OF assms(1) wait_moves_same [OF assms(3)]])
  fix w assume "wt_state w = WtOpen" "wait_ok db w"
  then obtain e where e: "e \<in> set (d_experiments db)" "ex_id e = wt_experiment w" "is_active (ex_state e)"
    by (auto simp: wait_ok_def)
  then have "(if ex_id e = i then f e else e) \<in> set (d_experiments db')"
    unfolding assms(2) by (auto simp: update_where_set)
  then show "\<exists>e\<in>set (d_experiments db'). ex_id e = wt_experiment w \<and> is_active (ex_state e)"
    using e assms(4) assms(5) [OF e(1)] by (intro bexI [of _ "if ex_id e = i then f e else e"]) auto
qed

lemma waits_observe:
  assumes "observe i oc ids now db = Inr (b, db')" "waits_ok db"
  shows "waits_ok db'"
  using assms(1)
proof (cases rule: observe_cases)
  case again
  then show ?thesis using assms(2) by simp
next
  case (first e db1 sc)
  show ?thesis
    by (rule waits_settled [OF assms(2), where i = i and f = "observed_row (observed_state oc e) oc now" and now = now])
      (use deliver_frames [OF first(5)] in \<open>simp_all add: first(6) resolve_open_waits_def\<close>)
qed

lemma waits_request_cancel:
  assumes "request_cancel i ids now db = Inr (r, db')" "waits_ok db" "schema_ok db"
  shows "waits_ok db'"
  using assms(1)
proof (cases rule: request_cancel_cases)
  case noop
  then show ?thesis using assms(2) by simp
next
  case (before e db2 sc)
  show ?thesis
    by (rule waits_settled [OF assms(2), where i = i
          and f = "cancelled_before_launch now \<circ> (\<lambda>x. x\<lparr>ex_cancel_requested := True\<rparr>)" and now = now])
      (use deliver_frames [OF before(4)] in \<open>simp_all add: before(5) resolve_open_waits_def set_experiment_twice\<close>)
next
  case (live e sc)
  show ?thesis
    by (rule waits_row_kept [OF assms(2), where i = i
          and f = "(\<lambda>x. x\<lparr>ex_state := ExCancelling\<rparr>) \<circ> (\<lambda>x. x\<lparr>ex_cancel_requested := True\<rparr>)"])
      (simp_all add: live(4) set_experiment_twice)
next
  case (intent e sc)
  show ?thesis
    by (rule waits_row_kept [OF assms(2), where i = i and f = "\<lambda>x. x\<lparr>ex_cancel_requested := True\<rparr>"])
      (simp_all add: intent(3))
qed

lemma waits_reconcile:
  assumes "reconcile p i truth code actor ids now db = Inr (r, db')" "waits_ok db"
  shows "waits_ok db'"
  using assms(1)
proof (cases rule: reconcile_cases)
  case (1 e reason db3 sc)
  show ?thesis
    by (rule waits_settled [OF assms(2), where i = i and f = "reconciled_row truth code reason now" and now = now])
      (use deliver_frames [OF 1(4)] in
        \<open>cases truth; simp add: 1(5) resolve_open_waits_def refund_launch_def\<close>)+
qed

lemma waits_abandon:
  assumes "abandon_reserved i why ids now db = Inr (b, db')" "waits_ok db"
  shows "waits_ok db'"
  using assms(1)
proof (cases rule: abandon_cases)
  case noop
  then show ?thesis using assms(2) by simp
next
  case (gone e db1 sc)
  show ?thesis
    by (rule waits_settled [OF assms(2), where i = i and f = "abandoned_row why now" and now = now])
      (use deliver_frames [OF gone(4)] in \<open>simp_all add: gone(5) resolve_open_waits_def refund_launch_def\<close>)
qed

lemma waits_reserve:
  assumes "reserve hash p r launch u now clk db = Inr (eb, db')" "waits_ok db"
  shows "waits_ok db'"
  using assms(1)
proof (cases rule: reserve_cases)
  case replay
  then show ?thesis using assms(2) by simp
next
  case (admitted l en db1)
  have rows: "d_waits db' = d_waits db" "set (d_experiments db) \<subseteq> set (d_experiments db')"
    using ins_exec_put(4) [OF admitted(6)] by (auto simp: admitted(7) charge_launch_def)
  show ?thesis
    by (rule waits_moved [OF assms(2) wait_moves_same [OF rows(1)]]) (use rows(2) in \<open>auto simp: wait_ok_def\<close>)
qed

lemma waits_register:
  assumes "register_wait p t m i ko expected dl u now clk db = Inr (w, db')" "waits_ok db"
  shows "waits_ok db'"
  using assms(1)
proof (cases rule: register_wait_cases)
  case existing
  then show ?thesis using assms(2) by simp
next
  case (registered e attempt sc)
  have rows: "d_waits db' = d_waits db @ [w]" "d_experiments db' = d_experiments db" by (simp_all add: registered(6))
  have ok: "wait_ok db' x = wait_ok db x" for x by (simp add: wait_ok_def rows)
  have w: "wt_experiment w = i" "wt_owner w = m" by (simp_all add: registered(4) new_wait_def)
  have "wait_ok db w" using row_in_experiments [OF registered(1)]
    by (auto simp: wait_ok_def registered(4) new_wait_def)
  then show ?thesis using assms(2) ok registered(3) w
    by (auto simp: waits_ok_def rows same_open_wait_def)
qed

lemma waits_expire:
  "expire_waits idf now is db = Inr (gone, db') \<Longrightarrow> wait_moves db db'"
proof (induction "is" arbitrary: gone db)
  case Nil
  then show ?case by (simp add: wait_moves_same)
next
  case (Cons i "is")
  let ?db1 = "upd_waits (\<lambda>w. wt_id w = i \<and> wt_state w = WtOpen) (\<lambda>w. w\<lparr>wt_state := WtExpired, wt_resolved_at := Some now\<rparr>) db"
  obtain w db2 sc gone' where *: "deliver_about (wt_experiment w) EkWaitExpired (Some w) (idf i) now ?db1 = Inr db2"
      "expire_waits idf now is (append_research_event sc db2) = Inr (gone', db')"
    using Cons.prems by (auto simp: err_simps Let_def)
  have "wait_moves db db2"
    using deliver_frames(4) [OF *(1)] by (auto simp: wait_move_def intro!: list_all2_update)
  then show ?case using Cons.IH [OF *(2)] wait_moves_trans by simp
qed

lemma waits_step:
  assumes "exp_step hash op db db'" "waits_ok db" "schema_ok db" "experiments_ok db"
  shows "waits_ok db'"
proof (cases "op \<in> {Observe, Cancel, Abandon, Reconcile, Reserve, RegisterWait}")
  case True
  show ?thesis using assms(1) True assms(2,3)
    by (induction rule: exp_step.induct)
      (simp_all add: waits_observe waits_request_cancel waits_reconcile waits_abandon waits_reserve waits_register)
next
  case False
  then have moves: "exp_moves op db db'" using moves_step [OF assms(1,3,4)] by auto
  have "wait_moves db db'" using assms(1) False
  proof (induction rule: exp_step.induct)
    case (do_expire_waits idf now clk db gone db')
    then show ?case unfolding expire_due_waits_def using waits_expire by blast
  next
    case (do_remind wsecs most uf now clk db out db')
    then show ?case using remind_frames by (intro wait_moves_same) (auto simp: remind_unanalyzed_Inr)
  next
    case (do_mark_launching i db e db')
    then show ?case unfolding mark_launching_def by (elim transition_cases) (simp add: wait_moves_same)
  next
    case (do_mark_running i pid now db e db')
    then show ?case by (elim mark_running_cases) (simp add: wait_moves_same)
  next
    case (do_set_reason i reason db un db')
    then show ?case by (auto dest: set_reason_Inr simp: wait_moves_same)
  next
    case (do_mark_analyzed i db e db')
    then show ?case by (elim mark_analyzed_cases) (simp_all add: wait_moves_same)
  next
    case (do_record_decision p d u now db db0 db')
    then show ?case by (elim record_decision_cases) (auto dest!: ins_exec_put intro!: wait_moves_same)
  next
    case (do_reassign_waits t m now db n db')
    then show ?case by (auto dest!: reassign_Inr simp: wait_move_def intro!: list_all2_update)
  next
    case (do_set_envelope p r rd expected limits actor now db en db')
    then show ?case by (elim set_envelope_cases) (simp_all add: wait_moves_same)
  next
    case (do_set_envelope_state p r rd st now db en db')
    then show ?case by (elim set_envelope_state_cases) (simp_all add: wait_moves_same)
  qed simp_all
  then show ?thesis using waits_quiet [OF assms(2) _ moves] False by simp
qed

subsection \<open>Decisions\<close>

definition decisions_ok :: "db \<Rightarrow> bool" where
  "decisions_ok db \<longleftrightarrow> (\<forall>d\<in>set (d_decisions db).
     \<exists>e\<in>set (d_experiments db). ex_id e = ed_experiment d \<and> \<not> is_active (ex_state e))"

lemma decisions_step:
  assumes "exp_step hash op db db'" "decisions_ok db" "schema_ok db" "experiments_ok db"
  shows "decisions_ok db'"
proof -
  have kept: "\<exists>e\<in>set (d_experiments db'). ex_id e = i \<and> \<not> is_active (ex_state e)"
    if old: "\<exists>e\<in>set (d_experiments db). ex_id e = i \<and> \<not> is_active (ex_state e)" for i
    using moves_step [OF assms(1,3,4)]
  proof
    assume moves: "exp_moves op db db'"
    obtain e where e: "e \<in> set (d_experiments db)" "ex_id e = i" "\<not> is_active (ex_state e)" using old by blast
    obtain e' where e': "e' \<in> set (d_experiments db')" "exp_move op e e'" using all2_left [OF moves e(1)] by blast
    have "ex_id e' = i" "exp_edge op (ex_state e) (ex_state e')"
      using e'(2) e(2) by (simp_all add: exp_move_def same_launch_def)
    moreover from this(2) have "ex_state e' = ex_state e" by (rule exp_edge_final [OF e(3)])
    ultimately show ?thesis using e'(1) e(3) by auto
  next
    assume "op = Reserve \<and> (\<exists>p r l h en u now.
      d_experiments db' = d_experiments db @ [new_experiment p r l h en u now] \<and> \<not> has_key ex_id u (d_experiments db))"
    then show ?thesis using old by auto
  qed
  have "\<exists>e\<in>set (d_experiments db). ex_id e = ed_experiment d \<and> \<not> is_active (ex_state e)"
    if d: "d \<in> set (d_decisions db')" for d
  proof (cases "op = Decide")
    case False
    then have "d_decisions db' = d_decisions db" using envelope_frames [OF assms(1)] by simp
    then show ?thesis using assms(2) d by (simp add: decisions_ok_def)
  next
    case True
    from assms(1) True d assms(2) show ?thesis
    proof (induction rule: exp_step.induct)
      case (do_record_decision p dn u now db rb db')
      from do_record_decision(1) show ?case
      proof (cases rule: record_decision_cases)
        case (existing x)
        then show ?thesis using do_record_decision(3,4) by (simp add: decisions_ok_def)
      next
        case (recorded e x db1 sc)
        have "d_decisions db' = d_decisions db @ [x]"
          using ins_exec_put(6) [OF recorded(8)] by (simp add: recorded(9))
        then show ?thesis
          using do_record_decision(3,4) recorded(2,4) row_in_experiments [OF recorded(1)]
          by (auto simp: decisions_ok_def)
      qed
    qed simp_all
  qed
  then show ?thesis using kept by (simp add: decisions_ok_def)
qed

end
