(* ===== verification/ServerSystem.thy ===== *)
theory ServerSystem
  imports ExecutionInvariants
begin

text \<open>
  The team store and the experiment store on one database.  A step is an operation of either store
  or a write of the neighbouring stores to the research and work tables, which only add and change
  rows there.  The invariants of both stores hold together in every reachable database.
\<close>

definition exec_inv :: "db \<Rightarrow> bool" where
  "exec_inv db \<longleftrightarrow> experiments_ok db \<and> budget_ok db \<and> trail_ok db \<and> results_ok db \<and> waits_ok db \<and> decisions_ok db"

inductive research_writes :: "db \<Rightarrow> db \<Rightarrow> bool" where
  "rq_id ` set (d_questions db) \<subseteq> rq_id ` set qs \<Longrightarrow> rr_id ` set (d_research_rounds db) \<subseteq> rr_id ` set rs \<Longrightarrow>
   research_writes db (db\<lparr>d_questions := qs, d_research_rounds := rs, d_links := ls, d_publications := ps,
     d_outcomes := ocs, d_work_items := wis\<rparr>)"

datatype server_op = TeamOp team_op | ExpOp exp_op | ResearchOp

inductive server_step :: "options_parser \<Rightarrow> (canonical_request \<Rightarrow> string) \<Rightarrow> server_op \<Rightarrow> db \<Rightarrow> db \<Rightarrow> bool"
  for parse hash where
  step_team: "team_step parse op db db' \<Longrightarrow> server_step parse hash (TeamOp op) db db'"
| step_exp: "exp_step hash op db db' \<Longrightarrow> server_step parse hash (ExpOp op) db db'"
| step_research: "research_writes db db' \<Longrightarrow> server_step parse hash ResearchOp db db'"

inductive_cases server_stepE: "server_step parse hash op db db'"

definition server_moves :: "options_parser \<Rightarrow> (canonical_request \<Rightarrow> string) \<Rightarrow> db \<Rightarrow> db \<Rightarrow> bool" where
  "server_moves parse hash db db' \<longleftrightarrow> (\<exists>op. server_step parse hash op db db')"

subsection \<open>The team store leaves the execution tables alone\<close>

lemma exec_inv_cong:
  assumes "d_envelopes db' = d_envelopes db" "d_envelope_revisions db' = d_envelope_revisions db"
    "d_experiments db' = d_experiments db" "d_waits db' = d_waits db" "d_events db' = d_events db"
    "d_decisions db' = d_decisions db"
  shows "exec_inv db' = exec_inv db"
proof -
  have "launched_count x db' = launched_count x db" "running_count x db' = running_count x db" for x
    using assms by (simp_all add: launched_count_def running_count_def)
  then show ?thesis
    using assms
    by (simp add: exec_inv_def budget_ok_def envelope_ok_def trail_ok_def admitted_under_def envelope_recorded_def
        results_ok_def has_result_def told_def waits_ok_def wait_ok_def decisions_ok_def)
qed

lemma exec_inv_team: "team_step parse op db db' \<Longrightarrow> exec_inv db \<Longrightarrow> exec_inv db'"
  using exec_frames frames exec_inv_cong by metis

lemma exec_inv_exp:
  assumes "exp_step hash op db db'" "exec_inv db" "schema_ok db"
  shows "exec_inv db'"
  using assms experiments_ok_step [OF assms(1)] budget_step [OF assms(1)] trail_step [OF assms(1)]
    results_step [OF assms(1)] waits_step [OF assms(1)] decisions_step [OF assms(1)]
  by (simp add: exec_inv_def)

text \<open>Tasks are never deleted and never change teams.\<close>

lemma task_stays_simps:
  "(\<And>r. tk_id (f r) = tk_id r) \<Longrightarrow> (\<And>r. tk_team (f r) = tk_team r) \<Longrightarrow> task_in_team t k (upd_tasks P f db) = task_in_team t k db"
  "task_in_team t k db \<Longrightarrow> task_in_team t k (put_tasks r db)"
  "task_in_team t k (upd_teams P0 f0 db) = task_in_team t k db"
  "task_in_team t k (upd_members P1 f1 db) = task_in_team t k db"
  "task_in_team t k (upd_messages P2 f2 db) = task_in_team t k db"
  "task_in_team t k (upd_attempts P3 f3 db) = task_in_team t k db"
  "task_in_team t k (upd_permissions P4 f4 db) = task_in_team t k db"
  "task_in_team t k (upd_lops P5 f5 db) = task_in_team t k db"
  "task_in_team t k (put_messages ms db) = task_in_team t k db"
  "task_in_team t k (put_attempts at db) = task_in_team t k db"
  "task_in_team t k (put_activity at0 am ak akind asum ameta anow db) = task_in_team t k db"
  "task_in_team t k (del_messages Q db) = task_in_team t k db"
  "task_in_team t k (drop_members R db) = task_in_team t k db"
proof -
  show "(\<And>r. tk_id (f r) = tk_id r) \<Longrightarrow> (\<And>r. tk_team (f r) = tk_team r) \<Longrightarrow> task_in_team t k (upd_tasks P f db) = task_in_team t k db"
    unfolding task_in_team_def upd_tasks_sel bex_update_where by auto
qed (auto simp: task_in_team_def)

lemma task_stays:
  assumes "team_step parse op db db'" "task_in_team t k db"
  shows "task_in_team t k db'"
proof (cases "op \<in> tasks_ops")
  case False
  then show ?thesis using assms(2) task_in_team_cong [OF frame_tasks [OF assms(1) False]] by simp
next
  case True
  from assms(1) True assms(2) show ?thesis
  proof (induction rule: team_step.induct)
    case (do_create_task kreq u now db tv db')
    then show ?case using create_task_rows(1) by (auto simp: task_in_team_def)
  qed ((auto simp: op_sets task_stays_simps remove_teammate_def team_store_boot_def task_op_defs err_simps return_Inr
      Let_def ins_defs upd_latest_attempt_def changes_message_def unblock_dependents_def ack_results_def
      touch_team_def release_task_def assign_row_def review_row_def
      dest!: update_member_db split: if_split_asm option.splits) [1])+
qed

subsection \<open>Both invariants together\<close>

definition server_inv :: "options_parser \<Rightarrow> db \<Rightarrow> bool" where
  "server_inv parse db \<longleftrightarrow> team_inv parse db \<and> links_ok db \<and> exec_inv db"

lemma links_team:
  assumes "team_step parse op db db'" "links_ok db"
  shows "links_ok db'"
proof -
  have rows: "d_experiments db' = d_experiments db" "d_waits db' = d_waits db" using frames [OF assms(1)] by simp_all
  have "experiment_link db' e" if "experiment_link db e" for e
    using that task_stays [OF assms(1)] by (auto simp: experiment_link_def)
  moreover have "wait_link db' w" if "wait_link db w" for w
    using that task_stays [OF assms(1)] by (auto simp: wait_link_def rows)
  ultimately show ?thesis using assms(2) by (simp add: links_ok_def rows)
qed

lemma server_inv_research:
  assumes "research_writes db db'" "server_inv parse db"
  shows "server_inv parse db'"
proof -
  obtain qs rs ls ps ocs wis where db': "db' = db\<lparr>d_questions := qs, d_research_rounds := rs, d_links := ls,
     d_publications := ps, d_outcomes := ocs, d_work_items := wis\<rparr>"
    using assms(1) by (auto elim: research_writes.cases)
  have inv: "team_inv parse db" using assms(2) by (simp add: server_inv_def)
  have "schema_ok db'" using inv by (simp add: team_inv_def schema_defs db')
  then have "team_inv parse db'" by (rule team_inv_cong [OF inv]) (simp_all add: db')
  moreover have "exec_inv db' = exec_inv db" by (rule exec_inv_cong) (simp_all add: db')
  moreover have "links_ok db' = links_ok db" by (rule links_ok_cong) (simp_all add: db')
  ultimately show ?thesis using assms(2) by (simp add: server_inv_def)
qed

lemma server_inv_exp:
  assumes "exp_step hash op db db'" "server_inv parse db"
  shows "server_inv parse db'"
proof -
  have inv: "team_inv parse db" "exec_inv db" and post: "post_ok db"
    using assms(2) by (simp_all add: server_inv_def team_inv_def post_ok_def)
  have "writes db db'" "post_ok db'" using step_writes [OF assms(1) post] by blast+
  moreover have "exec_inv db'" using exec_inv_exp [OF assms(1) inv(2)] inv(1) by (simp add: team_inv_def)
  ultimately show ?thesis using team_inv_writes inv(1) by (auto simp: server_inv_def post_ok_def)
qed

lemma server_inv_step: "server_inv parse db \<Longrightarrow> server_moves parse hash db db' \<Longrightarrow> server_inv parse db'"
  unfolding server_moves_def
proof (elim exE server_stepE)
  fix op op' assume inv: "server_inv parse db" and step: "team_step parse op' db db'"
  have "team_inv parse db'" using team_inv_step inv step unfolding server_inv_def team_moves_def by blast
  then show "server_inv parse db'"
    using inv links_team [OF step] exec_inv_team [OF step] by (simp add: server_inv_def)
qed (blast intro: server_inv_exp server_inv_research)+

lemma server_inv_empty: "server_inv parse empty_db"
  by (simp add: server_inv_def team_inv_empty links_ok_def exec_inv_def budget_ok_def trail_ok_def results_ok_def
      waits_ok_def decisions_ok_def) (simp add: empty_db_def)

interpretation server: invariant_system is_empty_db "server_moves parse hash" "server_inv parse" for parse hash
  by unfold_locales (auto simp: is_empty_db_def server_inv_empty intro: server_inv_step)

lemma server_reachable: "reaches (server_moves parse hash) empty_db db \<Longrightarrow> server_inv parse db"
  by (rule server.inv_reachable) (simp_all add: is_empty_db_def)

text \<open>A run of the team store alone is a run of the server.\<close>

lemma team_runs_are_server_runs:
  "reaches (team_moves parse) db db' \<Longrightarrow> reaches (server_moves parse hash) db db'"
  by (induction rule: reaches.induct)
    (auto simp: team_moves_def server_moves_def intro: reaches.intros step_team)

end
