(* ===== verification/ExperimentProperties.thy ===== *)
theory ExperimentProperties
  imports ServerSystem TeamScenario "HOL-Library.Code_Target_Nat"
begin

text \<open>
  What the experiment store promises in every database the server can reach, with a concrete run
  for the witnesses: a research round of the team of \<open>TeamScenario\<close> gets an envelope, the teammate
  launches an experiment, waits on it, and the runner observes its end.
\<close>

subsection \<open>A run\<close>

definition db_of :: "'e + ('a \<times> db) \<Rightarrow> db" where
  "db_of r = (case r of Inl e \<Rightarrow> empty_db | Inr x \<Rightarrow> snd x)"

definition lab0 :: db where
  "lab0 = (after (run5 Standard))\<lparr>
     d_questions := [\<lparr>rq_id = ''q'', rq_project = ''p''\<rparr>],
     d_research_rounds := [\<lparr>rr_id = ''r'', rr_research = ''q'', rr_team = Some ''t''\<rparr>],
     d_links := [], d_publications := [], d_outcomes := [], d_work_items := []\<rparr>"

definition lab_limits :: envelope_limits where
  "lab_limits = \<lparr>li_max_launches = 2, li_max_concurrent = 1, li_deadline_at = Some 1000, li_max_runtime_secs = 600,
     li_max_no_progress = 3, li_allowed_commands = [[''python'']]\<rparr>"

definition lab_launch :: "string \<Rightarrow> new_launch" where
  "lab_launch key = \<lparr>nl_round = ''r'', nl_key = key, nl_team = Some ''t'', nl_task = Some ''k'', nl_owner = Some ''m'',
     nl_label = ''fit'', nl_argv = [''python'', ''fit.py''], nl_cwd = [], nl_artifacts = [], nl_sources = [],
     nl_max_runtime_secs = None\<rparr>"

definition lab_outcome :: outcome where
  "lab_outcome = \<lparr>oc_state = None, oc_exit_code = Some 0, oc_signal = None, oc_reason = None, oc_artifact_revisions = []\<rparr>"

definition plain_hash :: "canonical_request \<Rightarrow> string" where
  "plain_hash c = concat (fst c)"

definition "lab1 = set_envelope ''p'' ''q'' ''r'' None lab_limits None 10 lab0"
definition "lab2 = reserve plain_hash ''p'' ''q'' (lab_launch ''one'') ''e'' 11 11 (db_of lab1)"
definition "lab3 = mark_launching ''e'' (db_of lab2)"
definition "lab4 = mark_running ''e'' \<lparr>pi_pid = 7, pi_start_ticks = 1, pi_boot_id = ''b''\<rparr> 12 (db_of lab3)"
definition "lab5 = register_wait ''p'' ''t'' ''m'' ''e'' None ''plot it'' (Some 20) ''w'' 13 13 (db_of lab4)"
definition "lab6 = observe ''e'' lab_outcome (''v'', ''m1'', ''m2'') 14 (db_of lab5)"

lemma lab_succeeds:
  "succeeds lab1" "succeeds lab2" "succeeds lab3" "succeeds lab4" "succeeds lab5" "succeeds lab6"
  by code_simp+

lemma succeeds_db_of: "succeeds m \<Longrightarrow> \<exists>r. m = Inr (r, db_of m)"
  by (cases m) (auto simp: succeeds_def db_of_def)

lemma exp_moves_on:
  assumes "succeeds m" "\<And>r db'. m = Inr (r, db') \<Longrightarrow> exp_step hash op db db'"
    "reaches (server_moves parse hash) empty_db db"
  shows "reaches (server_moves parse hash) empty_db (db_of m)"
proof -
  obtain r where "m = Inr (r, db_of m)" using succeeds_db_of [OF assms(1)] by blast
  then have "server_moves parse hash db (db_of m)" using assms(2) step_exp by (fastforce simp: server_moves_def)
  then show ?thesis using assms(3) by (rule reaches_step [rotated])
qed

lemma lab0_reachable: "reaches (server_moves parse hash) empty_db lab0"
proof -
  have empty: "d_questions (after (run5 Standard)) = []" "d_research_rounds (after (run5 Standard)) = []"
    by code_simp+
  have "research_writes (after (run5 Standard)) lab0"
    unfolding lab0_def by (rule research_writes.intros) (simp_all add: empty)
  then have "server_moves parse hash (after (run5 Standard)) lab0"
    unfolding server_moves_def by (blast intro: step_research)
  then show ?thesis using team_runs_are_server_runs [OF run5_reachable] by (rule reaches_step [rotated])
qed

lemma lab6_fresh: "fresh_event (''v'', ''m1'', ''m2'') (db_of lab5)"
  by code_simp

lemma lab_reachable:
  shows lab1_reachable: "reaches (server_moves parse plain_hash) empty_db (db_of lab1)"
    and lab2_reachable: "reaches (server_moves parse plain_hash) empty_db (db_of lab2)"
    and lab5_reachable: "reaches (server_moves parse plain_hash) empty_db (db_of lab5)"
    and lab6_reachable: "reaches (server_moves parse plain_hash) empty_db (db_of lab6)"
proof -
  note s = lab_succeeds
  show 1: "reaches (server_moves parse plain_hash) empty_db (db_of lab1)"
    by (rule exp_moves_on [OF s(1) _ lab0_reachable]) (auto simp: lab1_def intro: do_set_envelope)
  show 2: "reaches (server_moves parse plain_hash) empty_db (db_of lab2)"
    by (rule exp_moves_on [OF s(2) _ 1]) (auto simp: lab2_def intro: do_reserve)
  have 3: "reaches (server_moves parse plain_hash) empty_db (db_of lab3)"
    by (rule exp_moves_on [OF s(3) _ 2]) (auto simp: lab3_def intro: do_mark_launching)
  have 4: "reaches (server_moves parse plain_hash) empty_db (db_of lab4)"
    by (rule exp_moves_on [OF s(4) _ 3]) (auto simp: lab4_def intro: do_mark_running)
  show 5: "reaches (server_moves parse plain_hash) empty_db (db_of lab5)"
    by (rule exp_moves_on [OF s(5) _ 4]) (auto simp: lab5_def intro: do_register_wait)
  show "reaches (server_moves parse plain_hash) empty_db (db_of lab6)"
    by (rule exp_moves_on [OF s(6) _ 5]) (auto simp: lab6_def intro: do_observe lab6_fresh)
qed

subsection \<open>The accounting of launches\<close>

text \<open>
  C3: in every reachable database the counter of an envelope is the number of launches of its round
  that were not given back, never more than 50; at most four of them are unfinished, and only a
  launch that failed to start is given back.
\<close>

theorem launches_accounted:
  assumes "reaches (server_moves parse hash) empty_db db"
  shows "(\<forall>en\<in>set (d_envelopes db).
       en_launches_reserved en = count_where (\<lambda>e. ex_round e = en_round en \<and> \<not> ex_refunded e) (d_experiments db)
       \<and> en_launches_reserved en \<le> 50
       \<and> count_where (\<lambda>e. ex_round e = en_round en \<and> is_active (ex_state e)) (d_experiments db) \<le> 4)
    \<and> (\<forall>e\<in>set (d_experiments db). ex_refunded e \<longrightarrow> ex_state e = ExFailedToStart)"
proof -
  have "exec_inv db" using server_reachable [OF assms] by (simp add: server_inv_def)
  then show ?thesis
    by (simp add: exec_inv_def budget_ok_def envelope_ok_def experiment_ok_def launched_count_def
        running_count_active MAX_LAUNCHES_def MAX_CONCURRENT_def)
qed

theorem launches_accounted_witness:
  "\<exists>en\<in>set (d_envelopes (db_of lab2)). en_launches_reserved en = 1 \<and>
     count_where (\<lambda>e. ex_round e = en_round en \<and> is_active (ex_state e)) (d_experiments (db_of lab2)) \<le> 4"
proof -
  have "list_ex (\<lambda>en. en_launches_reserved en = 1) (d_envelopes (db_of lab2))" by code_simp
  then show ?thesis
    using launches_accounted [OF lab2_reachable [of any_option]] unfolding list_ex_iff by blast
qed

subsection \<open>The recorded policy\<close>

text \<open>
  C31: every experiment of a reachable database cites a recorded revision of the envelope of its
  round, whose limits are within the absolute bounds, authorise the command that runs and allow its
  runtime; and the revisions of an envelope are recorded without a gap up to the current one.
\<close>

theorem launches_cite_policy:
  assumes "reaches (server_moves parse hash) empty_db db"
  shows "(\<forall>e\<in>set (d_experiments db). \<exists>v\<in>set (d_envelope_revisions db).
       er_round v = ex_round e \<and> er_revision v = ex_policy_revision e \<and> authorizes (er_limits v) (ex_argv e)
       \<and> 1 \<le> ex_max_runtime_secs e \<and> ex_max_runtime_secs e \<le> li_max_runtime_secs (er_limits v))
    \<and> (\<forall>en\<in>set (d_envelopes db). limits_in_range (en_limits en)
       \<and> (\<forall>n. 1 \<le> n \<and> n \<le> en_revision en \<longrightarrow>
            (\<exists>v\<in>set (d_envelope_revisions db). er_round v = en_round en \<and> er_revision v = n)))"
proof -
  have "exec_inv db" using server_reachable [OF assms] by (simp add: server_inv_def)
  then have "trail_ok db" by (simp add: exec_inv_def)
  then show ?thesis unfolding trail_ok_def admitted_under_def envelope_recorded_def by blast
qed

theorem launches_cite_policy_witness:
  "\<exists>e\<in>set (d_experiments (db_of lab2)). \<exists>v\<in>set (d_envelope_revisions (db_of lab2)).
     er_revision v = ex_policy_revision e \<and> authorizes (er_limits v) (ex_argv e) \<and> ex_argv e = [''python'', ''fit.py'']"
proof -
  have "list_ex (\<lambda>e. ex_argv e = [''python'', ''fit.py'']) (d_experiments (db_of lab2))" by code_simp
  then show ?thesis
    using launches_cite_policy [OF lab2_reachable [of any_option]] unfolding list_ex_iff by blast
qed

subsection \<open>Waits\<close>

text \<open>
  C13: in every reachable database an open wait is on an experiment of its team that has not
  finished, a member has at most one open wait on an experiment, an open wait has a deadline, and
  it is open exactly as long as it carries no resolution time.
\<close>

theorem open_waits_end:
  assumes "reaches (server_moves parse hash) empty_db db"
  shows "(\<forall>w\<in>set (d_waits db). wt_state w = WtOpen \<longrightarrow> wt_deadline_at w \<noteq> None
       \<and> (\<exists>e\<in>set (d_experiments db). ex_id e = wt_experiment w \<and> ex_team e = Some (wt_team w) \<and> is_active (ex_state e)))
    \<and> (\<forall>w\<in>set (d_waits db). wt_state w = WtOpen \<longleftrightarrow> wt_resolved_at w = None)
    \<and> (\<forall>w\<in>set (d_waits db). \<forall>w'\<in>set (d_waits db). wt_state w = WtOpen \<and> wt_state w' = WtOpen
         \<and> wt_experiment w' = wt_experiment w \<and> wt_owner w' = wt_owner w \<longrightarrow> w' = w)"
proof -
  have inv: "exec_inv db" "links_ok db" "schema_ok db"
    using server_reachable [OF assms] by (simp_all add: server_inv_def team_inv_def)
  have waits: "waits_ok db" using inv(1) by (simp add: exec_inv_def)
  have "\<exists>e\<in>set (d_experiments db). ex_id e = wt_experiment w \<and> ex_team e = Some (wt_team w) \<and> is_active (ex_state e)"
    if w: "w \<in> set (d_waits db)" "wt_state w = WtOpen" for w
  proof -
    obtain e where e: "e \<in> set (d_experiments db)" "ex_id e = wt_experiment w" "is_active (ex_state e)"
      using waits w unfolding waits_ok_def wait_ok_def by blast
    obtain x where x: "x \<in> set (d_experiments db)" "ex_id x = wt_experiment w" "ex_team x = Some (wt_team w)"
      using inv(2) w(1) unfolding links_ok_def wait_link_def by blast
    have "unique_key ex_id (d_experiments db)" using inv(3) by (simp add: schema_defs)
    then have "x = e" using e(1,2) x(1,2) unique_key_eqD by metis
    then show ?thesis using e x by blast
  qed
  then show ?thesis using waits unfolding waits_ok_def wait_ok_def same_open_wait_def by blast
qed

theorem open_waits_end_witness:
  "\<exists>w\<in>set (d_waits (db_of lab5)). \<exists>e\<in>set (d_experiments (db_of lab5)).
     wt_state w = WtOpen \<and> ex_id e = wt_experiment w \<and> is_active (ex_state e)"
proof -
  have "list_ex (\<lambda>w. wt_state w = WtOpen) (d_waits (db_of lab5))" by code_simp
  then show ?thesis using open_waits_end [OF lab5_reachable [of any_option]] unfolding list_ex_iff by blast
qed

subsection \<open>The life of an experiment\<close>

lemma exp_edge_absorbing: "\<not> is_active s \<and> exp_edge op s s' \<Longrightarrow> s' = s"
  using exp_edge_final by blast

interpretation experiment_life: life_cycle "\<lambda>s s'. \<exists>op. exp_edge op s s'" "\<lambda>s. \<not> is_active s"
  by unfold_locales (auto dest: exp_edge_final)

definition server_edge :: "server_op \<Rightarrow> experiment_state \<Rightarrow> experiment_state \<Rightarrow> bool" where
  "server_edge op s s' \<longleftrightarrow> (case op of ExpOp x \<Rightarrow> exp_edge x s s' | _ \<Rightarrow> s' = s)"

lemma server_experiments:
  assumes "server_step parse hash op db db'" "server_inv parse db" "e \<in> set (d_experiments db)"
  shows "\<exists>e'\<in>set (d_experiments db'). same_launch e e' \<and> server_edge op (ex_state e) (ex_state e')
    \<and> (ex_analysis e = AnAnalyzed \<longrightarrow> ex_analysis e' = AnAnalyzed)"
  using assms(1)
proof cases
  case (step_team top)
  then have "d_experiments db' = d_experiments db" using frames by simp
  then show ?thesis using assms(3) step_team(1) same_launch_refl by (auto simp: server_edge_def intro!: bexI [of _ e])
next
  case step_research
  then have "d_experiments db' = d_experiments db" by (auto elim: research_writes.cases)
  then show ?thesis using assms(3) step_research(1) same_launch_refl
    by (auto simp: server_edge_def intro!: bexI [of _ e])
next
  case (step_exp x)
  have ok: "schema_ok db" "experiments_ok db" using assms(2) by (simp_all add: server_inv_def team_inv_def exec_inv_def)
  from moves_step [OF step_exp(2) ok] show ?thesis
  proof
    assume "exp_moves x db db'"
    from all2_left [OF this assms(3)] show ?thesis by (auto simp: exp_move_def step_exp(1) server_edge_def)
  next
    assume "x = Reserve \<and> (\<exists>p r l h en u now.
      d_experiments db' = d_experiments db @ [new_experiment p r l h en u now] \<and> \<not> has_key ex_id u (d_experiments db))"
    then show ?thesis using assms(3) same_launch_refl by (auto simp: step_exp(1) server_edge_def intro!: bexI [of _ e])
  qed
qed



subsection \<open>Results\<close>

text \<open>
  C8: in every reachable database an experiment that has ended, or whose outcome is unknown, has
  exactly one committed event of its finish, and every event about an experiment of a team is linked to
  a mailbox message.
\<close>

theorem results_delivered:
  assumes "reaches (server_moves parse hash) empty_db db"
  shows "(\<forall>e\<in>set (d_experiments db). (\<not> is_active (ex_state e) \<or> ex_state e = ExUnknown) \<longrightarrow>
       (\<exists>!v. v \<in> set (d_events db) \<and> ee_experiment v = ex_id e \<and> ee_kind v = EkFinished \<and> ee_subject v = []))
    \<and> (\<forall>v\<in>set (d_events db). \<forall>e\<in>set (d_experiments db).
         ex_id e = ee_experiment v \<and> ex_team e \<noteq> None \<longrightarrow> ee_message v \<noteq> None)"
proof -
  have inv: "exec_inv db" "schema_ok db" using server_reachable [OF assms] by (simp_all add: server_inv_def team_inv_def)
  have key: "unique_key (\<lambda>x. (ee_experiment x, ee_kind x, ee_subject x)) (d_events db)"
    using inv(2) by (simp add: schema_defs)
  have res: "results_ok db" using inv(1) by (simp add: exec_inv_def)
  have "\<exists>!v. v \<in> set (d_events db) \<and> ee_experiment v = i \<and> ee_kind v = EkFinished \<and> ee_subject v = []"
    if "has_result i db" for i
    using that unique_key_eqD [OF key] unfolding has_result_def by (metis (mono_tags, lifting))
  then show ?thesis using res unfolding results_ok_def owed_def told_def by blast
qed

theorem results_delivered_witness:
  "\<exists>e\<in>set (d_experiments (db_of lab6)). \<exists>v\<in>set (d_events (db_of lab6)).
     ex_state e = ExExited \<and> ee_experiment v = ex_id e \<and> ee_kind v = EkFinished"
proof -
  have "list_ex (\<lambda>e. ex_state e = ExExited) (d_experiments (db_of lab6))" by code_simp
  then obtain e where e: "e \<in> set (d_experiments (db_of lab6))" "ex_state e = ExExited" by (auto simp: list_ex_iff)
  then have "\<not> is_active (ex_state e)" by simp
  then show ?thesis using results_delivered [OF lab6_reachable [of any_option]] e by blast
qed

end
