(* ===== verification/ExperimentDelivery.thy ===== *)
theory ExperimentDelivery
  imports ExperimentProperties
begin

text \<open>
  Delivery never fails: in a database of the server, with identifiers that are not in use, every
  message about an experiment can be posted, so an observation is always recorded and a wait past
  its deadline always expires.
\<close>

subsection \<open>Unused identifiers\<close>

definition fresh_ids :: "delivery_ids \<Rightarrow> db \<Rightarrow> bool" where
  "fresh_ids ids db \<longleftrightarrow> (case ids of (ev, message, copy) \<Rightarrow>
     fresh_event ids db \<and> \<not> has_key ms_id message (d_messages db) \<and> \<not> has_key ms_id copy (d_messages db)
     \<and> copy \<noteq> message)"

lemma in_team_rows: "post_ok db \<Longrightarrow> in_team t m db \<Longrightarrow> has_key tm_id t (d_teams db) \<and> member_in m db"
  by (auto simp: post_ok_def schema_defs in_team_def has_key_iff)

subsection \<open>Posting\<close>

lemma post_succeeds:
  assumes ok: "post_ok db" and a: "in_team t a db" and b: "in_team t b db"
    and task: "\<And>k. task = Some k \<Longrightarrow> task_in_team t k db" and new: "\<not> has_key ms_id u (d_messages db)"
  shows "insert_message t a b task body u now db = Inr (put_messages (new_message_row u t a b MkSystem task body now) db)"
proof -
  have "has_key_opt tk_id task (d_tasks db)"
    using task by (cases task) (auto simp: has_key_opt_def has_key_iff task_in_team_def)
  then show ?thesis
    using in_team_rows [OF ok a] in_team_rows [OF ok b] new
    by (simp add: insert_message_def ins_defs new_message_row_def)
qed

lemma leader_found:
  assumes ok: "post_ok db" and t: "has_key tm_id t (d_teams db)"
  shows "\<exists>l. leader_of t db = Inr l \<and> in_team t l db"
proof -
  obtain r where r: "row_of tm_id t (d_teams db) = Some r" using row_of_exists [OF t] by blast
  then have "leader_of t db = Inr (tm_leader r)" by (simp add: leader_of_def err_simps)
  then show ?thesis using leader_of_in_team ok by (auto simp: post_ok_def)
qed

lemma experiment_team:
  "post_ok db \<Longrightarrow> e \<in> set (d_experiments db) \<Longrightarrow> ex_team e = Some t \<Longrightarrow> has_key tm_id t (d_teams db)"
  by (auto simp: post_ok_def schema_defs has_key_opt_def split: option.splits)

lemma enqueue_succeeds:
  assumes ok: "post_ok db" and e: "e \<in> set (d_experiments db)" "ex_team e = Some t"
    and new: "\<not> has_key ms_id u (d_messages db)"
  shows "\<exists>x. enqueue_message e body hint u now db = Inr (put_messages x db) \<and> ms_id x = u"
    and "\<exists>x. enqueue_to_leader e body u now db = Inr (put_messages x db) \<and> ms_id x = u"
proof -
  obtain l where l: "leader_of t db = Inr l" "in_team t l db"
    using leader_found [OF ok experiment_team [OF ok e]] by blast
  let ?task = "or_else (ex_task e) (Option.bind (latest_wait (ex_id e) db) wt_task)"
  let ?c = "or_else hint (or_else (map_option wt_owner (latest_wait (ex_id e) db)) (ex_owner e))"
  have "insert_message t l (recipient_for t l ?c db) ?task body u now db
      = Inr (put_messages (new_message_row u t l (recipient_for t l ?c db) MkSystem ?task body now) db)"
    by (rule post_succeeds [OF ok l(2) recipient_in_team [OF l(2)] message_task_in_team [OF ok e] new])
  then have "enqueue_message e body hint u now db
      = Inr (put_messages (new_message_row u t l (recipient_for t l ?c db) MkSystem ?task body now) db)"
    using e(2) l(1) by (simp add: enqueue_message_def err_simps Let_def)
  then show "\<exists>x. enqueue_message e body hint u now db = Inr (put_messages x db) \<and> ms_id x = u"
    by (intro exI conjI) (assumption, simp add: new_message_row_def)
  have "task_in_team t k db" if "ex_task e = Some k" for k
    using that e ok by (auto simp: post_ok_def links_ok_def experiment_link_def)
  then have "insert_message t l l (ex_task e) body u now db
      = Inr (put_messages (new_message_row u t l l MkSystem (ex_task e) body now) db)"
    using post_succeeds [OF ok l(2,2) _ new] by blast
  then have "enqueue_to_leader e body u now db
      = Inr (put_messages (new_message_row u t l l MkSystem (ex_task e) body now) db)"
    using e(2) l(1) by (simp add: enqueue_to_leader_def err_simps)
  then show "\<exists>x. enqueue_to_leader e body u now db = Inr (put_messages x db) \<and> ms_id x = u"
    by (intro exI conjI) (assumption, simp add: new_message_row_def)
qed

lemma tell_leader_succeeds:
  assumes ok: "post_ok db" and e: "e \<in> set (d_experiments db)" "ex_team e = Some t"
    and message: "has_key ms_id message (d_messages db)" and new: "\<not> has_key ms_id copy (d_messages db)"
  shows "\<exists>db'. tell_leader e t body kind (ev, message, copy) now db = Inr db'"
proof -
  obtain l where l: "leader_of t db = Inr l" using leader_found [OF ok experiment_team [OF ok e]] by blast
  obtain x where "row_of ms_id message (d_messages db) = Some x" using row_of_exists [OF message] by blast
  then have to_m: "recipient_of message db = Inr (ms_to x)" by (simp add: recipient_of_def err_simps)
  show ?thesis
    using enqueue_succeeds(2) [OF ok e new, of "body @ '' (Its owner has also been told.)''" now] l to_m
    by (auto simp: tell_leader_def err_simps)
qed

text \<open>
  Every delivery about a known experiment succeeds, whether its event is new or was recorded before.
\<close>

lemma deliver_succeeds:
  assumes ok: "post_ok db" and e: "row_of ex_id i (d_experiments db) = Some e" and ids: "fresh_ids ids db"
  shows "\<exists>db'. deliver_about i kind w ids now db = Inr db'"
proof -
  obtain ev message copy where id: "ids = (ev, message, copy)" by (cases ids)
  let ?r = "\<lparr>ee_id = ev, ee_experiment = i, ee_kind = kind,
      ee_subject = (case w of None \<Rightarrow> [] | Some w \<Rightarrow> wt_id w), ee_message = None\<rparr>"
  have mem: "e \<in> set (d_experiments db)" "ex_id e = i" using row_of_SomeD [OF e] by simp_all
  then have key: "has_key ex_id i (d_experiments db)" by (auto simp: has_key_iff)
  show ?thesis
  proof (cases "event_known ?r db \<or> ex_team e = None")
    case True
    have "\<exists>db1. ins_events ?r db = Some db1" if "\<not> event_known ?r db"
      using that key by (simp add: event_known_def ins_defs)
    then show ?thesis using True e by (cases "event_known ?r db") (auto simp: deliver_about_def id load_experiment_def)
  next
    case False
    then obtain t where t: "ex_team e = Some t" by auto
    let ?db1 = "put_events ?r db"
    have ins: "ins_events ?r db = Some ?db1"
      using False key by (simp add: event_known_def ins_defs)
    have ok1: "post_ok ?db1" by (rule post_ok_ins(1) [OF ok ins])
    have new: "\<not> has_key ms_id message (d_messages ?db1)" "\<not> has_key ms_id copy (d_messages db)" "copy \<noteq> message"
      using ids by (simp_all add: fresh_ids_def id)
    obtain x where x: "enqueue_message e (describe e kind) (map_option wt_owner w) message now ?db1
        = Inr (put_messages x ?db1)" "ms_id x = message"
      using enqueue_succeeds(1) [OF ok1 _ t new(1), of "describe e kind" "map_option wt_owner w" now] mem by auto
    let ?db3 = "link_message ev message (put_messages x ?db1)"
    have ok3: "post_ok ?db3"
      using enqueue_message_writes [OF x(1) w_none ok1] mem post_ok_upd(1) by simp
    have "\<exists>db'. tell_leader e t (describe e kind) kind (ev, message, copy) now ?db3 = Inr db'"
      by (rule tell_leader_succeeds [OF ok3 _ t]) (use mem x(2) new in \<open>simp_all add: has_key_def\<close>)
    then show ?thesis using False e t ins x(1) by (auto simp: deliver_about_def id load_experiment_def Let_def)
  qed
qed


text \<open>A delivery other than that of a result posts at most one message and records one event.\<close>

lemma deliver_keys:
  assumes "deliver_about i kind w ids now db = Inr db'" "kind \<noteq> EkFinished"
  shows "has_key ms_id u (d_messages db') \<Longrightarrow> u \<noteq> fst (snd ids) \<Longrightarrow> has_key ms_id u (d_messages db)"
    and "has_key ee_id v (d_events db') \<Longrightarrow> v \<noteq> fst ids \<Longrightarrow> has_key ee_id v (d_events db)"
proof -
  obtain ev message copy where id: "ids = (ev, message, copy)" by (cases ids)
  consider "db' = db"
    | r where "db' = put_events r db" "ee_id r = ev"
    | r x where "db' = link_message ev message (put_messages x (put_events r db))" "ee_id r = ev" "ms_id x = message"
  proof -
    let ?r = "\<lparr>ee_id = ev, ee_experiment = i, ee_kind = kind,
        ee_subject = (case w of None \<Rightarrow> [] | Some w \<Rightarrow> wt_id w), ee_message = None\<rparr>"
    obtain e where e: "load_experiment i db = Inr e" using assms(1) by (auto simp: deliver_about_def id err_simps)
    show thesis
    proof (cases "event_known ?r db")
      case True
      then show thesis using assms(1) e that(1) by (simp add: deliver_about_def id)
    next
      case False
      then obtain db1 where db1: "ins_events ?r db = Some db1"
        using assms(1) e by (auto simp: deliver_about_def id err_simps Let_def)
      note put = ins_exec_put(1) [OF db1]
      show thesis
      proof (cases "ex_team e")
        case None
        then show thesis using assms(1) e False db1 put that(2) [of ?r] by (simp add: deliver_about_def id)
      next
        case (Some t)
        then obtain db2 where db2: "enqueue_message e (describe e kind) (map_option wt_owner w) message now db1 = Inr db2"
            "db' = link_message ev message db2"
          using assms e False db1 by (auto simp: deliver_about_def id tell_leader_def err_simps Let_def)
        obtain x where "db2 = put_messages x db1" "ms_id x = message" using enqueue_frames(2) [OF db2(1)] by blast
        then show thesis using db2(2) put that(3) [of x ?r] by simp
      qed
    qed
  qed
  then have "(has_key ms_id u (d_messages db') \<longrightarrow> u \<noteq> message \<longrightarrow> has_key ms_id u (d_messages db))
      \<and> (has_key ee_id v (d_events db') \<longrightarrow> v \<noteq> ev \<longrightarrow> has_key ee_id v (d_events db))"
    by cases (auto simp: has_key_update_where)
  then show "has_key ms_id u (d_messages db') \<Longrightarrow> u \<noteq> fst (snd ids) \<Longrightarrow> has_key ms_id u (d_messages db)"
    and "has_key ee_id v (d_events db') \<Longrightarrow> v \<noteq> fst ids \<Longrightarrow> has_key ee_id v (d_events db)"
    by (simp_all add: id)
qed

lemma experiment_key: "schema_ok db \<Longrightarrow> unique_key ex_id (d_experiments db)"
  by (simp add: schema_defs)

lemma wait_key: "schema_ok db \<Longrightarrow> unique_key wt_id (d_waits db)"
  by (simp add: schema_defs)

subsection \<open>Observation\<close>

lemma set_experiment_row:
  assumes "row_of ex_id i (d_experiments db) = Some e" "\<And>x. ex_id (f x) = ex_id x"
  shows "row_of ex_id i (d_experiments (set_experiment i f db)) = Some (f e)"
  using assms row_of_SomeD [OF assms(1)] by (simp add: row_of_update_where)

lemma observe_succeeds:
  assumes ok: "post_ok db" and e: "row_of ex_id i (d_experiments db) = Some e" "is_active (ex_state e)"
    and state: "\<not> is_active (observed_state oc e) \<or> observed_state oc e = ExUnknown" and ids: "fresh_ids ids db"
  shows "\<exists>db'. observe i oc ids now db = Inr (True, db')"
proof -
  let ?f = "observed_row (observed_state oc e) oc now"
  let ?db1 = "set_experiment i ?f db"
  have row: "row_of ex_id i (d_experiments ?db1) = Some (?f e)" by (rule set_experiment_row [OF e(1)]) simp
  have ok1: "post_ok ?db1" using post_ok_upd(3) [OF ok] by simp
  have ids1: "fresh_ids ids ?db1" using ids by (simp add: fresh_ids_def fresh_event_def split: prod.splits)
  obtain db2 where db2: "deliver i EkFinished ids now ?db1 = Inr db2" using deliver_succeeds [OF ok1 row ids1] by blast
  have "row_of ex_id i (d_experiments (resolve_open_waits i now db2)) = Some (?f e)"
    using deliver_frames(3) [OF db2] row by simp
  then have "done_flag i (resolve_open_waits i now db2)
      = Inr (True, Some (ex_project (?f e), ex_research (?f e)), resolve_open_waits i now db2)"
    by (simp add: done_flag_Inr)
  then show ?thesis
    using e state db2 by (simp add: observe_def load_experiment_def err_simps write_tx_def Let_def)
qed


text \<open>
  An observation of an unfinished experiment is never lost: it is stored, the waits on the experiment
  are resolved, and its event is committed with a message to the team.
\<close>

definition valid_observation :: "outcome \<Rightarrow> bool" where
  "valid_observation oc \<longleftrightarrow> (case oc_state oc of None \<Rightarrow> True | Some s \<Rightarrow> \<not> is_active s \<or> s = ExUnknown)"

lemma valid_observation_state:
  "valid_observation oc \<Longrightarrow> \<not> is_active (observed_state oc e) \<or> observed_state oc e = ExUnknown"
  by (auto simp: valid_observation_def observed_state_def split: option.splits)

subsection \<open>Expiry\<close>

definition fresh_batch :: "(string \<Rightarrow> delivery_ids) \<Rightarrow> string list \<Rightarrow> db \<Rightarrow> bool" where
  "fresh_batch idf is db \<longleftrightarrow> (\<forall>i\<in>set is. fresh_ids (idf i) db)
     \<and> distinct (map (\<lambda>i. fst (idf i)) is) \<and> distinct (map (\<lambda>i. fst (snd (idf i))) is)
     \<and> (\<forall>i\<in>set is. \<forall>j\<in>set is. snd (snd (idf i)) \<noteq> fst (snd (idf j)))"

definition expired_wait :: "nat \<Rightarrow> experiment_wait \<Rightarrow> experiment_wait" where
  "expired_wait now w = w\<lparr>wt_state := WtExpired, wt_resolved_at := Some now\<rparr>"

lemma expired_wait_sel [simp]:
  "wt_id (expired_wait now w) = wt_id w" "wt_experiment (expired_wait now w) = wt_experiment w"
  "wt_team (expired_wait now w) = wt_team w" "wt_task (expired_wait now w) = wt_task w"
  "wt_state (expired_wait now w) = WtExpired"
  by (simp_all add: expired_wait_def)

lemma expired_wait_fun: "expired_wait now = (\<lambda>w. w\<lparr>wt_state := WtExpired, wt_resolved_at := Some now\<rparr>)"
  by (rule ext) (simp add: expired_wait_def)

lemma fresh_ids_tl:
  assumes "fresh_ids ids db" "has_key ms_id (fst (snd ids)) (d_messages db') \<Longrightarrow> has_key ms_id (fst (snd ids)) (d_messages db)"
    "has_key ms_id (snd (snd ids)) (d_messages db') \<Longrightarrow> has_key ms_id (snd (snd ids)) (d_messages db)"
    "has_key ee_id (fst ids) (d_events db') \<Longrightarrow> has_key ee_id (fst ids) (d_events db)"
  shows "fresh_ids ids db'"
  using assms by (auto simp: fresh_ids_def fresh_event_def split: prod.splits)

lemma fresh_batch_deliver:
  assumes "fresh_batch idf (i # is) db" "deliver_about x EkWaitExpired w (idf i) now db = Inr db'"
  shows "fresh_batch idf is db'"
proof -
  note keys = deliver_keys [OF assms(2)]
  have "fresh_ids (idf j) db'" if j: "j \<in> set is" for j
  proof (rule fresh_ids_tl)
    show "fresh_ids (idf j) db" using assms(1) j by (simp add: fresh_batch_def)
    have n: "fst (snd (idf i)) \<notin> (\<lambda>i. fst (snd (idf i))) ` set is" "fst (idf i) \<notin> (\<lambda>i. fst (idf i)) ` set is"
        "snd (snd (idf j)) \<noteq> fst (snd (idf i))"
      using assms(1) j by (simp_all add: fresh_batch_def)
    then have ne: "fst (snd (idf j)) \<noteq> fst (snd (idf i))" "snd (snd (idf j)) \<noteq> fst (snd (idf i))" "fst (idf j) \<noteq> fst (idf i)"
      using j by (metis image_eqI)+
    show "has_key ms_id (fst (snd (idf j))) (d_messages db') \<Longrightarrow> has_key ms_id (fst (snd (idf j))) (d_messages db)"
      using keys(1) ne(1) by simp
    show "has_key ms_id (snd (snd (idf j))) (d_messages db') \<Longrightarrow> has_key ms_id (snd (snd (idf j))) (d_messages db)"
      using keys(1) ne(2) by simp
    show "has_key ee_id (fst (idf j)) (d_events db') \<Longrightarrow> has_key ee_id (fst (idf j)) (d_events db)"
      using keys(2) ne(3) by simp
  qed
  then show ?thesis using assms(1) by (simp add: fresh_batch_def)
qed

lemma fresh_batch_cong:
  "d_messages db' = d_messages db \<Longrightarrow> d_events db' = d_events db \<Longrightarrow> fresh_batch idf is db' = fresh_batch idf is db"
  by (simp add: fresh_batch_def fresh_ids_def fresh_event_def)

lemma expire_open_twice:
  "update_where (\<lambda>w. wt_id w \<in> S \<and> wt_state w = WtOpen) (expired_wait now)
     (update_where (\<lambda>w. wt_id w = i \<and> wt_state w = WtOpen) (expired_wait now) rows)
   = update_where (\<lambda>w. wt_id w \<in> insert i S \<and> wt_state w = WtOpen) (expired_wait now) rows"
  by (auto simp: update_where_def)

lemma expire_waits_succeeds:
  assumes "post_ok db" "distinct is" "\<And>i. i \<in> set is \<Longrightarrow> has_key wt_id i (d_waits db)" "fresh_batch idf is db"
  shows "\<exists>ws db'. expire_waits idf now is db = Inr (ws, db') \<and> map wt_id ws = is
     \<and> d_waits db' = update_where (\<lambda>w. wt_id w \<in> set is \<and> wt_state w = WtOpen) (expired_wait now) (d_waits db)"
  using assms
proof (induction "is" arbitrary: db)
  case Nil
  then show ?case by (simp add: update_where_def)
next
  case (Cons i "is")
  let ?P = "\<lambda>w. wt_id w = i \<and> wt_state w = WtOpen"
  let ?db1 = "upd_waits ?P (expired_wait now) db"
  have ok1: "post_ok ?db1" using post_ok_upd(4) [OF Cons.prems(1)] by simp
  have "has_key wt_id i (d_waits ?db1)" using Cons.prems(3) [of i] by (simp add: has_key_update_where)
  then obtain w where w: "row_of wt_id i (d_waits ?db1) = Some w" using row_of_exists [of wt_id i] by blast
  have "has_key ex_id (wt_experiment w) (d_experiments ?db1)"
    using ok1 row_of_SomeD [OF w] by (simp add: post_ok_def schema_defs)
  then obtain e where e: "row_of ex_id (wt_experiment w) (d_experiments ?db1) = Some e"
    using row_of_exists [of ex_id "wt_experiment w"] by blast
  have fresh1: "fresh_batch idf (i # is) ?db1"
    using Cons.prems(4) fresh_batch_cong [of ?db1 db] by simp
  then have "fresh_ids (idf i) ?db1" by (simp add: fresh_batch_def)
  then obtain db2 where db2: "deliver_about (wt_experiment w) EkWaitExpired (Some w) (idf i) now ?db1 = Inr db2"
    using deliver_succeeds [OF ok1 e] by blast
  note frames = deliver_frames [OF db2]
  let ?sc = "(ex_project e, ex_research e)"
  let ?db3 = "append_research_event ?sc db2"
  have sc: "scope_of (wt_experiment w) db2 = Inr ?sc" using e frames(3) by (simp add: scope_of_Inr)
  have ok2: "post_ok db2" using deliver_writes [OF db2 w_none ok1] by simp
  have ok3: "post_ok ?db3" by (rule post_ok_upd(5) [OF ok2])
  have keys3: "has_key wt_id j (d_waits ?db3)" if "j \<in> set is" for j
    using Cons.prems(3) [of j] that frames(4) by (simp add: has_key_update_where)
  have fresh3: "fresh_batch idf is ?db3"
    using fresh_batch_deliver [OF fresh1 db2] fresh_batch_cong [of ?db3 db2] by simp
  obtain ws db4 where rest: "expire_waits idf now is ?db3 = Inr (ws, db4)" "map wt_id ws = is"
      "d_waits db4 = update_where (\<lambda>w. wt_id w \<in> set is \<and> wt_state w = WtOpen) (expired_wait now) (d_waits ?db3)"
    using Cons.IH [OF ok3 _ keys3 fresh3] Cons.prems(2) by auto
  have "expire_waits idf now (i # is) db = Inr (w # ws, db4)"
    using w db2 sc rest(1) by (simp add: err_simps Let_def expired_wait_fun)
  moreover have "d_waits db4 = update_where (\<lambda>w. wt_id w \<in> set (i # is) \<and> wt_state w = WtOpen) (expired_wait now) (d_waits db)"
    using rest(3) frames(4) expire_open_twice [of "set is" now i "d_waits db"] by simp
  ultimately show ?case using rest(2) row_of_SomeD [OF w] by auto
qed


subsection \<open>The promises\<close>



text \<open>
  C33: every wait past its deadline expires.  In every reachable database, with identifiers not in
  use, the sweep succeeds; it expires exactly the open waits whose deadline has passed and returns
  them, changes no experiment, and a second sweep at the same time finds nothing and changes nothing.
\<close>

theorem due_waits_expire:
  assumes "reaches (server_moves parse hash) empty_db db"
    "fresh_batch idf (map wt_id (filter (due_wait clk) (d_waits db))) db"
  shows "\<exists>ws db'. expire_due_waits idf now clk db = Inr (ws, db')
    \<and> map wt_id ws = map wt_id (filter (due_wait clk) (d_waits db))
    \<and> d_waits db' = map (\<lambda>w. if due_wait clk w then expired_wait now w else w) (d_waits db)
    \<and> d_experiments db' = d_experiments db
    \<and> expire_due_waits idf' now' clk db' = Inr ([], db')"
proof -
  have ok: "post_ok db" "schema_ok db"
    using server_reachable [OF assms(1)] by (auto simp: server_inv_def team_inv_def post_ok_def)
  let ?is = "map wt_id (filter (due_wait clk) (d_waits db))"
  have distinct: "distinct ?is"
    using wait_key [OF ok(2)] by (simp add: unique_key_def distinct_map_filter)
  have known: "has_key wt_id i (d_waits db)" if "i \<in> set ?is" for i
    using that by (auto simp: has_key_iff)
  obtain ws db' where run: "expire_waits idf now ?is db = Inr (ws, db')" "map wt_id ws = ?is"
      "d_waits db' = update_where (\<lambda>w. wt_id w \<in> set ?is \<and> wt_state w = WtOpen) (expired_wait now) (d_waits db)"
    using expire_waits_succeeds [OF ok(1) distinct known assms(2)] by blast
  have due: "wt_id w \<in> set ?is \<and> wt_state w = WtOpen \<longleftrightarrow> due_wait clk w" if "w \<in> set (d_waits db)" for w
    using that unique_key_eqD [OF wait_key [OF ok(2)]] by (auto simp: due_wait_def)
  then have waits: "d_waits db' = map (\<lambda>w. if due_wait clk w then expired_wait now w else w) (d_waits db)"
    using run(3) by (simp add: update_where_def)
  then have "filter (due_wait clk) (d_waits db') = []"
    by (auto simp: filter_empty_conv due_wait_def)
  then have "expire_due_waits idf' now' clk db' = Inr ([], db')" by (simp add: expire_due_waits_def)
  then show ?thesis
    using run(1,2) waits moves_expire [OF run(1)] by (auto simp: expire_due_waits_def)
qed

theorem due_waits_expire_witness:
  "\<exists>ws db'. expire_due_waits (\<lambda>i. (''v'', ''m1'', ''m2'')) 30 30 (db_of lab5) = Inr (ws, db')
     \<and> map wt_id ws = [''w''] \<and> expire_due_waits (\<lambda>i. (''v'', ''m1'', ''m2'')) 31 30 db' = Inr ([], db')"
proof -
  have due: "map wt_id (filter (due_wait 30) (d_waits (db_of lab5))) = [''w'']" by code_simp
  have fresh: "fresh_batch (\<lambda>i. (''v'', ''m1'', ''m2'')) (map wt_id (filter (due_wait 30) (d_waits (db_of lab5)))) (db_of lab5)"
    unfolding due by code_simp
  show ?thesis
    using due_waits_expire [OF lab5_reachable [of any_option] fresh, where now = 30 and now' = 31
        and idf' = "\<lambda>i. (''v'', ''m1'', ''m2'')"]
    unfolding due by (elim exE conjE) (intro exI conjI)
qed

end
