(* ===== verification/ExperimentAdmission.thy ===== *)
theory ExperimentAdmission
  imports ExperimentProperties
begin

text \<open>
  Admission of launches: repeating a launch, the blockers a client is shown, and the end of an
  envelope.
\<close>

subsection \<open>Experiments stay\<close>

lemma same_launch_trans: "same_launch a b \<Longrightarrow> same_launch b c \<Longrightarrow> same_launch a c"
  by (simp add: same_launch_def)

lemma server_inv_moves: "reaches (server_moves parse hash) db db' \<Longrightarrow> server_inv parse db \<Longrightarrow> server_inv parse db'"
  by (rule server.inv_reaches)

lemma experiments_persist:
  assumes "reaches (server_moves parse hash) db db'" "server_inv parse db" "e \<in> set (d_experiments db)"
  shows "\<exists>e'\<in>set (d_experiments db'). same_launch e e'"
  using assms
proof (induction rule: reaches.induct)
  case (reaches_refl db)
  then show ?case using same_launch_refl by blast
next
  case (reaches_step db db1 db2)
  obtain e1 where e1: "e1 \<in> set (d_experiments db1)" "same_launch e e1" using reaches_step by blast
  obtain op where "server_step parse hash op db1 db2" using reaches_step(2) by (auto simp: server_moves_def)
  then have "\<exists>e2\<in>set (d_experiments db2). same_launch e1 e2"
    using server_experiments [OF _ server_inv_moves [OF reaches_step(1,4)] e1(1)] by blast
  then show ?case using same_launch_trans [OF e1(2)] by blast
qed

lemma server_schema: "server_inv parse db \<Longrightarrow> schema_ok db"
  by (simp add: server_inv_def team_inv_def)

subsection \<open>Repeating a launch\<close>

lemma find_by_key_row:
  assumes "schema_ok db" "e \<in> set (d_experiments db)" "ex_round e = rd" "ex_key e = k"
  shows "find_by_key rd k db = Some (e, ex_hash e)"
proof -
  have "unique_key (\<lambda>x. (ex_round x, ex_key x)) (d_experiments db)" using assms(1) by (simp add: schema_defs)
  from row_of_unique [OF this assms(2)] show ?thesis using assms(3,4) by (simp add: find_by_key_def)
qed

lemma new_experiment_sel:
  "ex_id (new_experiment p r l h en u now) = u" "ex_round (new_experiment p r l h en u now) = nl_round l"
  "ex_key (new_experiment p r l h en u now) = nl_key l" "ex_hash (new_experiment p r l h en u now) = h"
  "ex_state (new_experiment p r l h en u now) = ExReserved" "ex_team (new_experiment p r l h en u now) = nl_team l"
  "ex_research (new_experiment p r l h en u now) = r"
  by (simp_all add: new_experiment_def)

lemma row_of_single: "row_of key k [r] = (if key r = k then Some r else None)"
  by (simp add: row_of_def)

lemma reserve_new_row:
  assumes "ins_experiments (new_experiment p r l h en u now) db = Some db1"
  shows "load_experiment u (charge_launch rd now db1) = Inr (new_experiment p r l h en u now)"
proof -
  have "\<not> has_key ex_id u (d_experiments db)"
    using assms by (auto simp: ins_experiments_def new_experiment_sel split: if_split_asm)
  then show ?thesis
    using ins_exec_put(4) [OF assms]
    by (simp add: load_experiment_def charge_launch_def row_of_append row_of_None [THEN iffD2] row_of_single
        new_experiment_sel err_simps)
qed

lemma reserved_row:
  assumes "reserve hash p r launch u now clk db = Inr ((e, b), db')"
  shows "\<exists>l. normalized_launch launch = Inr l \<and> e \<in> set (d_experiments db') \<and> ex_round e = nl_round l
     \<and> ex_key e = nl_key l \<and> ex_hash e = request_hash hash l"
  using assms
proof (cases rule: reserve_cases)
  case (replay l x)
  then show ?thesis using row_of_SomeD by (fastforce simp: find_by_key_def)
next
  case (admitted l en db1)
  let ?new = "new_experiment p r l (request_hash hash l) en u now"
  have "e = ?new"
    using assms admitted reserve_new_row [OF admitted(6)]
    by (auto simp: reserve_def tx_Inr err_simps Let_def simp flip: load_experiment_Inr)
  moreover have "?new \<in> set (d_experiments db')"
    using ins_exec_put(4) [OF admitted(6)] by (simp add: admitted(7) charge_launch_def)
  ultimately show ?thesis using admitted(1) by (simp add: new_experiment_sel)
qed

text \<open>
  C34: a launch is idempotent.  When a launch was accepted, then in every later state of the server a
  launch under the same round and key returns the experiment it created and changes nothing if the
  canonical request is the same, and is refused as a reuse of the key if it differs.
\<close>

theorem launch_replay:
  assumes "reaches (server_moves parse hash) empty_db db" "reserve hash p r launch u now clk db = Inr ((e, b), db1)"
    "reaches (server_moves parse hash) db1 db2" "require_round p' r' (ex_round e) db2 = Inr ()"
    "normalized_launch again = Inr l" "nl_round l = ex_round e" "nl_key l = ex_key e"
  shows "if request_hash hash l = ex_hash e
    then \<exists>e'. same_launch e e' \<and> reserve hash p' r' again u' now' clk' db2 = Inr ((e', False), db2)
    else reserve hash p' r' again u' now' clk' db2 = Inl XKeyReuse"
proof -
  have "server_moves parse hash db db1" using step_exp [OF do_reserve [OF assms(2)]] by (auto simp: server_moves_def)
  then have inv1: "server_inv parse db1" using server_inv_step server_reachable [OF assms(1)] by blast
  have "e \<in> set (d_experiments db1)" using reserved_row [OF assms(2)] by blast
  from experiments_persist [OF assms(3) inv1 this] obtain e'
    where e': "e' \<in> set (d_experiments db2)" "same_launch e e'" by blast
  have "find_by_key (nl_round l) (nl_key l) db2 = Some (e', ex_hash e')"
    using find_by_key_row [OF server_schema [OF server_inv_moves [OF assms(3) inv1]] e'(1)] e'(2) assms(6,7)
    by (simp add: same_launch_def)
  moreover have "ex_hash e' = ex_hash e" using e'(2) by (simp add: same_launch_def)
  ultimately show ?thesis using assms(4-6) e'(2)
    by (auto simp: reserve_def err_simps write_tx_def Let_def)
qed

theorem launch_replay_witness:
  "\<exists>e. reserve plain_hash ''p'' ''q'' (lab_launch ''one'') ''z'' 50 50 (db_of lab2) = Inr ((e, False), db_of lab2)"
proof -
  obtain e b where run: "lab2 = Inr ((e, b), db_of lab2)" using succeeds_db_of [OF lab_succeeds(2)] by (metis prod.exhaust)
  have norm: "normalized_launch (lab_launch ''one'') = Inr (lab_launch ''one'')" by code_simp
  have e: "ex_round e = nl_round (lab_launch ''one'')" "ex_key e = nl_key (lab_launch ''one'')"
      "ex_hash e = request_hash plain_hash (lab_launch ''one'')"
    using reserved_row [OF run [unfolded lab2_def]] norm by auto
  have "require_round ''p'' ''q'' ''r'' (db_of lab2) = Inr ()" by code_simp
  then have "require_round ''p'' ''q'' (ex_round e) (db_of lab2) = Inr ()" by (simp add: e(1) lab_launch_def)
  from launch_replay [OF lab1_reachable [of any_option] run [unfolded lab2_def] reaches_refl [of _ "db_of lab2", unfolded lab2_def]
      this [unfolded lab2_def] norm e(1,2) [symmetric]] show ?thesis
    unfolding lab2_def [symmetric] if_P [OF e(3) [symmetric]] by blast
qed

subsection \<open>The blockers a client sees\<close>

text \<open>Team and task of a launch are in scope.\<close>

definition launch_in_scope :: "string \<Rightarrow> new_launch \<Rightarrow> db \<Rightarrow> bool" where
  "launch_in_scope p l db \<longleftrightarrow> (case nl_team l of
     Some t \<Rightarrow> check_team_scope p t l db = Inr ()
   | None \<Rightarrow> (case nl_task l of Some k \<Rightarrow> check_native_task p (nl_round l) k db = Inr () | None \<Rightarrow> True))"

lemma scope_team_exists:
  assumes "launch_in_scope p l db"
  shows "has_key_opt tm_id (nl_team l) (d_teams db)"
proof (cases "nl_team l")
  case (Some t)
  then obtain team where "row_of tm_id t (filter (\<lambda>x. tm_project_id x = p) (d_teams db)) = Some team"
    using assms by (auto simp: launch_in_scope_def check_team_scope_def err_simps split: option.splits)
  from row_of_SomeD [OF this] show ?thesis using Some by (auto simp: has_key_iff)
qed simp

lemma require_round_Inr:
  "require_round p r rd db = Inr () \<Longrightarrow> has_key rr_id rd (d_research_rounds db) \<and> has_key rq_id r (d_questions db)"
  by (auto simp: require_round_def err_simps has_key_iff list_ex_iff)

lemma find_by_key_None:
  "find_by_key rd k db = None \<longleftrightarrow> \<not> has_key (\<lambda>x. (ex_round x, ex_key x)) (rd, k) (d_experiments db)"
  by (simp add: find_by_key_def row_of_None)

lemma reserve_admits:
  assumes norm: "normalized_launch launch = Inr l" and round: "require_round p r (nl_round l) db = Inr ()"
    and key: "find_by_key (nl_round l) (nl_key l) db = None" and env: "load_envelope (nl_round l) db = Some en"
    and scope: "launch_in_scope p l db" and new: "\<not> has_key ex_id u (d_experiments db)"
  shows "reserve hash p r launch u now clk db = (case admit p l en clk db of Inl err \<Rightarrow> Inl err
    | Inr _ \<Rightarrow> Inr ((new_experiment p r l (request_hash hash l) en u now, True),
        append_research_event (p, r) (charge_launch (nl_round l) now
          (put_experiments (new_experiment p r l (request_hash hash l) en u now) db))))"
proof -
  let ?new = "new_experiment p r l (request_hash hash l) en u now"
  have ins: "ins_experiments ?new db = Some (put_experiments ?new db)"
    using new key require_round_Inr [OF round] scope_team_exists [OF scope]
    by (simp add: ins_experiments_def find_by_key_None new_experiment_sel)
  show ?thesis
    using norm round key env ins reserve_new_row [OF ins]
    by (simp add: reserve_def write_tx_def err_simps Let_def split: sum.splits)
qed

text \<open>
  C35: the blockers shown to a client are those of the admission.  For a launch in scope, with an
  authorised command and a new key, a reservation succeeds exactly when no blocker is listed, and it
  is denied with the first blocker of the list otherwise.
\<close>

theorem blockers_match_admission:
  assumes "normalized_launch launch = Inr l" "find_by_key (nl_round l) (nl_key l) db = None"
    "launch_blockers p r (nl_round l) clk db = Inr bs" "launch_in_scope p l db"
    "\<And>en. load_envelope (nl_round l) db = Some en \<Longrightarrow> authorizes (en_limits en) (nl_argv l)"
    "\<not> has_key ex_id u (d_experiments db)"
  shows "case bs of
      [] \<Rightarrow> \<exists>e db'. reserve hash p r launch u now clk db = Inr ((e, True), db') \<and> ex_id e = u \<and> ex_state e = ExReserved
    | b # _ \<Rightarrow> reserve hash p r launch u now clk db = Inl (XDenied b)"
proof -
  have round: "require_round p r (nl_round l) db = Inr ()"
    using assms(3) by (auto simp: launch_blockers_def err_simps)
  show ?thesis
  proof (cases "load_envelope (nl_round l) db")
    case None
    then have "bs = [NoEnvelope]" using assms(3) round by (simp add: launch_blockers_def err_simps)
    then show ?thesis using None assms(1,2) round
      by (simp add: reserve_def write_tx_def err_simps Let_def)
  next
    case (Some en)
    have scope: "(case nl_team l of Some t \<Rightarrow> check_team_scope p t l db
        | None \<Rightarrow> (case nl_task l of Some k \<Rightarrow> check_native_task p (nl_round l) k db | None \<Rightarrow> Inr ())) = Inr ()"
      using assms(4) by (auto simp: launch_in_scope_def split: option.splits)
    have "admit p l en clk db = (case bs of [] \<Rightarrow> Inr () | b # _ \<Rightarrow> Inl (XDenied b))"
      using assms(3) round Some assms(5) [OF Some]
      by (cases "en_state en"; cases "li_deadline_at (en_limits en)")
        (auto simp: admit_def scope launch_blockers_def err_simps Let_def not_less)
    then show ?thesis
      unfolding reserve_admits [OF assms(1) round assms(2) Some assms(4,6)]
      by (cases bs) (simp_all add: new_experiment_sel)
  qed
qed

theorem blockers_match_admission_witness:
  "(\<exists>e db'. reserve plain_hash ''p'' ''q'' (lab_launch ''two'') ''e2'' 20 20 (db_of lab1) = Inr ((e, True), db') \<and> ex_id e = ''e2'')
   \<and> reserve plain_hash ''p'' ''q'' (lab_launch ''two'') ''e2'' 2000 2000 (db_of lab1) = Inl (XDenied DeadlinePassed)
   \<and> reserve plain_hash ''p'' ''q'' (lab_launch ''two'') ''e2'' 2000 20 (db_of lab2) = Inl (XDenied ConcurrencyLimit)"
proof -
  have norm: "normalized_launch (lab_launch ''two'') = Inr (lab_launch ''two'')" by code_simp
  have round: "nl_round (lab_launch ''two'') = ''r''" "nl_key (lab_launch ''two'') = ''two''" by (simp_all add: lab_launch_def)
  have new: "find_by_key ''r'' ''two'' (db_of lab1) = None" "find_by_key ''r'' ''two'' (db_of lab2) = None"
    "\<not> has_key ex_id ''e2'' (d_experiments (db_of lab1))" "\<not> has_key ex_id ''e2'' (d_experiments (db_of lab2))"
    by (simp_all only: find_by_key_None) code_simp+
  have blockers: "launch_blockers ''p'' ''q'' ''r'' 2000 (db_of lab1) = Inr [DeadlinePassed]"
    "launch_blockers ''p'' ''q'' ''r'' 20 (db_of lab2) = Inr [ConcurrencyLimit]"
    "launch_blockers ''p'' ''q'' ''r'' 20 (db_of lab1) = Inr []" by code_simp+
  have scope: "launch_in_scope ''p'' (lab_launch ''two'') (db_of lab1)"
    "launch_in_scope ''p'' (lab_launch ''two'') (db_of lab2)" by code_simp+
  have auth: "case load_envelope ''r'' (db_of lab1) of None \<Rightarrow> True | Some en \<Rightarrow> authorizes (en_limits en) (nl_argv (lab_launch ''two''))"
    "case load_envelope ''r'' (db_of lab2) of None \<Rightarrow> True | Some en \<Rightarrow> authorizes (en_limits en) (nl_argv (lab_launch ''two''))"
    by code_simp+
  have auth': "\<And>en. load_envelope ''r'' (db_of lab1) = Some en \<Longrightarrow> authorizes (en_limits en) (nl_argv (lab_launch ''two''))"
    "\<And>en. load_envelope ''r'' (db_of lab2) = Some en \<Longrightarrow> authorizes (en_limits en) (nl_argv (lab_launch ''two''))"
    using auth by simp_all
  note rule = blockers_match_admission [OF norm, unfolded round]
  have "reserve plain_hash ''p'' ''q'' (lab_launch ''two'') ''e2'' 2000 2000 (db_of lab1) = Inl (XDenied DeadlinePassed)"
    using rule [OF new(1) blockers(1) scope(1) auth'(1) new(3), of plain_hash 2000] by simp
  moreover have "reserve plain_hash ''p'' ''q'' (lab_launch ''two'') ''e2'' 2000 20 (db_of lab2) = Inl (XDenied ConcurrencyLimit)"
    using rule [OF new(2) blockers(2) scope(2) auth'(2) new(4), of plain_hash 2000] by simp
  moreover have "\<exists>e db'. reserve plain_hash ''p'' ''q'' (lab_launch ''two'') ''e2'' 20 20 (db_of lab1) = Inr ((e, True), db') \<and> ex_id e = ''e2''"
    using rule [OF new(1) blockers(3) scope(1) auth'(1) new(3), of plain_hash 20] by auto
  ultimately show ?thesis by blast
qed

subsection \<open>A closed envelope\<close>

definition closed :: "string \<Rightarrow> db \<Rightarrow> bool" where
  "closed rd db \<longleftrightarrow> (\<exists>en. load_envelope rd db = Some en \<and> en_state en = EvClosed)"

lemma closed_upd:
  assumes "closed rd db" "d_envelopes db' = update_where P f (d_envelopes db)"
    "\<And>x. en_round (f x) = en_round x" "\<And>x. en_state (f x) = en_state x"
  shows "closed rd db'"
proof -
  obtain en where "row_of en_round rd (d_envelopes db) = Some en" "en_state en = EvClosed"
    using assms(1) by (auto simp: closed_def load_envelope_def)
  then have "load_envelope rd db' = Some (if P en then f en else en)" "en_state (if P en then f en else en) = EvClosed"
    using assms(2-4) by (simp_all add: load_envelope_def row_of_update_where)
  then show ?thesis unfolding closed_def by blast
qed

lemma closed_same: "closed rd db \<Longrightarrow> d_envelopes db' = d_envelopes db \<Longrightarrow> closed rd db'"
  by (simp add: closed_def load_envelope_def)

lemma closed_append: "closed rd db \<Longrightarrow> d_envelopes db' = d_envelopes db @ ens \<Longrightarrow> closed rd db'"
  by (auto simp: closed_def load_envelope_def row_of_append)

lemma closed_refund:
  assumes "closed rd db" "d_envelopes db1 = d_envelopes db"
  shows "closed rd (refund_launch rd' db1)"
proof -
  have rows: "d_envelopes (refund_launch rd' db1) = update_where (\<lambda>x. en_round x = rd')
      (\<lambda>x. x\<lparr>en_launches_reserved := en_launches_reserved x - 1\<rparr>) (d_envelopes db)"
    using assms(2) by (simp add: refund_launch_def)
  show ?thesis by (rule closed_upd [OF assms(1) rows]) simp_all
qed

lemma closed_exp_step:
  assumes "exp_step hash op db db'" "closed rd db"
  shows "closed rd db'"
proof (cases "op \<in> envelope_ops")
  case False
  then show ?thesis using envelope_frames [OF assms(1)] closed_same [OF assms(2)] by blast
next
  case True
  from assms(1) True assms(2) show ?thesis
  proof (induction rule: exp_step.induct)
    case (do_set_envelope p r rd' expected limits actor now db en db')
    from do_set_envelope(1) show ?case
    proof (cases rule: set_envelope_cases)
      case noop
      then show ?thesis using do_set_envelope by simp
    next
      case (create ls)
      then show ?thesis using closed_append [OF do_set_envelope(3)] by simp
    next
      case (revise ls old)
      have rows: "d_envelopes db' = update_where (\<lambda>x. en_round x = rd')
          (\<lambda>x. x\<lparr>en_revision := en_revision old + 1, en_limits := ls, en_updated_at := now\<rparr>) (d_envelopes db)"
        by (simp add: revise(5))
      show ?thesis by (rule closed_upd [OF do_set_envelope(3) rows]) simp_all
    qed
  next
    case (do_set_envelope_state p r rd' ens now db en db')
    from do_set_envelope_state(1) show ?case
    proof (cases rule: set_envelope_state_cases)
      case noop
      then show ?thesis using do_set_envelope_state by simp
    next
      case (moved old)
      then have "rd' \<noteq> rd" using do_set_envelope_state(3) by (auto simp: closed_def)
      then show ?thesis using do_set_envelope_state(3)
        by (auto simp: closed_def load_envelope_def moved(4) row_of_update_where dest: row_of_SomeD)
    qed
  next
    case (do_reserve p r l u now clk db eb db')
    from do_reserve(1) show ?case
    proof (cases rule: reserve_cases)
      case replay
      then show ?thesis using do_reserve by simp
    next
      case (admitted l' en db1)
      have rows: "d_envelopes db' = update_where (\<lambda>x. en_round x = nl_round l')
          (\<lambda>x. x\<lparr>en_launches_reserved := en_launches_reserved x + 1, en_updated_at := now\<rparr>) (d_envelopes db)"
        by (simp add: admitted(7) charge_launch_def ins_exec_put(4) [OF admitted(6)])
      show ?thesis by (rule closed_upd [OF do_reserve(3) rows]) simp_all
    qed
  next
    case (do_abandon ids db i why now b db')
    from do_abandon(2) show ?case
    proof (cases rule: abandon_cases)
      case noop
      then show ?thesis using do_abandon by simp
    next
      case (gone e db1 sc)
      have "closed rd (refund_launch (ex_round e) (set_experiment i (abandoned_row why now) db))"
        by (rule closed_refund [OF do_abandon(4)]) simp
      then show ?thesis by (rule closed_same) (simp add: gone(5) deliver_frames(1) [OF gone(4)])
    qed
  next
    case (do_reconcile ids db p i truth code actor' now e db')
    from do_reconcile(2) show ?case
    proof (cases rule: reconcile_cases)
      case (1 x reason db3 sc)
      show ?thesis
      proof (cases "truth = NotStarted")
        case True
        have "closed rd (refund_launch (ex_round x) (set_experiment i (reconciled_row truth code reason now) db))"
          by (rule closed_refund [OF do_reconcile(4)]) simp
        then show ?thesis by (rule closed_same) (simp add: 1(5) deliver_frames(1) [OF 1(4)] True)
      next
        case False
        then show ?thesis using closed_same [OF do_reconcile(4)] by (simp add: 1(5) deliver_frames(1) [OF 1(4)])
      qed
    qed
  qed (simp_all add: envelope_ops_def)
qed

lemma closed_reserve:
  assumes "reserve hash p r l u now clk db = Inr (eb, db')" "closed rd db" "e' \<in> set (d_experiments db')" "ex_round e' = rd"
  shows "e' \<in> set (d_experiments db)"
  using assms(1)
proof (cases rule: reserve_cases)
  case replay
  then show ?thesis using assms(3) by simp
next
  case (admitted l' en db1)
  let ?new = "new_experiment p r l' (request_hash hash l') en u now"
  have "en_state en = EvActive" using admitted(5) by (auto simp: admit_def err_simps split: envelope_state.splits)
  then have "nl_round l' \<noteq> rd" using admitted(3) assms(2) by (auto simp: closed_def)
  moreover have "e' = ?new \<or> e' \<in> set (d_experiments db)"
    using assms(3) ins_exec_put(4) [OF admitted(6)] by (auto simp: admitted(7) charge_launch_def)
  ultimately show ?thesis using assms(4) by (auto simp: new_experiment_sel)
qed

lemma closed_no_launch:
  assumes "exp_step hash op db db'" "server_inv parse db" "closed rd db" "e' \<in> set (d_experiments db')" "ex_round e' = rd"
  shows "\<exists>e\<in>set (d_experiments db). same_launch e e'"
proof (cases "op = Reserve")
  case True
  have "e' \<in> set (d_experiments db)"
    using assms(1) [unfolded True] by cases (rule closed_reserve [OF _ assms(3-5)])
  then show ?thesis using same_launch_refl by blast
next
  case False
  have ok: "experiments_ok db" using assms(2) by (simp add: server_inv_def exec_inv_def)
  have "exp_moves op db db'" using moves_step [OF assms(1) server_schema [OF assms(2)] ok] False by blast
  from exp_moves_rounds [OF this assms(4)] show ?thesis unfolding exp_move_def by blast
qed

text \<open>
  Closing an envelope is final.  In every later state of the server the envelope of the round is
  still closed, and every experiment of the round is one that was launched before.
\<close>

theorem closed_envelope_final:
  assumes "reaches (server_moves parse hash) empty_db db" "closed rd db" "reaches (server_moves parse hash) db db'"
  shows "closed rd db' \<and> (\<forall>e'\<in>set (d_experiments db'). ex_round e' = rd \<longrightarrow>
    (\<exists>e\<in>set (d_experiments db). same_launch e e'))"
  using assms(3,2) server_reachable [OF assms(1)]
proof (induction rule: reaches.induct)
  case (reaches_refl db)
  then show ?case using same_launch_refl by blast
next
  case (reaches_step db db1 db2)
  have ih: "closed rd db1" "\<And>e1. e1 \<in> set (d_experiments db1) \<Longrightarrow> ex_round e1 = rd \<Longrightarrow> \<exists>e\<in>set (d_experiments db). same_launch e e1"
    using reaches_step by blast+
  have inv: "server_inv parse db1" by (rule server_inv_moves [OF reaches_step(1,5)])
  obtain op where "server_step parse hash op db1 db2" using reaches_step(2) by (auto simp: server_moves_def)
  then have "closed rd db2 \<and> (\<forall>e2\<in>set (d_experiments db2). ex_round e2 = rd \<longrightarrow> (\<exists>e1\<in>set (d_experiments db1). same_launch e1 e2))"
  proof cases
    case (step_team top)
    then have "d_envelopes db2 = d_envelopes db1" "d_experiments db2 = d_experiments db1"
      using exec_frames [OF step_team(2)] frames [OF step_team(2)] by blast+
    then show ?thesis using closed_same [OF ih(1)] same_launch_refl by metis
  next
    case (step_exp x)
    then show ?thesis using closed_exp_step [OF step_exp(2) ih(1)] closed_no_launch [OF step_exp(2) inv ih(1)] by blast
  next
    case step_research
    then have "d_envelopes db2 = d_envelopes db1" "d_experiments db2 = d_experiments db1"
      by (auto elim!: research_writes.cases)
    then show ?thesis using closed_same [OF ih(1)] same_launch_refl by metis
  qed
  then show ?case using ih(2) same_launch_trans by (metis same_launch_def)
qed

definition "lab2c = set_envelope_state ''p'' ''q'' ''r'' EvClosed 12 (db_of lab2)"

lemma lab2c_succeeds: "succeeds lab2c"
  by code_simp

lemma lab2c_reachable: "reaches (server_moves parse plain_hash) empty_db (db_of lab2c)"
  by (rule exp_moves_on [OF lab2c_succeeds _ lab2_reachable]) (auto simp: lab2c_def intro: do_set_envelope_state)

theorem closed_envelope_final_witness:
  "\<exists>e. closed ''r'' (db_of lab2c)
     \<and> succeeds (mark_launching e (db_of lab2c)) \<and> closed ''r'' (db_of (mark_launching e (db_of lab2c)))"
proof -
  have start: "succeeds (mark_launching ''e'' (db_of lab2c))" by code_simp
  have "case load_envelope ''r'' (db_of lab2c) of None \<Rightarrow> False | Some en \<Rightarrow> en_state en = EvClosed" by code_simp
  then have closed: "closed ''r'' (db_of lab2c)" by (auto simp: closed_def split: option.splits)
  have "reaches (server_moves any_option plain_hash) (db_of lab2c) (db_of (mark_launching ''e'' (db_of lab2c)))"
    using succeeds_db_of [OF start] do_mark_launching step_exp
    by (intro reaches_one) (fastforce simp: server_moves_def)
  from closed_envelope_final [OF lab2c_reachable closed this] closed start show ?thesis by blast
qed

subsection \<open>Executions stay in their team\<close>



end
