(* ===== verification/Actions.thy ===== *)
theory Actions
  imports Prelude
begin

text \<open>
  Operations that commit in several transactions: an action returns its result and the state it leaves,
  also when it fails, since what was committed before a failure stays.  Triples \<open>triple P m Q E\<close> say that
  the action \<open>m\<close>, started in \<open>P\<close>, ends in \<open>Q\<close> when it succeeds and in \<open>E\<close> when it fails; their rules
  follow the combinators, so that an invariant is proved operation by operation from the statements.
\<close>

subsection \<open>Actions\<close>

type_synonym ('s, 'e, 'a) act = "'s \<Rightarrow> ('e + 'a) \<times> 's"

definition returns :: "'a \<Rightarrow> ('s, 'e, 'a) act" where
  "returns x db = (Inr x, db)"

definition fails :: "'e \<Rightarrow> ('s, 'e, 'a) act" where
  "fails e db = (Inl e, db)"

definition andthen :: "('s, 'e, 'a) act \<Rightarrow> ('a \<Rightarrow> ('s, 'e, 'b) act) \<Rightarrow> ('s, 'e, 'b) act" where
  "andthen m f db = (case m db of (Inl e, db1) \<Rightarrow> (Inl e, db1) | (Inr x, db1) \<Rightarrow> f x db1)"

definition atomically :: "('s, 'e, 'a) act \<Rightarrow> ('s, 'e, 'a) act" where
  "atomically m db = (case m db of (Inl e, _) \<Rightarrow> (Inl e, db) | (Inr x, db1) \<Rightarrow> (Inr x, db1))"

definition reads :: "('s \<Rightarrow> 'a) \<Rightarrow> ('s, 'e, 'a) act" where
  "reads f db = (Inr (f db), db)"

definition modifies :: "('s \<Rightarrow> 's) \<Rightarrow> ('s, 'e, unit) act" where
  "modifies f db = (Inr (), f db)"

definition requires :: "('s \<Rightarrow> bool) \<Rightarrow> 'e \<Rightarrow> ('s, 'e, unit) act" where
  "requires P e db = (if P db then (Inr (), db) else (Inl e, db))"

definition finds :: "('s \<Rightarrow> 'a option) \<Rightarrow> 'e \<Rightarrow> ('s, 'e, 'a) act" where
  "finds f e db = (case f db of None \<Rightarrow> (Inl e, db) | Some x \<Rightarrow> (Inr x, db))"

text \<open>\<open>let _ = ...\<close>: a failure is ignored.\<close>

definition attempts :: "('s, 'e, 'a) act \<Rightarrow> ('s, 'e, unit) act" where
  "attempts m db = (Inr (), snd (m db))"

fun foreach :: "('a \<Rightarrow> ('s, 'e, unit) act) \<Rightarrow> 'a list \<Rightarrow> ('s, 'e, unit) act" where
  "foreach f [] = returns ()"
| "foreach f (x # xs) = andthen (f x) (\<lambda>_. foreach f xs)"

named_theorems act_defs "the combinators of actions"

lemmas [act_defs] = returns_def fails_def andthen_def atomically_def reads_def modifies_def requires_def
  finds_def attempts_def

text \<open>What a committed action did: its result and the database after it.\<close>

lemma andthen_Inr:
  "andthen m f db = (Inr y, db') \<longleftrightarrow> (\<exists>x db1. m db = (Inr x, db1) \<and> f x db1 = (Inr y, db'))"
  by (auto simp: andthen_def split: prod.splits sum.splits)

lemma andthen_Inl:
  "andthen m f db = (Inl e, db') \<longleftrightarrow>
     m db = (Inl e, db') \<or> (\<exists>x db1. m db = (Inr x, db1) \<and> f x db1 = (Inl e, db'))"
  by (auto simp: andthen_def split: prod.splits sum.splits)

lemma act_Inr:
  "returns x db = (Inr y, db') \<longleftrightarrow> y = x \<and> db' = db"
  "fails e db = (Inr z, db') \<longleftrightarrow> False"
  "atomically m db = (Inr z, db') \<longleftrightarrow> m db = (Inr z, db')"
  "reads g db = (Inr w, db') \<longleftrightarrow> w = g db \<and> db' = db"
  "modifies h db = (Inr u, db') \<longleftrightarrow> db' = h db"
  "requires P e db = (Inr u, db') \<longleftrightarrow> P db \<and> db' = db"
  "finds k e db = (Inr v, db') \<longleftrightarrow> k db = Some v \<and> db' = db"
  "attempts n db = (Inr u, db') \<longleftrightarrow> db' = snd (n db)"
  by (auto simp: act_defs split: prod.splits sum.splits option.splits)

lemma act_Inl:
  "returns x db = (Inl a, db') \<longleftrightarrow> False"
  "fails e db = (Inl a, db') \<longleftrightarrow> a = e \<and> db' = db"
  "atomically m db = (Inl a, db') \<longleftrightarrow> fst (m db) = Inl a \<and> db' = db"
  "reads g db = (Inl a, db') \<longleftrightarrow> False"
  "modifies h db = (Inl a, db') \<longleftrightarrow> False"
  "requires P e db = (Inl a, db') \<longleftrightarrow> \<not> P db \<and> a = e \<and> db' = db"
  "finds k e db = (Inl a, db') \<longleftrightarrow> k db = None \<and> a = e \<and> db' = db"
  "attempts n db = (Inl a, db') \<longleftrightarrow> False"
  by (auto simp: act_defs split: prod.splits sum.splits option.splits)

lemmas acts = andthen_Inr andthen_Inl act_Inr act_Inl

text \<open>A transaction that fails changes nothing.\<close>

lemma atomically_rolls_back: "atomically m db = (Inl e, db') \<Longrightarrow> db' = db"
  by (simp add: act_Inl)

subsection \<open>Triples\<close>

definition triple :: "('s \<Rightarrow> bool) \<Rightarrow> ('s, 'e, 'a) act \<Rightarrow> ('a \<Rightarrow> 's \<Rightarrow> bool) \<Rightarrow> ('s \<Rightarrow> bool) \<Rightarrow> bool" where
  "triple P m Q E \<longleftrightarrow> (\<forall>db. P db \<longrightarrow> (case m db of (Inl e, db') \<Rightarrow> E db' | (Inr x, db') \<Rightarrow> Q x db'))"

abbreviation keeps :: "('s \<Rightarrow> bool) \<Rightarrow> ('s, 'e, 'a) act \<Rightarrow> bool" where
  "keeps I m \<equiv> triple I m (\<lambda>_. I) I"

lemma tripleD: "triple P m Q E \<Longrightarrow> P db \<Longrightarrow> m db = (Inr x, db') \<Longrightarrow> Q x db'"
  by (auto simp: triple_def)

lemma keepsD: "keeps I m \<Longrightarrow> I db \<Longrightarrow> I (snd (m db))"
  by (cases "m db"; cases "fst (m db)") (auto simp: triple_def dest!: spec [of _ db])

lemma triple_weaken:
  "triple P m Q E \<Longrightarrow> (\<And>db. P' db \<Longrightarrow> P db) \<Longrightarrow> (\<And>x db. Q x db \<Longrightarrow> Q' x db) \<Longrightarrow> (\<And>db. E db \<Longrightarrow> E' db) \<Longrightarrow> triple P' m Q' E'"
  by (fastforce simp: triple_def split: prod.splits sum.splits)

named_theorems triples "rules for triples"

lemma triple_andthen [triples]:
  "triple P m R E \<Longrightarrow> (\<And>x. triple (R x) (f x) Q E) \<Longrightarrow> triple P (andthen m f) Q E"
  by (fastforce simp: triple_def andthen_def split: prod.splits sum.splits)

lemma triple_returns [triples]: "(\<And>db. P db \<Longrightarrow> Q x db) \<Longrightarrow> triple P (returns x) Q E"
  by (simp add: triple_def returns_def)

lemma triple_fails [triples]: "(\<And>db. P db \<Longrightarrow> E db) \<Longrightarrow> triple P (fails e) Q E"
  by (simp add: triple_def fails_def)

lemma triple_reads [triples]: "(\<And>db. P db \<Longrightarrow> Q (f db) db) \<Longrightarrow> triple P (reads f) Q E"
  by (simp add: triple_def reads_def)

lemma triple_modifies [triples]: "(\<And>db. P db \<Longrightarrow> Q () (f db)) \<Longrightarrow> triple P (modifies f) Q E"
  by (simp add: triple_def modifies_def)

lemma triple_requires [triples]:
  "(\<And>db. P db \<Longrightarrow> C db \<Longrightarrow> Q () db) \<Longrightarrow> (\<And>db. P db \<Longrightarrow> E db) \<Longrightarrow> triple P (requires C e) Q E"
  by (simp add: triple_def requires_def)

lemma triple_finds [triples]:
  "(\<And>db x. P db \<Longrightarrow> f db = Some x \<Longrightarrow> Q x db) \<Longrightarrow> (\<And>db. P db \<Longrightarrow> E db) \<Longrightarrow> triple P (finds f e) Q E"
  by (simp add: triple_def finds_def split: option.splits)

lemma triple_attempts [triples]:
  assumes "triple P m (\<lambda>_. Q ()) (Q ())"
  shows "triple P (attempts m) Q E"
  unfolding triple_def
proof (intro allI impI)
  fix db assume "P db"
  then have "case m db of (Inl e, db') \<Rightarrow> Q () db' | (Inr x, db') \<Rightarrow> Q () db'" using assms by (simp add: triple_def)
  then have "Q () (snd (m db))" by (cases "m db"; cases "fst (m db)") auto
  then show "case attempts m db of (Inl e, db') \<Rightarrow> E db' | (Inr x, db') \<Rightarrow> Q x db'" by (simp add: attempts_def)
qed

lemma triple_atomically: "triple P m Q (\<lambda>_. True) \<Longrightarrow> (\<And>db. P db \<Longrightarrow> E db) \<Longrightarrow> triple P (atomically m) Q E"
  by (fastforce simp: triple_def atomically_def split: prod.splits sum.splits)

lemma keeps_atomically [triples]: "keeps I m \<Longrightarrow> keeps I (atomically m)"
  by (rule triple_atomically) (auto elim: triple_weaken)

lemma keeps_foreach [triples]: "(\<And>x. keeps I (f x)) \<Longrightarrow> keeps I (foreach f xs)"
  by (induction xs) (auto intro!: triples)

lemma triple_if [triples]: "(b \<Longrightarrow> triple P m Q E) \<Longrightarrow> (\<not> b \<Longrightarrow> triple P n Q E) \<Longrightarrow> triple P (if b then m else n) Q E"
  by simp

lemma triple_option [triples]:
  "(x = None \<Longrightarrow> triple P m Q E) \<Longrightarrow> (\<And>y. x = Some y \<Longrightarrow> triple P (f y) Q E) \<Longrightarrow>
   triple P (case x of None \<Rightarrow> m | Some y \<Rightarrow> f y) Q E"
  by (cases x) simp_all

lemma triple_list [triples]:
  "(xs = [] \<Longrightarrow> triple P m Q E) \<Longrightarrow> (\<And>y ys. xs = y # ys \<Longrightarrow> triple P (f y ys) Q E) \<Longrightarrow>
   triple P (case xs of [] \<Rightarrow> m | y # ys \<Rightarrow> f y ys) Q E"
  by (cases xs) simp_all

lemma triple_prod [triples]: "(\<And>a b. x = (a, b) \<Longrightarrow> triple P (f a b) Q E) \<Longrightarrow> triple P (case x of (a, b) \<Rightarrow> f a b) Q E"
  by (cases x) simp

lemma keeps_basic [intro]:
  "keeps I (returns x)" "keeps I (fails e)" "keeps I (reads f)" "keeps I (requires C e)" "keeps I (finds g e)"
  by (auto intro!: triples)

lemma keeps_andthen [intro]: "keeps I m \<Longrightarrow> (\<And>x. keeps I (f x)) \<Longrightarrow> keeps I (andthen m f)"
  by (rule triple_andthen)

lemma keeps_modifies: "(\<And>db. I db \<Longrightarrow> I (f db)) \<Longrightarrow> keeps I (modifies f)"
  by (rule triple_modifies)

lemma keeps_attempts [intro]: "keeps I m \<Longrightarrow> keeps I (attempts m)"
  by (rule triple_attempts)

lemma keeps_let [intro]: "keeps I (f x) \<Longrightarrow> keeps I (let y = x in f y)"
  by simp

lemmas keeps_rules = keeps_andthen keeps_basic keeps_attempts keeps_atomically keeps_foreach keeps_let
  triple_if triple_option triple_list triple_prod

end
