(* ===== verification/AgentModels.thy ===== *)
theory AgentModels
  imports TeamModels Actions
begin

text \<open>
  The data model of the agent store (\<open>src/server/src/agent_store/models.rs\<close>, \<open>events.rs\<close> and the
  tables of \<open>mod.rs\<close>): conversations, runs with their event logs, the prompt queue, the workspace
  event stream and the in-memory cursor of its bus.

  The store mixes committed transactions with further statements, and a later failure does not undo
  what was committed.  An action is therefore a function from the database to a result \<open>and\<close> a
  database; \<open>atomically\<close> restores the database when the transaction inside it fails.
\<close>

subsection \<open>JSON\<close>

datatype json = JNull | JBool bool | JNum int | JStr string | JArr "json list" | JObj "(string \<times> json) list"

fun json_get :: "string \<Rightarrow> json \<Rightarrow> json option" where
  "json_get k (JObj fs) = map_of fs k"
| "json_get k _ = None"

fun json_str :: "json \<Rightarrow> string option" where
  "json_str (JStr s) = Some s"
| "json_str _ = None"

subsection \<open>Enumerations\<close>

datatype store_error =
    SActiveRun string
  | SConversationNotFound string
  | SRunNotFound string
  | SInvalidStoredValue string
  | SQueueItemNotActionable string
  | SQueueItemNotFound string
  | SForkUnavailable string
  | SDatabase  \<comment> \<open>a failed statement\<close>
  | SPanic  \<comment> \<open>a slice that cuts a character in two\<close>

datatype agent_id = ClaudeCode | Codex | OpenCode

definition agent_id_tab :: "(agent_id \<times> string) list" where
  "agent_id_tab = [(ClaudeCode, ''claude_code''), (Codex, ''codex''), (OpenCode, ''opencode'')]"

datatype permission_mode = Safe | Power

definition permission_mode_tab :: "(permission_mode \<times> string) list" where
  "permission_mode_tab = [(Safe, ''safe''), (Power, ''power'')]"

datatype run_status = RsRunning | RsWaiting | RsCompleted | RsFailed | RsCancelled | RsTimedOut | RsInterrupted

definition run_status_tab :: "(run_status \<times> string) list" where
  "run_status_tab = [(RsRunning, ''running''), (RsWaiting, ''waiting_permission''), (RsCompleted, ''completed''),
     (RsFailed, ''failed''), (RsCancelled, ''cancelled''), (RsTimedOut, ''timed_out''), (RsInterrupted, ''interrupted'')]"

datatype terminal_cause = TcEndTurn | TcCancelled | TcError | TcMaxTokens | TcMaxTurnRequests | TcRefusal | TcInterrupted

definition terminal_cause_tab :: "(terminal_cause \<times> string) list" where
  "terminal_cause_tab = [(TcEndTurn, ''end_turn''), (TcCancelled, ''cancelled''), (TcError, ''error''),
     (TcMaxTokens, ''max_tokens''), (TcMaxTurnRequests, ''max_turn_requests''), (TcRefusal, ''refusal''),
     (TcInterrupted, ''interrupted'')]"

datatype relationship = ReFork | ReSubagent | ReBranch | ReTeamMember

definition relationship_tab :: "(relationship \<times> string) list" where
  "relationship_tab = [(ReFork, ''fork''), (ReSubagent, ''subagent''), (ReBranch, ''branch''), (ReTeamMember, ''team_member'')]"

datatype execution_mode = EmShared | EmWorktree

datatype queue_status = QsPending | QsClaimed

definition queue_status_tab :: "(queue_status \<times> string) list" where
  "queue_status_tab = [(QsPending, ''pending''), (QsClaimed, ''claimed'')]"

datatype agent_event_kind =
    AkRunStarted | AkTextDelta | AkThinkingDelta | AkToolStarted | AkToolUpdated | AkToolCompleted
  | AkPermissionRequested | AkPermissionResolved | AkUsage | AkPlan | AkAvailableCommands | AkCurrentMode
  | AkConfigOptions | AkSessionInfo | AkElicitationRequested | AkElicitationResolved | AkMediaShared | AkError
  | AkRunCompleted

definition agent_event_kind_tab :: "(agent_event_kind \<times> string) list" where
  "agent_event_kind_tab = [(AkRunStarted, ''run_started''), (AkTextDelta, ''text_delta''),
     (AkThinkingDelta, ''thinking_delta''), (AkToolStarted, ''tool_started''), (AkToolUpdated, ''tool_updated''),
     (AkToolCompleted, ''tool_completed''), (AkPermissionRequested, ''permission_requested''),
     (AkPermissionResolved, ''permission_resolved''), (AkUsage, ''usage''), (AkPlan, ''plan''),
     (AkAvailableCommands, ''available_commands''), (AkCurrentMode, ''current_mode''),
     (AkConfigOptions, ''config_options''), (AkSessionInfo, ''session_info''),
     (AkElicitationRequested, ''elicitation_requested''), (AkElicitationResolved, ''elicitation_resolved''),
     (AkMediaShared, ''media_shared''), (AkError, ''error''), (AkRunCompleted, ''run_completed'')]"

subsection \<open>Rows\<close>

text \<open>The stored columns of a conversation; the displayed title is \<open>COALESCE(manual, agent, '')\<close>.\<close>

record conversation =
  cv_id :: string
  cv_agent_session :: string
  cv_project :: string
  cv_agent :: agent_id
  cv_provider :: "string option"
  cv_stored_title :: string
  cv_manual_title :: "string option"
  cv_agent_title :: "string option"
  cv_created_at :: nat
  cv_updated_at :: nat
  cv_archived :: bool
  cv_parent :: "string option"
  cv_relationship :: "relationship option"
  cv_read_only :: bool
  cv_execution :: execution_mode
  cv_workspace :: "string option"
  cv_recreated :: bool
  cv_fork_run :: "string option"
  cv_fork_path :: "string option"
  cv_prefix :: "string option"
  cv_internal_revision :: bool

record agent_run =
  ar_id :: string
  ar_conversation :: string
  ar_project :: string
  ar_message :: string
  ar_status :: run_status
  ar_mode :: permission_mode
  ar_error :: "string option"
  ar_internal :: bool
  ar_client :: "string option"
  ar_cause :: "terminal_cause option"
  ar_started_at :: nat
  ar_completed_at :: "nat option"

record queue_item =
  qi_id :: string
  qi_conversation :: string
  qi_project :: string
  qi_content :: string
  qi_status :: queue_status
  qi_position :: int
  qi_internal :: bool
  qi_client :: "string option"
  qi_created_at :: nat

record agent_event =
  ae_run :: string
  ae_seq :: nat
  ae_kind :: agent_event_kind
  ae_payload :: json
  ae_created_at :: nat

record session_event =
  se_conversation :: string
  se_seq :: nat
  se_kind :: string
  se_payload :: json
  se_created_at :: nat

record stream_event =
  we_id :: nat
  we_kind :: string
  we_project :: "string option"
  we_conversation :: "string option"
  we_run :: "string option"
  we_payload :: json
  we_created_at :: nat

record checkpoint_row =
  ck_run :: string
  ck_before :: "string option"
  ck_after :: "string option"

datatype start_outcome = Started agent_run | Queued queue_item

text \<open>
  The tables in \<open>rowid\<close> order, the \<open>AUTOINCREMENT\<close> counter of the workspace events and the cursor of
  the event bus, which lives in memory.
\<close>

record agent_db =
  a_conversations :: "conversation list"
  a_runs :: "agent_run list"
  a_checkpoints :: "checkpoint_row list"
  a_events :: "agent_event list"
  a_session_events :: "session_event list"
  a_stream :: "stream_event list"
  a_stream_seq :: nat
  a_queue :: "queue_item list"
  a_bus :: nat

definition empty_agent_db :: agent_db where
  "empty_agent_db = \<lparr>a_conversations = [], a_runs = [], a_checkpoints = [], a_events = [], a_session_events = [],
     a_stream = [], a_stream_seq = 0, a_queue = [], a_bus = 0\<rparr>"

subsection \<open>Actions\<close>

type_synonym 'a action = "(agent_db, store_error, 'a) act"

subsection \<open>The stored texts read back\<close>

interpretation agent_id_codec: stored_enum agent_id_tab
  by unfold_locales (auto simp: agent_id_tab_def intro: agent_id.exhaust)

interpretation permission_mode_codec: stored_enum permission_mode_tab
  by unfold_locales (auto simp: permission_mode_tab_def intro: permission_mode.exhaust)

interpretation run_status_codec: stored_enum run_status_tab
  by unfold_locales (auto simp: run_status_tab_def intro: run_status.exhaust)

interpretation terminal_cause_codec: stored_enum terminal_cause_tab
  by unfold_locales (auto simp: terminal_cause_tab_def intro: terminal_cause.exhaust)

interpretation relationship_codec: stored_enum relationship_tab
  by unfold_locales (auto simp: relationship_tab_def intro: relationship.exhaust)

interpretation queue_status_codec: stored_enum queue_status_tab
  by unfold_locales (auto simp: queue_status_tab_def intro: queue_status.exhaust)

interpretation agent_event_kind_codec: stored_enum agent_event_kind_tab
  by unfold_locales (auto simp: agent_event_kind_tab_def intro: agent_event_kind.exhaust)

end
