(* ===== verification/AgentText.thy ===== *)
theory AgentText
  imports AgentModels "HOL-Library.Signed_Division"
begin

text \<open>
  Text and time of the agent store: the title a conversation gets from its first prompt
  (\<open>fallback_conversation_title\<close> in \<open>agent_store/conversations.rs\<close>), the calendar computation of
  \<open>agent_store/prompt_queue.rs\<close> and the bounded prefix of a sub-session id.

  Characters are below 256.  The upper case of U+00B5 and U+00FF lies outside that range; they are
  left as they are.
\<close>

subsection \<open>Titles\<close>

definition code_of :: "char \<Rightarrow> nat" where
  "code_of c = of_char c"

definition alphanumeric :: "char \<Rightarrow> bool" where
  "alphanumeric c = (let n = code_of c in 48 \<le> n \<and> n \<le> 57 \<or> 65 \<le> n \<and> n \<le> 90 \<or> 97 \<le> n \<and> n \<le> 122
     \<or> n \<in> set [170, 178, 179, 181, 185, 186, 188, 189, 190] \<or> 192 \<le> n \<and> n \<noteq> 215 \<and> n \<noteq> 247)"

definition ascii_lower :: "char \<Rightarrow> char" where
  "ascii_lower c = (let n = code_of c in if 65 \<le> n \<and> n \<le> 90 then char_of (n + 32) else c)"

definition lowercase :: "char \<Rightarrow> bool" where
  "lowercase c = (let n = code_of c in 97 \<le> n \<and> n \<le> 122 \<or> n \<in> set [170, 181, 186] \<or> 223 \<le> n \<and> n \<noteq> 247)"

definition uppercase :: "char \<Rightarrow> string" where
  "uppercase c = (let n = code_of c in
     if 97 \<le> n \<and> n \<le> 122 \<or> 224 \<le> n \<and> n \<le> 254 \<and> n \<noteq> 247 then [char_of (n - 32)]
     else if n = 223 then ''SS'' else [c])"

fun split_on :: "(char \<Rightarrow> bool) \<Rightarrow> string \<Rightarrow> string list" where
  "split_on P [] = [[]]"
| "split_on P (c # cs) = (if P c then [] # split_on P cs
     else (case split_on P cs of [] \<Rightarrow> [[c]] | w # rest \<Rightarrow> (c # w) # rest))"

definition trim_where :: "(char \<Rightarrow> bool) \<Rightarrow> string \<Rightarrow> string" where
  "trim_where P s = rev (dropWhile P (rev (dropWhile P s)))"

fun join_words :: "string list \<Rightarrow> string" where
  "join_words [] = []"
| "join_words [w] = w"
| "join_words (w # v # rest) = w @ '' '' @ join_words (v # rest)"

definition title_stop_words :: "string list" where
  "title_stop_words = [''a'', ''an'', ''can'', ''could'', ''for'', ''help'', ''me'', ''please'', ''the'', ''to'', ''would'', ''you'']"

definition fallback_conversation_title :: "string \<Rightarrow> string option" where
  "fallback_conversation_title source =
    (case find (\<lambda>line. trim line \<noteq> []) (split_on (\<lambda>c. code_of c = 10) source) of
       None \<Rightarrow> None
     | Some found \<Rightarrow>
         let line = trim found in
         if hd line = CHR ''/'' then None
         else
           let words = filter (\<lambda>w. w \<noteq> []) (map (trim_where (\<lambda>c. \<not> alphanumeric c)) (split_on ws line));
               meaningful = filter (\<lambda>w. map ascii_lower w \<notin> set title_stop_words) words;
               selected = if meaningful = [] then words else meaningful;
               title = take 48 (join_words (take 4 selected)) in
           (case title of
              [] \<Rightarrow> None
            | c # rest \<Rightarrow> Some (if lowercase c then uppercase c @ rest else title)))"

definition normalized_conversation_title :: "string option \<Rightarrow> string option" where
  "normalized_conversation_title t = trim_nonempty t"

text \<open>\<open>&sub_session_id[..8.min(len)]\<close> counts bytes: it panics when the cut is inside a character.\<close>

definition utf8_len :: "char \<Rightarrow> nat" where
  "utf8_len c = (if code_of c < 128 then 1 else 2)"

fun byte_prefix :: "nat \<Rightarrow> string \<Rightarrow> string option" where
  "byte_prefix n [] = Some []"
| "byte_prefix n (c # cs) = (if n = 0 then Some [] else if n < utf8_len c then None
     else map_option (\<lambda>r. c # r) (byte_prefix (n - utf8_len c) cs))"

subsection \<open>The calendar\<close>

text \<open>\<open>i64\<close> and \<open>u64\<close> do not overflow on the days of a \<open>SystemTime\<close>; division truncates.\<close>

definition civil_from_days :: "int \<Rightarrow> int \<times> nat \<times> nat" where
  "civil_from_days days =
    (let z = days + 719468;
         era = (if z \<ge> 0 then z else z - 146096) sdiv 146097;
         doe = nat (z - era * 146097);
         yoe = (doe - doe div 1460 + doe div 36524 - doe div 146096) div 365;
         y = int yoe + era * 400;
         doy = doe - (365 * yoe + yoe div 4 - yoe div 100);
         mp = (5 * doy + 2) div 153;
         d = doy - (153 * mp + 2) div 5 + 1;
         m = (if mp < 10 then mp + 3 else mp - 9) in
     (if m \<le> 2 then y + 1 else y, m, d))"

text \<open>
  The reference: the proleptic Gregorian calendar, day by day from 1 January 1970.
\<close>

definition leap :: "nat \<Rightarrow> bool" where
  "leap y \<longleftrightarrow> y mod 4 = 0 \<and> (y mod 100 \<noteq> 0 \<or> y mod 400 = 0)"

definition month_days :: "nat \<Rightarrow> nat \<Rightarrow> nat" where
  "month_days y m = (if m = 2 then (if leap y then 29 else 28) else if m \<in> {4, 6, 9, 11} then 30 else 31)"

definition next_day :: "nat \<times> nat \<times> nat \<Rightarrow> nat \<times> nat \<times> nat" where
  "next_day t = (case t of (y, m, d) \<Rightarrow>
     if d < month_days y m then (y, m, d + 1)
     else if m < 12 then (y, m + 1, 1)
     else (y + 1, 1, 1))"

primrec date_after :: "nat \<Rightarrow> nat \<times> nat \<times> nat" where
  "date_after 0 = (1970, 1, 1)"
| "date_after (Suc n) = next_day (date_after n)"

end
