(* ===== verification/AgentLog.thy ===== *)
theory AgentLog
  imports AgentText
begin

text \<open>
  The event logs of the agent store (\<open>agent_store/events.rs\<close> and \<open>append_event_transaction\<close> of
  \<open>runs.rs\<close>): the numbered events of a run and of a conversation, the workspace event stream and the
  cursor of its bus, and reading conversations.
\<close>

subsection \<open>The bus\<close>

definition publish_committed :: "nat \<Rightarrow> unit action" where
  "publish_committed cursor = modifies (\<lambda>db. if cursor > a_bus db then db\<lparr>a_bus := cursor\<rparr> else db)"

definition latest_committed_cursor :: "agent_db \<Rightarrow> nat" where
  "latest_committed_cursor db = a_bus db"

subsection \<open>The workspace stream\<close>

definition push_stream :: "string \<Rightarrow> string option \<Rightarrow> string option \<Rightarrow> string option \<Rightarrow> json \<Rightarrow> nat \<Rightarrow> agent_db \<Rightarrow> agent_db" where
  "push_stream kind p c r payload now db =
    db\<lparr>a_stream := a_stream db @ [\<lparr>we_id = a_stream_seq db + 1, we_kind = kind, we_project = p, we_conversation = c,
                                   we_run = r, we_payload = payload, we_created_at = now\<rparr>],
       a_stream_seq := a_stream_seq db + 1\<rparr>"

text \<open>The insertion and \<open>last_insert_rowid\<close>.\<close>

definition append_workspace_event_transaction :: "string \<Rightarrow> string option \<Rightarrow> string option \<Rightarrow> string option \<Rightarrow> json \<Rightarrow> nat \<Rightarrow> nat action" where
  "append_workspace_event_transaction kind p c r payload now =
    andthen (modifies (push_stream kind p c r payload now)) (\<lambda>_. reads a_stream_seq)"

definition append_workspace_event :: "string \<Rightarrow> string option \<Rightarrow> string option \<Rightarrow> string option \<Rightarrow> json \<Rightarrow> nat \<Rightarrow> stream_event action" where
  "append_workspace_event kind p c r payload now =
    andthen (append_workspace_event_transaction kind p c r payload now) (\<lambda>cursor.
    andthen (publish_committed cursor) (\<lambda>_.
    finds (\<lambda>db. row_of we_id cursor (a_stream db)) SDatabase))"

definition append_session_state_workspace_event_transaction :: "string \<Rightarrow> string \<Rightarrow> (string \<times> json) list \<Rightarrow> nat \<Rightarrow> nat action" where
  "append_session_state_workspace_event_transaction p c updates now =
    append_workspace_event_transaction ''session_state'' (Some p) (Some c) None
      (JObj [(''updates'', JArr (map (\<lambda>u. JObj [(''kind'', JStr (fst u)), (''payload'', snd u)]) updates))]) now"

text \<open>A cursor is a \<open>u64\<close> that must fit an SQLite integer.\<close>

definition sqlite_cursor :: "string \<Rightarrow> nat \<Rightarrow> unit action" where
  "sqlite_cursor what n = requires (\<lambda>_. n < 2 ^ 63) (SInvalidStoredValue (what @ '' exceeds SQLite range''))"

definition workspace_events_after :: "nat \<Rightarrow> stream_event list action" where
  "workspace_events_after cursor =
    andthen (sqlite_cursor ''workspace event cursor'' cursor) (\<lambda>_.
    reads (\<lambda>db. take 512 (sort_key we_id (filter (\<lambda>e. we_id e > cursor) (a_stream db)))))"

definition latest_workspace_event_id :: "agent_db \<Rightarrow> nat" where
  "latest_workspace_event_id db = foldr max (map we_id (a_stream db)) 0"

subsection \<open>Conversations\<close>

definition get_conversation :: "string \<Rightarrow> conversation action" where
  "get_conversation c = finds (\<lambda>db. row_of cv_id c (a_conversations db)) (SConversationNotFound c)"

definition shown_title :: "conversation \<Rightarrow> string" where
  "shown_title c = (case cv_manual_title c of Some t \<Rightarrow> t
     | None \<Rightarrow> (case cv_agent_title c of Some t \<Rightarrow> t | None \<Rightarrow> []))"

definition upd_conversations :: "(conversation \<Rightarrow> bool) \<Rightarrow> (conversation \<Rightarrow> conversation) \<Rightarrow> agent_db \<Rightarrow> agent_db" where
  "upd_conversations P f db = db\<lparr>a_conversations := update_where P f (a_conversations db)\<rparr>"

definition touch_conversation :: "string \<Rightarrow> nat \<Rightarrow> agent_db \<Rightarrow> agent_db" where
  "touch_conversation c now = upd_conversations (\<lambda>x. cv_id x = c) (\<lambda>x. x\<lparr>cv_updated_at := now\<rparr>)"

definition set_agent_title_if_untitled :: "string \<Rightarrow> string \<Rightarrow> nat \<Rightarrow> conversation option action" where
  "set_agent_title_if_untitled c source now =
    (case fallback_conversation_title source of
       None \<Rightarrow> returns None
     | Some title \<Rightarrow>
         andthen (reads (\<lambda>db. list_ex (\<lambda>x. cv_id x = c \<and> cv_manual_title x = None \<and> cv_agent_title x = None)
                            (a_conversations db))) (\<lambda>untitled.
         if \<not> untitled then andthen (get_conversation c) (\<lambda>_. returns None)
         else
           andthen (modifies (upd_conversations
               (\<lambda>x. cv_id x = c \<and> cv_manual_title x = None \<and> cv_agent_title x = None)
               (\<lambda>x. x\<lparr>cv_agent_title := Some title, cv_updated_at := now\<rparr>))) (\<lambda>_.
           andthen (get_conversation c) (\<lambda>row.
           andthen (append_workspace_event ''session_updated'' (Some (cv_project row)) (Some c) None
                      (JObj [(''title'', JStr (shown_title row))]) now) (\<lambda>_.
           returns (Some row))))))"

subsection \<open>Session events\<close>

definition top_seq :: "nat list \<Rightarrow> nat" where
  "top_seq ns = foldr max ns 0"

definition next_session_seq :: "string \<Rightarrow> agent_db \<Rightarrow> nat" where
  "next_session_seq c db = top_seq (map se_seq (filter (\<lambda>e. se_conversation e = c) (a_session_events db))) + 1"

definition push_session :: "string \<Rightarrow> string \<Rightarrow> json \<Rightarrow> nat \<Rightarrow> agent_db \<Rightarrow> agent_db" where
  "push_session c kind payload now db =
    db\<lparr>a_session_events := a_session_events db @ [\<lparr>se_conversation = c, se_seq = next_session_seq c db, se_kind = kind,
         se_payload = payload, se_created_at = now\<rparr>]\<rparr>"

definition append_session_event :: "string \<Rightarrow> string \<Rightarrow> json \<Rightarrow> nat \<Rightarrow> session_event action" where
  "append_session_event c kind payload now =
    andthen (get_conversation c) (\<lambda>_.
    andthen (reads (next_session_seq c)) (\<lambda>n.
    andthen (modifies (push_session c kind payload now)) (\<lambda>_.
    returns \<lparr>se_conversation = c, se_seq = n, se_kind = kind, se_payload = payload, se_created_at = now\<rparr>)))"

definition session_events_from :: "string \<Rightarrow> nat \<Rightarrow> agent_db \<Rightarrow> session_event list" where
  "session_events_from c cursor db =
    sort_key se_seq (filter (\<lambda>e. se_conversation e = c \<and> se_seq e > cursor) (a_session_events db))"

definition session_events_after :: "string \<Rightarrow> nat \<Rightarrow> session_event list action" where
  "session_events_after c cursor =
    andthen (get_conversation c) (\<lambda>_. andthen (sqlite_cursor ''session event cursor'' cursor) (\<lambda>_. reads (session_events_from c cursor)))"

subsection \<open>Run events\<close>

definition next_run_seq :: "string \<Rightarrow> agent_db \<Rightarrow> nat" where
  "next_run_seq r db = top_seq (map ae_seq (filter (\<lambda>e. ae_run e = r) (a_events db))) + 1"

definition push_event :: "string \<Rightarrow> agent_event_kind \<Rightarrow> json \<Rightarrow> nat \<Rightarrow> agent_db \<Rightarrow> agent_db" where
  "push_event r kind payload now db =
    db\<lparr>a_events := a_events db @ [\<lparr>ae_run = r, ae_seq = next_run_seq r db, ae_kind = kind, ae_payload = payload,
         ae_created_at = now\<rparr>]\<rparr>"

definition append_event_transaction :: "string \<Rightarrow> agent_event_kind \<Rightarrow> json \<Rightarrow> nat \<Rightarrow> (agent_event \<times> nat) action" where
  "append_event_transaction r kind payload now =
    andthen (finds (\<lambda>db. row_of ar_id r (a_runs db)) (SRunNotFound r)) (\<lambda>run.
    andthen (reads (next_run_seq r)) (\<lambda>n.
    andthen (modifies (push_event r kind payload now)) (\<lambda>_.
    andthen (append_workspace_event_transaction (as_str agent_event_kind_tab kind) (Some (ar_project run))
               (Some (ar_conversation run)) (Some r) payload now) (\<lambda>cursor.
    returns (\<lparr>ae_run = r, ae_seq = n, ae_kind = kind, ae_payload = payload, ae_created_at = now\<rparr>, cursor)))))"

definition append_event :: "string \<Rightarrow> agent_event_kind \<Rightarrow> json \<Rightarrow> nat \<Rightarrow> agent_event action" where
  "append_event r kind payload now =
    andthen (atomically (append_event_transaction r kind payload now)) (\<lambda>(event, cursor).
    andthen (publish_committed cursor) (\<lambda>_. returns event))"

definition run_events_from :: "string \<Rightarrow> nat \<Rightarrow> agent_db \<Rightarrow> agent_event list" where
  "run_events_from r cursor db = sort_key ae_seq (filter (\<lambda>e. ae_run e = r \<and> ae_seq e > cursor) (a_events db))"

definition events_after :: "string \<Rightarrow> nat \<Rightarrow> agent_event list action" where
  "events_after r cursor = andthen (sqlite_cursor ''event cursor'' cursor) (\<lambda>_. reads (run_events_from r cursor))"

end
