(* ===== verification/AgentRuns.thy ===== *)
theory AgentRuns
  imports AgentLog
begin

text \<open>
  The runs of the agent store (\<open>agent_store/runs.rs\<close>): starting a run, its status, its exactly-once
  end, checkpoints, pages of history, the start-up recovery of \<open>mod.rs\<close>, and the turn boundaries of
  \<open>conversations.rs\<close>.  The runtime updates and state checkpoints, which go through the composer
  catalogue, are not modelled.
\<close>

subsection \<open>Statements on runs\<close>

definition run_active :: "run_status \<Rightarrow> bool" where
  "run_active s \<longleftrightarrow> s = RsRunning \<or> s = RsWaiting"

definition upd_runs :: "(agent_run \<Rightarrow> bool) \<Rightarrow> (agent_run \<Rightarrow> agent_run) \<Rightarrow> agent_db \<Rightarrow> agent_db" where
  "upd_runs P f db = db\<lparr>a_runs := update_where P f (a_runs db)\<rparr>"

definition existing_run_by_client_message_id :: "string option \<Rightarrow> agent_db \<Rightarrow> agent_run option" where
  "existing_run_by_client_message_id m db =
    (case m of None \<Rightarrow> None | Some k \<Rightarrow> find (\<lambda>r. ar_client r = Some k) (a_runs db))"

definition has_active_run :: "string \<Rightarrow> agent_db \<Rightarrow> bool" where
  "has_active_run c db = list_ex (\<lambda>r. ar_conversation r = c \<and> run_active (ar_status r)) (a_runs db)"

definition new_run :: "string \<Rightarrow> string \<Rightarrow> string \<Rightarrow> string \<Rightarrow> permission_mode \<Rightarrow> bool \<Rightarrow> string option \<Rightarrow> nat \<Rightarrow> agent_run" where
  "new_run uuid c p message mode internal client now =
    \<lparr>ar_id = uuid, ar_conversation = c, ar_project = p, ar_message = message, ar_status = RsRunning, ar_mode = mode,
     ar_error = None, ar_internal = internal, ar_client = client, ar_cause = None, ar_started_at = now,
     ar_completed_at = None\<rparr>"

text \<open>The conversation of a run exists: the callers have just read it.\<close>

definition insert_run :: "agent_run \<Rightarrow> unit action" where
  "insert_run run =
    andthen (requires (\<lambda>db. \<not> has_key ar_id (ar_id run) (a_runs db)
                        \<and> has_key cv_id (ar_conversation run) (a_conversations db)) SDatabase) (\<lambda>_.
    modifies (\<lambda>db. db\<lparr>a_runs := a_runs db @ [run]\<rparr>))"

definition mode_payload :: "permission_mode \<Rightarrow> json" where
  "mode_payload mode = JObj [(''permission_mode'', JStr (as_str permission_mode_tab mode))]"

definition insert_run_transaction :: "string \<Rightarrow> string \<Rightarrow> string \<Rightarrow> string \<Rightarrow> permission_mode \<Rightarrow> bool \<Rightarrow> string option \<Rightarrow> nat \<Rightarrow> agent_run action" where
  "insert_run_transaction uuid c p message mode internal client now =
    (let run = new_run uuid c p message mode internal client now in
     andthen (insert_run run) (\<lambda>_.
     andthen (modifies (touch_conversation c now)) (\<lambda>_.
     andthen (append_event_transaction uuid AkRunStarted (mode_payload mode) now) (\<lambda>_.
     returns run))))"

definition conversation_of_project :: "string \<Rightarrow> string \<Rightarrow> unit action" where
  "conversation_of_project c p =
    andthen (finds (\<lambda>db. row_of cv_id c (a_conversations db)) (SConversationNotFound c)) (\<lambda>row.
    requires (\<lambda>_. cv_project row = p) (SConversationNotFound c))"

definition user_message_payload :: "agent_run \<Rightarrow> string \<Rightarrow> bool \<Rightarrow> json" where
  "user_message_payload run message internal =
    JObj ([(''run_id'', JStr (ar_id run)), (''text'', JStr message), (''internal'', JBool internal)]
      @ (case ar_client run of None \<Rightarrow> [] | Some k \<Rightarrow> [(''client_message_id'', JStr k)]))"

text \<open>What follows the commit of a started run.\<close>

definition announce_run :: "agent_run \<Rightarrow> string \<Rightarrow> bool \<Rightarrow> nat \<Rightarrow> nat \<Rightarrow> agent_run action" where
  "announce_run run message internal cursor now =
    andthen (publish_committed cursor) (\<lambda>_.
    andthen (if internal then returns None else set_agent_title_if_untitled (ar_conversation run) message now) (\<lambda>_.
    andthen (append_session_event (ar_conversation run) ''user_message'' (user_message_payload run message internal) now) (\<lambda>_.
    returns run)))"

definition start_run_with_visibility :: "string \<Rightarrow> string \<Rightarrow> string \<Rightarrow> permission_mode \<Rightarrow> bool \<Rightarrow> string option \<Rightarrow> string \<Rightarrow> nat \<Rightarrow> agent_run action" where
  "start_run_with_visibility c p message mode internal client uuid now =
    andthen (atomically (
      andthen (conversation_of_project c p) (\<lambda>_.
      andthen (reads (existing_run_by_client_message_id client)) (\<lambda>existing.
      case existing of
        Some run \<Rightarrow> returns (run, None)
      | None \<Rightarrow>
          andthen (requires (\<lambda>db. \<not> has_active_run c db) (SActiveRun p)) (\<lambda>_.
          let run = new_run uuid c p message mode internal client now in
          andthen (insert_run run) (\<lambda>_.
          andthen (modifies (touch_conversation c now)) (\<lambda>_.
          andthen (append_event_transaction uuid AkRunStarted (mode_payload mode) now) (\<lambda>(_, cursor).
          returns (run, Some cursor))))))))) (\<lambda>(run, started).
    case started of
      None \<Rightarrow> returns run
    | Some cursor \<Rightarrow> announce_run run message internal cursor now)"

abbreviation start_run :: "string \<Rightarrow> string \<Rightarrow> string \<Rightarrow> permission_mode \<Rightarrow> string \<Rightarrow> nat \<Rightarrow> agent_run action" where
  "start_run c p message mode uuid now \<equiv> start_run_with_visibility c p message mode False None uuid now"

abbreviation start_run_with_client_message_id :: "string \<Rightarrow> string \<Rightarrow> string \<Rightarrow> permission_mode \<Rightarrow> string option \<Rightarrow> string \<Rightarrow> nat \<Rightarrow> agent_run action" where
  "start_run_with_client_message_id c p message mode client uuid now \<equiv>
    start_run_with_visibility c p message mode False client uuid now"

abbreviation start_internal_run :: "string \<Rightarrow> string \<Rightarrow> string \<Rightarrow> permission_mode \<Rightarrow> string \<Rightarrow> nat \<Rightarrow> agent_run action" where
  "start_internal_run c p message mode uuid now \<equiv> start_run_with_visibility c p message mode True None uuid now"

subsection \<open>Reading runs\<close>

definition run_by_client_message_id :: "string \<Rightarrow> agent_db \<Rightarrow> agent_run option" where
  "run_by_client_message_id k db = find (\<lambda>r. ar_client r = Some k) (a_runs db)"

definition get_run :: "string \<Rightarrow> agent_run action" where
  "get_run r = finds (\<lambda>db. row_of ar_id r (a_runs db)) (SRunNotFound r)"

definition list_runs :: "string \<Rightarrow> agent_run list action" where
  "list_runs c = andthen (get_conversation c) (\<lambda>_. reads (\<lambda>db. filter (\<lambda>r. ar_conversation r = c) (a_runs db)))"

definition list_project_runs :: "string \<Rightarrow> agent_db \<Rightarrow> agent_run list" where
  "list_project_runs p db = filter (\<lambda>r. ar_project r = p) (a_runs db)"

text \<open>The rows below the \<open>rowid\<close> of a run are the rows before it in the table.\<close>

definition rows_before :: "string \<Rightarrow> string option \<Rightarrow> agent_db \<Rightarrow> agent_run list" where
  "rows_before c before db = filter (\<lambda>r. ar_conversation r = c)
     (case before of None \<Rightarrow> a_runs db | Some b \<Rightarrow> takeWhile (\<lambda>r. ar_id r \<noteq> b) (a_runs db))"

definition page_of :: "nat \<Rightarrow> agent_run list \<Rightarrow> agent_run list \<times> bool" where
  "page_of limit rows =
    (let newest = take (limit + 1) (rev rows); has_more = length newest > limit in
     (rev (if has_more then butlast newest else newest), has_more))"

definition runs_page :: "string \<Rightarrow> string option \<Rightarrow> nat \<Rightarrow> (agent_run list \<times> bool) action" where
  "runs_page c before limit =
    andthen (case before of None \<Rightarrow> returns () | Some b \<Rightarrow>
        requires (\<lambda>db. list_ex (\<lambda>r. ar_id r = b \<and> ar_conversation r = c) (a_runs db)) (SRunNotFound b)) (\<lambda>_.
    andthen (requires (\<lambda>_. limit + 1 < 2 ^ 63) (SInvalidStoredValue ''run page size exceeds SQLite range'')) (\<lambda>_.
    reads (\<lambda>db. page_of limit (rows_before c before db))))"

definition list_runs_page :: "string \<Rightarrow> string option \<Rightarrow> nat \<Rightarrow> (agent_run list \<times> bool) action" where
  "list_runs_page c before limit = andthen (get_conversation c) (\<lambda>_. runs_page c before limit)"

record history_snapshot =
  hs_runs :: "agent_run list"
  hs_has_more :: bool
  hs_run_events :: "agent_event list list"
  hs_session_events :: "session_event list"
  hs_cursor :: nat

definition conversation_history_snapshot :: "string \<Rightarrow> string option \<Rightarrow> nat \<Rightarrow> history_snapshot action" where
  "conversation_history_snapshot c before limit =
    andthen (get_conversation c) (\<lambda>_.
    andthen (runs_page c before limit) (\<lambda>(runs, more).
    reads (\<lambda>db. \<lparr>hs_runs = runs, hs_has_more = more, hs_run_events = map (\<lambda>r. run_events_from (ar_id r) 0 db) runs,
                 hs_session_events = session_events_from c 0 db, hs_cursor = latest_workspace_event_id db\<rparr>)))"

subsection \<open>The status of a run\<close>

definition set_run_status :: "string \<Rightarrow> run_status \<Rightarrow> unit action" where
  "set_run_status r status =
    andthen (reads (\<lambda>db. list_ex (\<lambda>x. ar_id x = r \<and> run_active (ar_status x)) (a_runs db))) (\<lambda>moves.
    if moves then modifies (upd_runs (\<lambda>x. ar_id x = r \<and> run_active (ar_status x)) (\<lambda>x. x\<lparr>ar_status := status\<rparr>))
    else requires (\<lambda>db. has_key ar_id r (a_runs db)) (SRunNotFound r))"

definition opt_str :: "string option \<Rightarrow> json" where
  "opt_str m = (case m of None \<Rightarrow> JNull | Some s \<Rightarrow> JStr s)"

definition ended_payload :: "run_status \<Rightarrow> string option \<Rightarrow> terminal_cause \<Rightarrow> json" where
  "ended_payload status err cause =
    JObj [(''status'', JStr (as_str run_status_tab status)), (''error'', opt_str err),
          (''cause'', JStr (as_str terminal_cause_tab cause))]"

definition ended_run :: "run_status \<Rightarrow> string option \<Rightarrow> terminal_cause \<Rightarrow> nat \<Rightarrow> agent_run \<Rightarrow> agent_run" where
  "ended_run status err cause now x =
    x\<lparr>ar_status := status, ar_error := err, ar_cause := Some cause, ar_completed_at := Some now\<rparr>"

definition finish_run :: "string \<Rightarrow> run_status \<Rightarrow> string option \<Rightarrow> terminal_cause \<Rightarrow> nat \<Rightarrow> bool action" where
  "finish_run r status err cause now =
    andthen (atomically (
      andthen (reads (\<lambda>db. list_ex (\<lambda>x. ar_id x = r \<and> run_active (ar_status x)) (a_runs db))) (\<lambda>moves.
      if \<not> moves then
        andthen (requires (\<lambda>db. has_key ar_id r (a_runs db)) (SRunNotFound r)) (\<lambda>_. returns None)
      else
        andthen (modifies (upd_runs (\<lambda>x. ar_id x = r \<and> run_active (ar_status x)) (ended_run status err cause now))) (\<lambda>_.
        andthen (append_event_transaction r AkRunCompleted (ended_payload status err cause) now) (\<lambda>(_, cursor).
        returns (Some cursor)))))) (\<lambda>done_at.
    case done_at of
      None \<Rightarrow> returns False
    | Some cursor \<Rightarrow> andthen (publish_committed cursor) (\<lambda>_. returns True))"

definition set_run_checkpoint :: "string \<Rightarrow> string option \<Rightarrow> string option \<Rightarrow> unit action" where
  "set_run_checkpoint r before after_tree =
    andthen (get_run r) (\<lambda>_.
    modifies (\<lambda>db. if has_key ck_run r (a_checkpoints db)
      then db\<lparr>a_checkpoints := update_where (\<lambda>x. ck_run x = r)
             (\<lambda>x. x\<lparr>ck_before := (case before of None \<Rightarrow> ck_before x | Some t \<Rightarrow> Some t),
                   ck_after := (case after_tree of None \<Rightarrow> ck_after x | Some t \<Rightarrow> Some t)\<rparr>) (a_checkpoints db)\<rparr>
      else db\<lparr>a_checkpoints := a_checkpoints db @ [\<lparr>ck_run = r, ck_before = before, ck_after = after_tree\<rparr>]\<rparr>))"

definition run_checkpoint :: "string \<Rightarrow> checkpoint_row option action" where
  "run_checkpoint r = andthen (get_run r) (\<lambda>_. reads (\<lambda>db. row_of ck_run r (a_checkpoints db)))"

subsection \<open>Turn boundaries\<close>

definition run_of_event :: "session_event \<Rightarrow> string option" where
  "run_of_event e = Option.bind (json_get ''run_id'' (se_payload e)) json_str"

definition resolve_turn_boundary :: "string \<Rightarrow> string \<Rightarrow> (nat \<times> nat) action" where
  "resolve_turn_boundary c r =
    andthen (get_conversation c) (\<lambda>_.
    andthen (get_run r) (\<lambda>run.
    andthen (requires (\<lambda>_. ar_conversation run = c) (SRunNotFound r)) (\<lambda>_.
    andthen (requires (\<lambda>_. \<not> run_active (ar_status run)) (SForkUnavailable ''the turn is still open'')) (\<lambda>_.
    andthen (session_events_after c 0) (\<lambda>events.
    let target = map se_seq (filter (\<lambda>e. run_of_event e = Some r) events) in
    andthen (requires (\<lambda>_. target \<noteq> []) (SForkUnavailable ''the turn has no transcript events'')) (\<lambda>_.
    let last = foldr max target 0; first = foldr min target last in
    returns (top_seq (filter (\<lambda>s. s < first) (map se_seq events)), last)))))))"

subsection \<open>Start-up\<close>

definition interrupt_run :: "nat \<Rightarrow> string \<Rightarrow> unit action" where
  "interrupt_run now r =
    andthen (modifies (upd_runs (\<lambda>x. ar_id x = r)
       (ended_run RsInterrupted (Some ''server restarted'') TcInterrupted now))) (\<lambda>_.
    andthen (append_event_transaction r AkRunCompleted
               (ended_payload RsInterrupted (Some ''server restarted'') TcInterrupted) now) (\<lambda>_.
    returns ()))"

definition broadcast_idle :: "nat \<Rightarrow> string \<Rightarrow> unit action" where
  "broadcast_idle now r =
    attempts (andthen (get_run r) (\<lambda>run.
      append_workspace_event ''conversation_state'' (Some (ar_project run)) (Some (ar_conversation run)) (Some r)
        (JObj [(''conversation_id'', JStr (ar_conversation run)), (''streaming'', JBool False), (''pending'', JNull),
               (''cause'', JStr ''interrupted'')]) now))"

end
