(* ===== verification/AgentQueue.thy ===== *)
theory AgentQueue
  imports AgentRuns
begin

text \<open>
  The durable prompt queue (\<open>agent_store/prompt_queue.rs\<close>): admission of a prompt, the queue of a
  conversation, claiming and draining, sub-agent conversations, the delivery projection of
  \<open>agent_store/attention.rs\<close>, the drain of the runtime (\<open>agent_runtime/dispatch.rs\<close>) and the
  start-up recovery of \<open>agent_store/mod.rs\<close>.
\<close>

subsection \<open>Statements on the queue\<close>

definition upd_queue :: "(queue_item \<Rightarrow> bool) \<Rightarrow> (queue_item \<Rightarrow> queue_item) \<Rightarrow> agent_db \<Rightarrow> agent_db" where
  "upd_queue P f db = db\<lparr>a_queue := update_where P f (a_queue db)\<rparr>"

definition pending_item :: "string \<Rightarrow> queue_item \<Rightarrow> bool" where
  "pending_item c q \<longleftrightarrow> qi_conversation q = c \<and> qi_status q = QsPending"

text \<open>\<open>ORDER BY position, rowid\<close>: a stable sort of the table.\<close>

definition queued_prompts :: "string \<Rightarrow> agent_db \<Rightarrow> queue_item list" where
  "queued_prompts c db = sort_key qi_position (filter (pending_item c) (a_queue db))"

abbreviation list_queued_prompts :: "string \<Rightarrow> queue_item list action" where
  "list_queued_prompts c \<equiv> reads (queued_prompts c)"

definition prompt_queue_entries :: "string \<Rightarrow> agent_db \<Rightarrow> queue_item list" where
  "prompt_queue_entries c db = sort_key qi_position (filter (\<lambda>q. qi_conversation q = c) (a_queue db))"

definition next_position :: "string \<Rightarrow> agent_db \<Rightarrow> int" where
  "next_position c db = (case map qi_position (filter (\<lambda>q. qi_conversation q = c) (a_queue db)) of
     [] \<Rightarrow> 0 | p # ps \<Rightarrow> foldr max ps p) + 1"

definition new_item :: "string \<Rightarrow> string \<Rightarrow> string \<Rightarrow> string \<Rightarrow> int \<Rightarrow> bool \<Rightarrow> string option \<Rightarrow> nat \<Rightarrow> queue_item" where
  "new_item uuid c p content position internal client now =
    \<lparr>qi_id = uuid, qi_conversation = c, qi_project = p, qi_content = content, qi_status = QsPending,
     qi_position = position, qi_internal = internal, qi_client = client, qi_created_at = now\<rparr>"

definition insert_queue_item :: "string \<Rightarrow> string \<Rightarrow> string \<Rightarrow> string \<Rightarrow> bool \<Rightarrow> string option \<Rightarrow> nat \<Rightarrow> queue_item action" where
  "insert_queue_item uuid c p content internal client now =
    andthen (reads (next_position c)) (\<lambda>position.
    let item = new_item uuid c p content position internal client now in
    andthen (requires (\<lambda>db. \<not> has_key qi_id uuid (a_queue db)) SDatabase) (\<lambda>_.
    andthen (modifies (\<lambda>db. db\<lparr>a_queue := a_queue db @ [item]\<rparr>)) (\<lambda>_.
    returns item)))"

definition queue_item_by_client_message_id :: "string \<Rightarrow> agent_db \<Rightarrow> queue_item option" where
  "queue_item_by_client_message_id k db = find (\<lambda>q. qi_client q = Some k) (a_queue db)"

definition require_pending_item :: "string \<Rightarrow> queue_item action" where
  "require_pending_item i =
    andthen (finds (\<lambda>db. row_of qi_id i (a_queue db)) (SQueueItemNotFound i)) (\<lambda>item.
    andthen (requires (\<lambda>_. qi_status item = QsPending)
               (SQueueItemNotActionable ''queue item has already been claimed'')) (\<lambda>_.
    returns item))"

subsection \<open>Admission\<close>

definition known_prompt :: "string option \<Rightarrow> agent_db \<Rightarrow> start_outcome option" where
  "known_prompt client db = (case client of None \<Rightarrow> None | Some k \<Rightarrow>
     (case existing_run_by_client_message_id (Some k) db of Some run \<Rightarrow> Some (Started run)
      | None \<Rightarrow> map_option Queued (queue_item_by_client_message_id k db)))"

text \<open>
  The transaction of the admission.  \<open>insert_run_transaction\<close> already touches the conversation and
  records the start of the run; the code does both a second time.
\<close>

definition admit_prompt :: "string \<Rightarrow> string \<Rightarrow> string \<Rightarrow> permission_mode \<Rightarrow> bool \<Rightarrow> string option \<Rightarrow> string \<Rightarrow> nat \<Rightarrow> (start_outcome \<times> nat option) action" where
  "admit_prompt c p message mode internal client uuid now =
    andthen (conversation_of_project c p) (\<lambda>_.
    andthen (reads (known_prompt client)) (\<lambda>known.
    case known of
      Some outcome \<Rightarrow> returns (outcome, None)
    | None \<Rightarrow>
        andthen (reads (has_active_run c)) (\<lambda>active.
        if active then
          andthen (insert_queue_item uuid c p message internal client now) (\<lambda>item.
          returns (Queued item, None))
        else
          andthen (insert_run_transaction uuid c p message mode internal client now) (\<lambda>run.
          andthen (modifies (touch_conversation c now)) (\<lambda>_.
          andthen (append_event_transaction uuid AkRunStarted (mode_payload mode) now) (\<lambda>(_, cursor).
          returns (Started run, Some cursor)))))))"

definition start_prompt_or_enqueue :: "string \<Rightarrow> string \<Rightarrow> string \<Rightarrow> permission_mode \<Rightarrow> bool \<Rightarrow> string option \<Rightarrow> string \<Rightarrow> nat \<Rightarrow> start_outcome action" where
  "start_prompt_or_enqueue c p message mode internal client uuid now =
    andthen (atomically (admit_prompt c p message mode internal client uuid now)) (\<lambda>(outcome, started).
    case (outcome, started) of
      (Started run, Some cursor) \<Rightarrow> andthen (announce_run run message internal cursor now) (\<lambda>_. returns outcome)
    | _ \<Rightarrow> returns outcome)"

definition enqueue_prompt :: "string \<Rightarrow> string \<Rightarrow> string \<Rightarrow> bool \<Rightarrow> string option \<Rightarrow> string \<Rightarrow> nat \<Rightarrow> queue_item action" where
  "enqueue_prompt c p content internal client uuid now =
    atomically (andthen (conversation_of_project c p) (\<lambda>_. insert_queue_item uuid c p content internal client now))"

subsection \<open>The queue of a conversation\<close>

definition claim_next_queued_prompt :: "string \<Rightarrow> queue_item option action" where
  "claim_next_queued_prompt c =
    andthen (reads (queued_prompts c)) (\<lambda>waiting.
    case waiting of
      [] \<Rightarrow> returns None
    | item # _ \<Rightarrow>
        andthen (modifies (upd_queue (\<lambda>q. qi_id q = qi_id item) (\<lambda>q. q\<lparr>qi_status := QsClaimed\<rparr>))) (\<lambda>_.
        returns (Some item)))"

definition edit_queued_prompt :: "string \<Rightarrow> string \<Rightarrow> queue_item action" where
  "edit_queued_prompt i content =
    andthen (requires (\<lambda>_. trim content \<noteq> []) (SQueueItemNotActionable ''queued prompt content must not be empty'')) (\<lambda>_.
    andthen (require_pending_item i) (\<lambda>item.
    andthen (modifies (upd_queue (\<lambda>q. qi_id q = i) (\<lambda>q. q\<lparr>qi_content := content\<rparr>))) (\<lambda>_.
    returns (item\<lparr>qi_content := content\<rparr>))))"

definition remove_queued_prompt :: "string \<Rightarrow> unit action" where
  "remove_queued_prompt i =
    andthen (require_pending_item i) (\<lambda>item.
    modifies (\<lambda>db. db\<lparr>a_queue := delete_where (\<lambda>q. qi_id q = qi_id item) (a_queue db)\<rparr>))"

definition head_position :: "string \<Rightarrow> agent_db \<Rightarrow> int" where
  "head_position c db = (case map qi_position (filter (pending_item c) (a_queue db)) of
     [] \<Rightarrow> 0 | p # ps \<Rightarrow> foldr min ps p)"

definition move_queued_prompt_to_head :: "string \<Rightarrow> queue_item action" where
  "move_queued_prompt_to_head i =
    andthen (require_pending_item i) (\<lambda>item.
    andthen (reads (head_position (qi_conversation item))) (\<lambda>head.
    andthen (modifies (upd_queue (\<lambda>q. qi_id q = qi_id item) (\<lambda>q. q\<lparr>qi_position := head - 1\<rparr>))) (\<lambda>_.
    returns (item\<lparr>qi_position := head - 1\<rparr>))))"

text \<open>There is no check that the conversation is idle: the runtime claims at a turn boundary.\<close>

definition start_run_from_queue_item :: "queue_item \<Rightarrow> permission_mode \<Rightarrow> string \<Rightarrow> nat \<Rightarrow> agent_run action" where
  "start_run_from_queue_item item mode uuid now =
    (let c = qi_conversation item in
     andthen (atomically (
       andthen (conversation_of_project c (qi_project item)) (\<lambda>_.
       andthen (insert_run_transaction uuid c (qi_project item) (qi_content item) mode (qi_internal item) (qi_client item) now) (\<lambda>run.
       andthen (modifies (touch_conversation c now)) (\<lambda>_.
       andthen (append_event_transaction uuid AkRunStarted (mode_payload mode) now) (\<lambda>(_, cursor).
       returns (run, cursor))))))) (\<lambda>(run, cursor).
     announce_run run (qi_content item) (qi_internal item) cursor now))"

definition item_json :: "queue_item \<Rightarrow> json" where
  "item_json q = JObj ([(''id'', JStr (qi_id q)), (''conversation_id'', JStr (qi_conversation q)),
     (''project_id'', JStr (qi_project q)), (''content'', JStr (qi_content q)),
     (''status'', JStr (as_str queue_status_tab (qi_status q))), (''position'', JNum (qi_position q)),
     (''internal'', JBool (qi_internal q))]
     @ (case qi_client q of None \<Rightarrow> [] | Some k \<Rightarrow> [(''client_message_id'', JStr k)])
     @ [(''created_at'', JNum (int (qi_created_at q)))])"

definition publish_prompt_queue_snapshot :: "string \<Rightarrow> nat \<Rightarrow> unit action" where
  "publish_prompt_queue_snapshot c now =
    andthen (list_queued_prompts c) (\<lambda>items.
    andthen (get_conversation c) (\<lambda>row.
    andthen (append_workspace_event ''prompt_queue'' (Some (cv_project row)) (Some c) None
               (JObj [(''items'', JArr (map item_json items))]) now) (\<lambda>_.
    returns ())))"

definition reset_orphaned_queue_claims :: "string list action" where
  "reset_orphaned_queue_claims =
    andthen (reads (\<lambda>db. remdups (map qi_conversation (filter (\<lambda>q. qi_status q = QsClaimed) (a_queue db))))) (\<lambda>cs.
    if cs = [] then returns []
    else andthen (modifies (upd_queue (\<lambda>q. qi_status q = QsClaimed) (\<lambda>q. q\<lparr>qi_status := QsPending\<rparr>))) (\<lambda>_. returns cs))"

text \<open>
  The drain of the runtime (\<open>dispatch.rs\<close>): claim, publish, start.  When the start fails the prompt
  stays claimed.
\<close>

definition drain_next :: "string \<Rightarrow> string \<Rightarrow> nat \<Rightarrow> agent_run option action" where
  "drain_next c uuid now =
    andthen (claim_next_queued_prompt c) (\<lambda>claimed.
    case claimed of
      None \<Rightarrow> returns None
    | Some item \<Rightarrow>
        andthen (attempts (publish_prompt_queue_snapshot c now)) (\<lambda>_ db.
        case start_run_from_queue_item item Safe uuid now db of
          (Inl _, db1) \<Rightarrow> (Inr None, db1)
        | (Inr run, db1) \<Rightarrow> (Inr (Some run), db1)))"

subsection \<open>The delivery projection\<close>

datatype admission = AdStarted string run_status | AdQueued string nat

definition prompt_admission :: "string \<Rightarrow> agent_db \<Rightarrow> admission option" where
  "prompt_admission k db =
    (case find (\<lambda>r. ar_client r = Some k) (a_runs db) of
       Some r \<Rightarrow> Some (AdStarted (ar_id r) (ar_status r))
     | None \<Rightarrow>
        (case find (\<lambda>iq. qi_client (snd iq) = Some k \<and> qi_status (snd iq) = QsPending) (enumerate 0 (a_queue db)) of
           None \<Rightarrow> None
         | Some (n, q) \<Rightarrow> Some (AdQueued (qi_id q)
             (count_where (\<lambda>(m, o'). pending_item (qi_conversation q) o'
                \<and> (qi_position o' < qi_position q \<or> qi_position o' = qi_position q \<and> m < n))
              (enumerate 0 (a_queue db)) + 1))))"

definition dm_queued :: "string \<Rightarrow> agent_db \<Rightarrow> queue_item list" where
  "dm_queued c db = filter (\<lambda>q. case qi_client q of None \<Rightarrow> False | Some k \<Rightarrow> take 9 k = ''route:dm:'') (queued_prompts c db)"

definition conversation_activity :: "string \<Rightarrow> agent_db \<Rightarrow> nat \<times> string option" where
  "conversation_activity c db =
    (let rows = filter (\<lambda>r. ar_conversation r = c \<and> \<not> ar_internal r) (a_runs db) in
     (length rows, if rows = [] then None else Some (ar_id (last rows))))"

subsection \<open>Conversations\<close>

definition new_conversation :: "string \<Rightarrow> string \<Rightarrow> agent_id \<Rightarrow> string option \<Rightarrow> nat \<Rightarrow> conversation" where
  "new_conversation uuid p a title now =
    \<lparr>cv_id = uuid, cv_agent_session = uuid, cv_project = p, cv_agent = a, cv_provider = None,
     cv_stored_title = (case normalized_conversation_title title of None \<Rightarrow> [] | Some t \<Rightarrow> t),
     cv_manual_title = normalized_conversation_title title, cv_agent_title = None,
     cv_created_at = now, cv_updated_at = now, cv_archived = False, cv_parent = None, cv_relationship = None,
     cv_read_only = False, cv_execution = EmShared, cv_workspace = None, cv_recreated = False, cv_fork_run = None,
     cv_fork_path = None, cv_prefix = None, cv_internal_revision = False\<rparr>"

definition insert_conversation :: "conversation \<Rightarrow> unit action" where
  "insert_conversation row =
    andthen (requires (\<lambda>db. \<not> has_key cv_id (cv_id row) (a_conversations db)) SDatabase) (\<lambda>_.
    modifies (\<lambda>db. db\<lparr>a_conversations := a_conversations db @ [row]\<rparr>))"

definition create_conversation :: "string \<Rightarrow> agent_id \<Rightarrow> string option \<Rightarrow> string \<Rightarrow> nat \<Rightarrow> conversation action" where
  "create_conversation p a title uuid now =
    (let row = new_conversation uuid p a title now in
     andthen (insert_conversation row) (\<lambda>_.
     andthen (append_workspace_event ''session_created'' (Some p) (Some uuid) None
       (JObj [(''agent_id'', JStr (as_str agent_id_tab a)), (''title'', JStr (cv_stored_title row))]) now) (\<lambda>_.
     get_conversation uuid)))"

definition set_conversation_title :: "string \<Rightarrow> bool \<Rightarrow> string option \<Rightarrow> nat \<Rightarrow> conversation action" where
  "set_conversation_title c manual title now =
    andthen (requires (\<lambda>db. has_key cv_id c (a_conversations db)) (SConversationNotFound c)) (\<lambda>_.
    andthen (modifies (upd_conversations (\<lambda>x. cv_id x = c)
      (\<lambda>x. if manual then x\<lparr>cv_manual_title := title, cv_updated_at := now\<rparr>
           else x\<lparr>cv_agent_title := title, cv_updated_at := now\<rparr>))) (\<lambda>_.
    andthen (get_conversation c) (\<lambda>row.
    andthen (append_workspace_event ''session_updated'' (Some (cv_project row)) (Some c) None
               (JObj [(''title'', JStr (shown_title row))]) now) (\<lambda>_.
    returns row))))"

definition set_manual_title :: "string \<Rightarrow> string option \<Rightarrow> nat \<Rightarrow> conversation action" where
  "set_manual_title c title now = set_conversation_title c True (normalized_conversation_title title) now"

definition set_agent_title :: "string \<Rightarrow> string option \<Rightarrow> nat \<Rightarrow> conversation action" where
  "set_agent_title c title now = set_conversation_title c False (normalized_conversation_title title) now"

definition set_provider_session :: "string \<Rightarrow> string \<Rightarrow> nat \<Rightarrow> unit action" where
  "set_provider_session c provider now =
    andthen (requires (\<lambda>db. has_key cv_id c (a_conversations db)) (SConversationNotFound c)) (\<lambda>_.
    modifies (upd_conversations (\<lambda>x. cv_id x = c) (\<lambda>x. x\<lparr>cv_provider := Some provider, cv_updated_at := now\<rparr>)))"

subsection \<open>Sub-agent conversations\<close>

definition find_provider_conversation :: "string \<Rightarrow> agent_id \<Rightarrow> string \<Rightarrow> agent_db \<Rightarrow> conversation option" where
  "find_provider_conversation p a provider db =
    find (\<lambda>x. cv_project x = p \<and> cv_agent x = a \<and> cv_provider x = Some provider \<and> \<not> cv_internal_revision x)
      (a_conversations db)"

text \<open>\<open>quote\<close> is the JSON text of a string (\<open>json!(prompt).to_string()\<close>).\<close>

definition subagent_row :: "(string \<Rightarrow> string) \<Rightarrow> string \<Rightarrow> conversation \<Rightarrow> string \<Rightarrow> string \<Rightarrow> string option \<Rightarrow> string \<Rightarrow> nat \<Rightarrow> conversation" where
  "subagent_row quote uuid parent sub title agent_title prompt now =
    \<lparr>cv_id = uuid, cv_agent_session = uuid, cv_project = cv_project parent, cv_agent = cv_agent parent,
     cv_provider = Some sub, cv_stored_title = title, cv_manual_title = None, cv_agent_title = agent_title,
     cv_created_at = now, cv_updated_at = now, cv_archived = False, cv_parent = Some (cv_id parent),
     cv_relationship = Some ReSubagent, cv_read_only = False, cv_execution = EmShared, cv_workspace = None,
     cv_recreated = False, cv_fork_run = None, cv_fork_path = None, cv_prefix = Some (quote prompt),
     cv_internal_revision = False\<rparr>"

definition subagent_title :: "string \<Rightarrow> string \<Rightarrow> string option" where
  "subagent_title name sub = (case normalized_conversation_title (Some name) of
     Some t \<Rightarrow> Some t
   | None \<Rightarrow> map_option (\<lambda>s. ''Subagent '' @ s) (byte_prefix 8 sub))"

definition ensure_subagent_conversation :: "(string \<Rightarrow> string) \<Rightarrow> string \<Rightarrow> string \<Rightarrow> string \<Rightarrow> string \<Rightarrow> string \<Rightarrow> nat \<Rightarrow> conversation action" where
  "ensure_subagent_conversation quote parent_id sub name prompt uuid now =
    andthen (get_conversation parent_id) (\<lambda>parent.
    andthen (reads (find_provider_conversation (cv_project parent) (cv_agent parent) sub)) (\<lambda>found.
    case found of
      Some existing \<Rightarrow>
        if name \<noteq> [] \<and> shown_title existing = [] then
          andthen (modifies (upd_conversations (\<lambda>x. cv_id x = cv_id existing)
              (\<lambda>x. x\<lparr>cv_stored_title := name, cv_agent_title := Some name\<rparr>))) (\<lambda>_.
          returns (existing\<lparr>cv_stored_title := name, cv_agent_title := Some name\<rparr>))
        else returns existing
    | None \<Rightarrow>
        andthen (finds (\<lambda>_. subagent_title name sub) SPanic) (\<lambda>title.
        let row = subagent_row quote uuid parent sub title (normalized_conversation_title (Some name)) prompt now in
        andthen (insert_conversation row) (\<lambda>_.
        andthen (append_workspace_event ''session_imported'' (Some (cv_project parent)) (Some uuid) None
          (JObj [(''agent_id'', JStr (as_str agent_id_tab (cv_agent parent))), (''provider_session_id'', JStr sub),
                 (''parent_conversation_id'', JStr (cv_id parent))]) now) (\<lambda>_.
        returns row)))))"

definition emit_subagent_update :: "string \<Rightarrow> string \<Rightarrow> string \<Rightarrow> string \<Rightarrow> string \<Rightarrow> string \<Rightarrow> nat \<Rightarrow> unit action" where
  "emit_subagent_update parent_id child sub name prompt status now =
    andthen (get_conversation parent_id) (\<lambda>parent.
    let payload = JObj [(''sessionId'', JStr sub), (''name'', JStr name), (''prompt'', JStr prompt),
                        (''status'', JStr status), (''conversation_id'', JStr child)] in
    andthen (append_session_event parent_id ''subagent_update'' payload now) (\<lambda>_.
    andthen (append_workspace_event ''subagent_update'' (Some (cv_project parent)) (Some parent_id) None payload now) (\<lambda>_.
    returns ())))"

definition list_subagent_conversations :: "string \<Rightarrow> agent_db \<Rightarrow> conversation list" where
  "list_subagent_conversations parent_id db =
    sort_key (\<lambda>x. (cv_created_at x, cv_id x))
      (filter (\<lambda>x. cv_parent x = Some parent_id \<and> cv_relationship x = Some ReSubagent) (a_conversations db))"

subsection \<open>Start-up\<close>

text \<open>
  \<open>interrupt_inflight_runs\<close>: the runs a previous process left active are ended in one transaction,
  their conversations are broadcast as idle, and the claimed prompts become pending again.
\<close>

definition interrupt_inflight_runs :: "nat \<Rightarrow> unit action" where
  "interrupt_inflight_runs now =
    andthen (reads (\<lambda>db. map ar_id (filter (\<lambda>r. run_active (ar_status r)) (a_runs db)))) (\<lambda>ids.
    andthen (atomically (foreach (interrupt_run now) ids)) (\<lambda>_.
    andthen (reads a_stream_seq) (\<lambda>cursor.
    andthen (if ids = [] then returns () else publish_committed cursor) (\<lambda>_.
    andthen (foreach (broadcast_idle now) ids) (\<lambda>_.
    andthen reset_orphaned_queue_claims (\<lambda>cs.
    foreach (\<lambda>c. attempts (publish_prompt_queue_snapshot c now)) cs))))))"

definition agent_store_boot :: "nat \<Rightarrow> unit action" where
  "agent_store_boot now =
    andthen (modifies (\<lambda>db. db\<lparr>a_bus := latest_workspace_event_id db\<rparr>)) (\<lambda>_. interrupt_inflight_runs now)"

end
