(* ===== verification/AgentSystem.thy ===== *)
theory AgentSystem
  imports AgentQueue
begin

text \<open>
  The agent store as a transition system.  A step runs one operation to its end, successful or not; the
  invariant of the event logs is proved operation by operation with the triples of the theory Actions.
\<close>

subsection \<open>Outcomes\<close>

lemma triple_outcome [triples]:
  "(\<And>r. x = Started r \<Longrightarrow> triple P (f r) Q E) \<Longrightarrow> (\<And>i. x = Queued i \<Longrightarrow> triple P (g i) Q E) \<Longrightarrow>
   triple P (case x of Started r \<Rightarrow> f r | Queued i \<Rightarrow> g i) Q E"
  by (cases x) simp_all

lemmas keeps_intros = keeps_rules triple_outcome

subsection \<open>The logs\<close>

definition run_log :: "string \<Rightarrow> agent_db \<Rightarrow> agent_event list" where
  "run_log r db = filter (\<lambda>e. ae_run e = r) (a_events db)"

definition session_log :: "string \<Rightarrow> agent_db \<Rightarrow> session_event list" where
  "session_log c db = filter (\<lambda>e. se_conversation e = c) (a_session_events db)"

text \<open>\<open>1, 2, 3, ...\<close> without a gap.\<close>

definition numbered :: "nat list \<Rightarrow> bool" where
  "numbered ns \<longleftrightarrow> ns = map Suc [0..<length ns]"

lemma numbered_simps [simp]:
  "numbered []" "numbered (ns @ [n]) \<longleftrightarrow> numbered ns \<and> n = Suc (length ns)"
  by (auto simp: numbered_def)

lemma top_seq_numbered: "numbered ns \<Longrightarrow> top_seq ns = length ns"
proof (induction ns rule: rev_induct)
  case (snoc n ns)
  have "foldr max xs (k::nat) = max k (foldr max xs 0)" for xs k by (induction xs) auto
  from this [of ns n] show ?case using snoc by (simp add: top_seq_def)
qed (simp add: top_seq_def)

definition logs_ok :: "agent_db \<Rightarrow> bool" where
  "logs_ok db \<longleftrightarrow>
    (\<forall>r. numbered (map ae_seq (run_log r db))) \<and> (\<forall>c. numbered (map se_seq (session_log c db))) \<and>
    numbered (map we_id (a_stream db)) \<and> a_stream_seq db = length (a_stream db) \<and> a_bus db \<le> a_stream_seq db"

lemma next_seqs:
  assumes "logs_ok db"
  shows "next_run_seq r db = Suc (length (run_log r db))" "next_session_seq c db = Suc (length (session_log c db))"
  using assms top_seq_numbered [of "map ae_seq (run_log r db)"] top_seq_numbered [of "map se_seq (session_log c db)"]
  by (simp_all add: logs_ok_def next_run_seq_def next_session_seq_def flip: run_log_def session_log_def)

lemma logs_push_event: "logs_ok db \<Longrightarrow> logs_ok (push_event r kind payload now db)"
  using next_seqs(1) [of db r] by (auto simp: logs_ok_def push_event_def run_log_def session_log_def)

lemma logs_push_session: "logs_ok db \<Longrightarrow> logs_ok (push_session c kind payload now db)"
  using next_seqs(2) [of db c] by (auto simp: logs_ok_def push_session_def run_log_def session_log_def)

lemma logs_push_stream: "logs_ok db \<Longrightarrow> logs_ok (push_stream kind p c r payload now db)"
  by (auto simp: logs_ok_def push_stream_def run_log_def session_log_def)

lemma logs_cong:
  "a_events db' = a_events db \<Longrightarrow> a_session_events db' = a_session_events db \<Longrightarrow> a_stream db' = a_stream db
   \<Longrightarrow> a_stream_seq db' = a_stream_seq db \<Longrightarrow> a_bus db' = a_bus db \<Longrightarrow> logs_ok db' = logs_ok db"
  by (simp add: logs_ok_def run_log_def session_log_def)

lemma logs_other [simp]:
  "logs_ok (upd_conversations P f db) = logs_ok db" "logs_ok (touch_conversation k now db) = logs_ok db"
  "logs_ok (upd_runs Q g db) = logs_ok db" "logs_ok (upd_queue R h db) = logs_ok db"
  "logs_ok (db\<lparr>a_runs := rs\<rparr>) = logs_ok db" "logs_ok (db\<lparr>a_queue := qs\<rparr>) = logs_ok db"
  "logs_ok (db\<lparr>a_conversations := cs\<rparr>) = logs_ok db" "logs_ok (db\<lparr>a_checkpoints := cks\<rparr>) = logs_ok db"
  by (simp_all add: logs_ok_def run_log_def session_log_def upd_conversations_def touch_conversation_def upd_runs_def upd_queue_def)

subsection \<open>Every operation keeps the logs\<close>

text \<open>
  \<open>at_cursor n\<close>: the newest event of the stream has number \<open>n\<close>; \<open>served\<close>: the bus has published it.
\<close>

definition at_cursor :: "nat \<Rightarrow> agent_db \<Rightarrow> bool" where
  "at_cursor n db \<longleftrightarrow> logs_ok db \<and> n = a_stream_seq db"

definition served :: "agent_db \<Rightarrow> bool" where
  "served db \<longleftrightarrow> logs_ok db \<and> a_bus db = a_stream_seq db"

lemma served_logs: "served db \<Longrightarrow> logs_ok db"
  by (simp add: served_def)

lemma push_session_sel [simp]:
  "a_bus (push_session c kind payload now db) = a_bus db" "a_stream_seq (push_session c kind payload now db) = a_stream_seq db"
  by (simp_all add: push_session_def)

lemma served_other [simp]:
  "served (upd_conversations P f db) = served db" "served (touch_conversation k now db) = served db"
  "served (upd_runs Q g db) = served db" "served (upd_queue R h db) = served db"
  "served (db\<lparr>a_runs := rs\<rparr>) = served db" "served (db\<lparr>a_queue := qs\<rparr>) = served db"
  "served (db\<lparr>a_conversations := cs\<rparr>) = served db" "served (db\<lparr>a_checkpoints := cks\<rparr>) = served db"
  by (simp_all add: served_def upd_conversations_def touch_conversation_def upd_runs_def upd_queue_def)

lemma triple_True: "triple P m Q E \<Longrightarrow> triple P m Q (\<lambda>_. True)"
  by (erule triple_weaken) simp_all

named_theorems log_ops "operations keep the logs and publish what they append"

lemma logs_stream [log_ops]:
  "triple logs_ok (append_workspace_event_transaction kind p c r payload now) at_cursor E"
  by (simp add: triple_def act_defs append_workspace_event_transaction_def logs_push_stream at_cursor_def)

lemma logs_publish [log_ops]: "triple (at_cursor n) (publish_committed n) (\<lambda>_. served) E"
  by (auto simp: triple_def act_defs publish_committed_def at_cursor_def served_def logs_ok_def run_log_def session_log_def)

lemma served_workspace_event [log_ops]: "triple logs_ok (append_workspace_event kind p c r payload now) (\<lambda>_. served) served"
  unfolding append_workspace_event_def
  by (rule triple_andthen [OF logs_stream], rule triple_andthen [OF logs_publish]) (rule keeps_basic)

lemma served_workspace_event' [log_ops]: "keeps served (append_workspace_event kind p c r payload now)"
  by (rule triple_weaken [OF served_workspace_event]) (auto simp: served_def)

lemma served_get [log_ops]: "keeps served (get_conversation c)" "keeps served (get_run r)"
  unfolding get_conversation_def get_run_def by (rule keeps_basic)+

lemma served_title [log_ops]: "keeps served (set_agent_title_if_untitled c source now)"
  unfolding set_agent_title_if_untitled_def
  by (intro keeps_intros keeps_modifies log_ops) simp_all

lemma served_session_event [log_ops]: "keeps served (append_session_event c kind payload now)"
  unfolding append_session_event_def
  by (intro keeps_intros keeps_modifies log_ops) (simp add: logs_push_session served_def)

lemma served_announce [log_ops]: "triple (at_cursor n) (announce_run run message internal n now) (\<lambda>_. served) served"
  unfolding announce_run_def
  by (rule triple_andthen [OF logs_publish]) (intro keeps_intros log_ops)

text \<open>Inside a transaction only the logs matter: what fails is rolled back.\<close>

lemma logs_append_event [log_ops]:
  "triple logs_ok (append_event_transaction r kind payload now) (\<lambda>(e, n). at_cursor n) logs_ok"
  unfolding append_event_transaction_def
  by (intro triple_andthen [where R = "\<lambda>_. logs_ok"] triple_andthen [OF logs_stream] triples logs_push_event) simp_all

lemma logs_event_kept [log_ops]: "keeps logs_ok (append_event_transaction r kind payload now)"
  by (rule triple_weaken [OF logs_append_event]) (auto simp: at_cursor_def)

lemma logs_insert_run [log_ops]:
  "keeps logs_ok (insert_run run)" "keeps logs_ok (insert_run_transaction uuid c p message mode internal client now)"
  unfolding insert_run_transaction_def insert_run_def
  by (intro keeps_intros keeps_modifies log_ops; simp)+

lemma logs_insert_item [log_ops]: "keeps logs_ok (insert_queue_item uuid c p content internal client now)"
  unfolding insert_queue_item_def by (intro keeps_intros keeps_modifies; simp)

lemma served_insert_item [log_ops]: "keeps served (insert_queue_item uuid c p content internal client now)"
  unfolding insert_queue_item_def by (intro keeps_intros keeps_modifies; simp)

lemma scoped [log_ops]: "keeps I (conversation_of_project c p)"
  unfolding conversation_of_project_def by (intro keeps_intros)

text \<open>Transactions that return the cursor to publish.\<close>

lemma logs_started [log_ops]:
  "triple logs_ok (andthen (append_event_transaction r kind payload now) (\<lambda>(e, n). returns (x, n))) (\<lambda>(y, n). at_cursor n) logs_ok"
  by (rule triple_andthen [OF logs_append_event]) (auto intro!: triples)

lemma served_start_run [log_ops]: "keeps served (start_run_with_visibility c p message mode internal client uuid now)"
proof -
  let ?Q = "\<lambda>(run, started) db. case started of None \<Rightarrow> served db | Some n \<Rightarrow> at_cursor n db"
  show ?thesis
    unfolding start_run_with_visibility_def Let_def
  proof (rule triple_andthen [where R = ?Q])
    show "triple served (atomically (andthen (conversation_of_project c p) (\<lambda>_.
        andthen (reads (existing_run_by_client_message_id client)) (\<lambda>existing. case existing of
          Some run \<Rightarrow> returns (run, None)
        | None \<Rightarrow> andthen (requires (\<lambda>db. \<not> has_active_run c db) (SActiveRun p)) (\<lambda>_.
            andthen (insert_run (new_run uuid c p message mode internal client now)) (\<lambda>_.
            andthen (modifies (touch_conversation c now)) (\<lambda>_.
            andthen (append_event_transaction uuid AkRunStarted (mode_payload mode) now) (\<lambda>(_, cursor).
            returns (new_run uuid c p message mode internal client now, Some cursor))))))))) ?Q served"
      apply (rule triple_atomically)
       apply (rule triple_andthen [where R = "\<lambda>_. served"])
        apply (rule triple_weaken [OF scoped [of served]]; simp)
       apply (rule triple_andthen [where R = "\<lambda>_. served"])
        apply (rule triple_reads, simp)
       apply (rule triple_option)
        apply (rule triple_andthen [where R = "\<lambda>_. logs_ok"])
         apply (rule triple_requires; simp add: served_logs)
        apply (rule triple_andthen [where R = "\<lambda>_. logs_ok"])
         apply (rule triple_weaken [OF logs_insert_run(1)]; simp)
        apply (rule triple_andthen [where R = "\<lambda>_. logs_ok"])
         apply (rule triple_modifies, simp)
        apply (rule triple_andthen [where R = "\<lambda>(_, n). at_cursor n"])
         apply (rule triple_weaken [OF logs_append_event]; simp)
        apply (auto intro!: triples)
      done
  next
    fix x show "triple (?Q x) (case x of (run, started) \<Rightarrow> case started of None \<Rightarrow> returns run
        | Some cursor \<Rightarrow> announce_run run message internal cursor now) (\<lambda>_. served) served"
      by (cases x) (auto intro!: triples log_ops split: option.splits)
  qed
qed

definition outcome_served :: "start_outcome \<times> nat option \<Rightarrow> agent_db \<Rightarrow> bool" where
  "outcome_served x db = (case x of
     (_, None) \<Rightarrow> served db | (Started _, Some n) \<Rightarrow> at_cursor n db | (Queued _, Some _) \<Rightarrow> False)"

lemma outcome_served_simps [simp]:
  "outcome_served (x, None) = served" "outcome_served (Started r, Some n) = at_cursor n"
  "outcome_served (Queued i, Some n) = (\<lambda>_. False)"
  by (auto simp: outcome_served_def fun_eq_iff split: start_outcome.splits)

lemma logs_run_recorded [log_ops]:
  "triple logs_ok (andthen (insert_run_transaction uuid c p message mode internal client now) (\<lambda>run.
     andthen (modifies (touch_conversation c now)) (\<lambda>_.
     andthen (append_event_transaction uuid AkRunStarted (mode_payload mode) now) (\<lambda>(_, cursor).
     returns (f run, g cursor))))) (\<lambda>x db. \<exists>run n. x = (f run, g n) \<and> at_cursor n db) logs_ok"
  apply (rule triple_andthen [where R = "\<lambda>_. logs_ok"], rule log_ops)
  apply (rule triple_andthen [where R = "\<lambda>_. logs_ok"], rule triple_modifies, simp)
  apply (rule triple_andthen, rule logs_append_event)
  apply (auto intro!: triples)
  done

lemma served_admit [log_ops]: "triple served (atomically (admit_prompt c p message mode internal client uuid now)) outcome_served served"
  unfolding admit_prompt_def
  apply (rule triple_atomically)
   apply (rule triple_andthen [OF triple_True [OF scoped [of served]]])
   apply (rule triple_andthen [where R = "\<lambda>_. served"], rule triple_reads, simp)
   apply (rule triple_option)
    apply (rule triple_andthen [where R = "\<lambda>_. served"], rule triple_reads, simp)
    apply (rule triple_if)
     apply (rule triple_andthen [OF triple_True [OF served_insert_item]])
     apply (rule triple_returns, simp)
    apply (rule triple_weaken [OF logs_run_recorded [where f = Started and g = Some]])
      apply (auto simp: served_logs intro!: triples)
  done

lemma served_start_prompt [log_ops]: "keeps served (start_prompt_or_enqueue c p message mode internal client uuid now)"
  unfolding start_prompt_or_enqueue_def
proof (rule triple_andthen [OF served_admit])
  fix x :: "start_outcome \<times> nat option"
  obtain o' m where x: "x = (o', m)" by (cases x)
  show "triple (outcome_served x) (case x of (outcome, started) \<Rightarrow> case (outcome, started) of
      (Started run, Some cursor) \<Rightarrow> andthen (announce_run run message internal cursor now) (\<lambda>_. returns outcome)
    | _ \<Rightarrow> returns outcome) (\<lambda>_. served) served"
  proof (cases o')
    case (Started run)
    show ?thesis
    proof (cases m)
      case (Some n)
      show ?thesis unfolding x Started Some
        by (auto simp: outcome_served_def intro!: triple_andthen [OF served_announce] keeps_basic)
    qed (auto simp: x Started outcome_served_def intro!: triples)
  next
    case (Queued i)
    then show ?thesis by (cases m) (auto simp: x outcome_served_def intro!: triples)
  qed
qed

lemma served_start_queued [log_ops]: "keeps served (start_run_from_queue_item item mode uuid now)"
  unfolding start_run_from_queue_item_def Let_def
proof (rule triple_andthen [where R = "\<lambda>(run, n). at_cursor n"])
  show "triple served (atomically (andthen (conversation_of_project (qi_conversation item) (qi_project item)) (\<lambda>_.
      andthen (insert_run_transaction uuid (qi_conversation item) (qi_project item) (qi_content item) mode
        (qi_internal item) (qi_client item) now) (\<lambda>run.
      andthen (modifies (touch_conversation (qi_conversation item) now)) (\<lambda>_.
      andthen (append_event_transaction uuid AkRunStarted (mode_payload mode) now) (\<lambda>(_, cursor).
      returns (run, cursor))))))) (\<lambda>(run, n). at_cursor n) served"
    apply (rule triple_atomically)
     apply (rule triple_andthen [OF triple_True [OF scoped [of served]]])
     apply (rule triple_weaken [OF logs_run_recorded [where f = "\<lambda>x. x" and g = "\<lambda>x. x"]])
       apply (auto simp: served_logs)
    done
qed (auto intro!: log_ops)

lemma served_finish [log_ops]: "keeps served (finish_run r status err cause now)"
  unfolding finish_run_def
proof (rule triple_andthen [where R = "\<lambda>m db. case m of None \<Rightarrow> served db | Some n \<Rightarrow> at_cursor n db"])
  show "triple served (atomically (andthen (reads (\<lambda>db. list_ex (\<lambda>x. ar_id x = r \<and> run_active (ar_status x)) (a_runs db)))
      (\<lambda>moves. if \<not> moves then andthen (requires (\<lambda>db. has_key ar_id r (a_runs db)) (SRunNotFound r)) (\<lambda>_. returns None)
       else andthen (modifies (upd_runs (\<lambda>x. ar_id x = r \<and> run_active (ar_status x)) (ended_run status err cause now))) (\<lambda>_.
         andthen (append_event_transaction r AkRunCompleted (ended_payload status err cause) now) (\<lambda>(_, cursor).
         returns (Some cursor)))))) (\<lambda>m db. case m of None \<Rightarrow> served db | Some n \<Rightarrow> at_cursor n db) served"
    apply (rule triple_atomically)
     apply (rule triple_andthen [where R = "\<lambda>_. served"], rule triple_reads, simp)
     apply (rule triple_if)
      apply (rule triple_andthen [where R = "\<lambda>_. served"], rule triple_requires, assumption, simp)
      apply (rule triple_returns, simp)
     apply (rule triple_andthen [where R = "\<lambda>_. logs_ok"], rule triple_modifies, simp add: served_logs)
     apply (rule triple_andthen [OF triple_True [OF logs_append_event]])
     apply (auto intro!: triples)
    done
next
  fix m show "triple (\<lambda>db. case m of None \<Rightarrow> served db | Some n \<Rightarrow> at_cursor n db)
      (case m of None \<Rightarrow> returns False | Some cursor \<Rightarrow> andthen (publish_committed cursor) (\<lambda>_. returns True)) (\<lambda>_. served) served"
    by (cases m) (auto intro!: keeps_basic triple_andthen [OF logs_publish])
qed

lemma served_append_event [log_ops]: "keeps served (append_event r kind payload now)"
  unfolding append_event_def
  apply (rule triple_andthen [where R = "\<lambda>(e, n). at_cursor n"])
   apply (rule triple_atomically)
    apply (rule triple_weaken [OF logs_append_event]; auto simp: served_logs)
   apply assumption
  apply (auto intro!: keeps_basic triple_andthen [OF logs_publish])
  done

lemma logs_latest: "logs_ok db \<Longrightarrow> latest_workspace_event_id db = a_stream_seq db"
  using top_seq_numbered [of "map we_id (a_stream db)"] by (simp add: latest_workspace_event_id_def top_seq_def logs_ok_def)

lemma served_queue_ops [log_ops]:
  "keeps served (enqueue_prompt c p content internal client uuid now)"
  "keeps served (claim_next_queued_prompt c)" "keeps served (edit_queued_prompt i content)"
  "keeps served (remove_queued_prompt i)" "keeps served (move_queued_prompt_to_head i)"
  "keeps served (publish_prompt_queue_snapshot c now)" "keeps served reset_orphaned_queue_claims"
  unfolding enqueue_prompt_def claim_next_queued_prompt_def edit_queued_prompt_def require_pending_item_def
    remove_queued_prompt_def move_queued_prompt_to_head_def publish_prompt_queue_snapshot_def reset_orphaned_queue_claims_def
  by (intro keeps_intros keeps_modifies log_ops; simp)+

lemma served_drain [log_ops]: "keeps served (drain_next c uuid now)"
proof -
  have start: "keeps served (\<lambda>db. case start_run_from_queue_item item Safe uuid now db of
      (Inl _, db1) \<Rightarrow> (Inr None, db1) | (Inr run, db1) \<Rightarrow> (Inr (Some run), db1))" for item
    using served_start_queued [of item Safe uuid now]
    by (fastforce simp: triple_def split: prod.splits sum.splits)
  show ?thesis unfolding drain_next_def by (intro keeps_intros log_ops start)
qed

lemma served_run_ops [log_ops]:
  "keeps served (set_run_status r status)" "keeps served (set_run_checkpoint r before after_tree)"
  unfolding set_run_status_def set_run_checkpoint_def
  by (intro keeps_intros keeps_modifies log_ops; simp)+

lemma served_conversation_ops [log_ops]:
  "keeps served (insert_conversation row)" "keeps served (create_conversation p a title uuid now)"
  "keeps served (set_conversation_title c manual title now)" "keeps served (set_provider_session c provider now)"
  "keeps served (ensure_subagent_conversation quote parent_id sub name prompt uuid now)"
  "keeps served (emit_subagent_update parent_id child sub name prompt status now)"
  unfolding insert_conversation_def create_conversation_def set_conversation_title_def set_provider_session_def
    ensure_subagent_conversation_def emit_subagent_update_def
  by (intro keeps_intros keeps_modifies log_ops; simp)+

lemma served_boot [log_ops]: "triple logs_ok (agent_store_boot now) (\<lambda>_. served) served"
proof -
  have interrupt: "keeps logs_ok (interrupt_run now r)" for r
    unfolding interrupt_run_def by (intro keeps_intros keeps_modifies log_ops; simp)
  have broadcast: "keeps served (broadcast_idle now r)" for r
    unfolding broadcast_idle_def by (intro keeps_intros log_ops)
  have rest: "keeps served (andthen (foreach (broadcast_idle now) ids) (\<lambda>_. andthen reset_orphaned_queue_claims
      (\<lambda>cs. foreach (\<lambda>c. attempts (publish_prompt_queue_snapshot c now)) cs)))" for ids
    by (intro keeps_intros broadcast log_ops)
  have batch: "triple served (atomically (foreach (interrupt_run now) ids))
      (\<lambda>_. if ids = [] then served else logs_ok) served" for ids
  proof (rule triple_atomically)
    show "triple served (foreach (interrupt_run now) ids) (\<lambda>_. if ids = [] then served else logs_ok) (\<lambda>_. True)"
    proof (cases "ids = []")
      case False
      show ?thesis
        by (rule triple_weaken [OF keeps_foreach [OF interrupt, where xs = ids]]) (auto simp: False served_logs)
    qed (auto intro!: triples)
  qed
  have main: "keeps served (interrupt_inflight_runs now)"
    unfolding interrupt_inflight_runs_def
    apply (rule keeps_andthen [OF keeps_basic(3)])
    subgoal for ids
      apply (rule triple_andthen [OF batch])
      apply (rule triple_andthen [where R = "\<lambda>n db. if ids = [] then served db else at_cursor n db"])
       apply (rule triple_reads, auto simp: at_cursor_def) [1]
      apply (rule triple_andthen [OF _ rest])
      apply (auto intro!: triples log_ops split: if_splits)
      done
    done
  show ?thesis
    unfolding agent_store_boot_def
    apply (rule triple_andthen [OF triple_modifies main])
    apply (auto simp: served_def logs_latest logs_ok_def run_log_def session_log_def)
    done
qed

end
