(* ===== verification/AgentInvariants.thy ===== *)
theory AgentInvariants
  imports AgentSystem
begin

text \<open>
  The operations of the agent store as steps, and what holds of runs: identifiers are unique, a run
  ends once, and an ended run never changes again.
\<close>

subsection \<open>Steps\<close>

datatype agent_op =
    Converse | StartRun | Prompt | EnqueuePrompt | Drain | ManageQueue | SetRunStatus | FinishRun | RunEvent
  | SessionEvent | Checkpoint | Boot

text \<open>
  A step runs an operation to its end; the database after a failed operation is the one its committed
  statements left.  The runtime sets an active status and finishes a run with a terminal one; it
  records neither the start nor the end of a run as an event of its own.
\<close>

inductive agent_step :: "agent_op \<Rightarrow> agent_db \<Rightarrow> agent_db \<Rightarrow> bool" where
  do_create_conversation: "agent_step Converse db (snd (create_conversation p a title uuid now db))"
| do_manual_title: "agent_step Converse db (snd (set_manual_title c title now db))"
| do_agent_title: "agent_step Converse db (snd (set_agent_title c title now db))"
| do_provider_session: "agent_step Converse db (snd (set_provider_session c provider now db))"
| do_ensure_subagent: "agent_step Converse db (snd (ensure_subagent_conversation quote c sub name prompt uuid now db))"
| do_subagent_update: "agent_step Converse db (snd (emit_subagent_update c child sub name prompt stat now db))"
| do_start_run: "agent_step StartRun db (snd (start_run_with_visibility c p message mode internal client uuid now db))"
| do_prompt: "agent_step Prompt db (snd (start_prompt_or_enqueue c p message mode internal client uuid now db))"
| do_enqueue: "agent_step EnqueuePrompt db (snd (enqueue_prompt c p message internal client uuid now db))"
| do_drain: "agent_step Drain db (snd (drain_next c uuid now db))"
| do_edit: "agent_step ManageQueue db (snd (edit_queued_prompt i message db))"
| do_remove: "agent_step ManageQueue db (snd (remove_queued_prompt i db))"
| do_move: "agent_step ManageQueue db (snd (move_queued_prompt_to_head i db))"
| do_snapshot: "agent_step ManageQueue db (snd (publish_prompt_queue_snapshot c now db))"
| do_set_status: "run_active status \<Longrightarrow> agent_step SetRunStatus db (snd (set_run_status r status db))"
| do_finish: "\<not> run_active status \<Longrightarrow> agent_step FinishRun db (snd (finish_run r status err cause now db))"
| do_append_event: "kind \<noteq> AkRunCompleted \<Longrightarrow> agent_step RunEvent db (snd (append_event r kind payload now db))"
| do_session_event: "agent_step SessionEvent db (snd (append_session_event c tag payload now db))"
| do_workspace_event: "agent_step SessionEvent db (snd (append_workspace_event tag po co ro payload now db))"
| do_checkpoint: "agent_step Checkpoint db (snd (set_run_checkpoint r before after_tree db))"
| do_boot: "agent_step Boot db (snd (agent_store_boot now db))"

definition agent_moves :: "agent_db \<Rightarrow> agent_db \<Rightarrow> bool" where
  "agent_moves db db' \<longleftrightarrow> (\<exists>op. agent_step op db db')"

lemma served_step: "agent_step op db db' \<Longrightarrow> served db \<Longrightarrow> served db'"
proof (induction rule: agent_step.induct)
  case (do_boot db now)
  then show ?case using keepsD [OF triple_weaken [OF served_boot [of now]], of served] by (auto simp: served_logs)
qed (simp_all add: keepsD log_ops set_manual_title_def set_agent_title_def)

definition is_empty_agent_db :: "agent_db \<Rightarrow> bool" where
  "is_empty_agent_db db \<longleftrightarrow> db = empty_agent_db"

lemma served_empty: "served empty_agent_db"
  by (simp add: served_def logs_ok_def empty_agent_db_def run_log_def session_log_def)

interpretation agent_logs: invariant_system is_empty_agent_db agent_moves served
  by unfold_locales (auto simp: is_empty_agent_db_def agent_moves_def served_empty intro: served_step)

subsection \<open>Runs\<close>

definition completed_count :: "string \<Rightarrow> agent_db \<Rightarrow> nat" where
  "completed_count r db = count_where (\<lambda>e. ae_run e = r \<and> ae_kind e = AkRunCompleted) (a_events db)"

definition run_recorded :: "agent_db \<Rightarrow> agent_run \<Rightarrow> bool" where
  "run_recorded db x \<longleftrightarrow> completed_count (ar_id x) db = (if run_active (ar_status x) then 0 else 1)
     \<and> (ar_cause x = None \<longleftrightarrow> run_active (ar_status x)) \<and> (ar_completed_at x = None \<longleftrightarrow> run_active (ar_status x))"

definition runs_ok :: "agent_db \<Rightarrow> bool" where
  "runs_ok db \<longleftrightarrow> unique_key ar_id (a_runs db) \<and> (\<forall>e\<in>set (a_events db). has_key ar_id (ae_run e) (a_runs db))
     \<and> (\<forall>x\<in>set (a_runs db). run_recorded db x)"

text \<open>The same run; an ended one is unchanged.\<close>

definition run_kept :: "agent_run \<Rightarrow> agent_run \<Rightarrow> bool" where
  "run_kept x y \<longleftrightarrow> ar_id y = ar_id x \<and> ar_conversation y = ar_conversation x \<and> ar_project y = ar_project x
     \<and> ar_message y = ar_message x \<and> ar_mode y = ar_mode x \<and> ar_internal y = ar_internal x \<and> ar_client y = ar_client x
     \<and> ar_started_at y = ar_started_at x \<and> (\<not> run_active (ar_status x) \<longrightarrow> y = x)"

definition runs_from :: "agent_run list \<Rightarrow> agent_db \<Rightarrow> bool" where
  "runs_from xs db \<longleftrightarrow> runs_ok db \<and> (\<forall>x\<in>set xs. \<exists>y\<in>set (a_runs db). run_kept x y)"

lemma run_kept_refl [simp]: "run_kept x x"
  by (simp add: run_kept_def)

lemma runs_from_self: "runs_ok db \<Longrightarrow> runs_from (a_runs db) db"
  using run_kept_refl unfolding runs_from_def by blast

lemma runs_from_cong:
  assumes "a_runs db' = a_runs db" "a_events db' = a_events db"
  shows "runs_from xs db' = runs_from xs db"
proof -
  have "run_recorded db' x = run_recorded db x" for x using assms by (simp add: run_recorded_def completed_count_def)
  then show ?thesis using assms by (simp add: runs_from_def runs_ok_def)
qed

lemma runs_other [simp]:
  "runs_from xs (upd_conversations P f db) = runs_from xs db" "runs_from xs (touch_conversation k now db) = runs_from xs db"
  "runs_from xs (upd_queue R h db) = runs_from xs db" "runs_from xs (push_session c tag payload now db) = runs_from xs db"
  "runs_from xs (push_stream kind p co r payload now db) = runs_from xs db"
  "runs_from xs (db\<lparr>a_queue := qs\<rparr>) = runs_from xs db" "runs_from xs (db\<lparr>a_bus := n\<rparr>) = runs_from xs db"
  "runs_from xs (db\<lparr>a_conversations := cs\<rparr>) = runs_from xs db" "runs_from xs (db\<lparr>a_checkpoints := cks\<rparr>) = runs_from xs db"
  by (rule runs_from_cong; simp add: upd_conversations_def touch_conversation_def upd_queue_def push_session_def push_stream_def)+

named_theorems run_ops "operations keep the runs"

lemma runs_insert [run_ops]: "ar_status run = RsRunning \<Longrightarrow> ar_cause run = None \<Longrightarrow> ar_completed_at run = None
   \<Longrightarrow> keeps (runs_from xs) (insert_run run)"
  unfolding insert_run_def
proof (rule triple_andthen [where R = "\<lambda>_ db. runs_from xs db \<and> \<not> has_key ar_id (ar_id run) (a_runs db)"])
  assume run: "ar_status run = RsRunning" "ar_cause run = None" "ar_completed_at run = None"
  fix x
  show "triple (\<lambda>db. runs_from xs db \<and> \<not> has_key ar_id (ar_id run) (a_runs db))
      (modifies (\<lambda>db. db\<lparr>a_runs := a_runs db @ [run]\<rparr>)) (\<lambda>_. runs_from xs) (runs_from xs)"
  proof (rule triple_modifies)
    fix db assume ok: "runs_from xs db \<and> \<not> has_key ar_id (ar_id run) (a_runs db)"
    then have none: "completed_count (ar_id run) db = 0"
      unfolding completed_count_def count_where_0 runs_from_def runs_ok_def by metis
    show "runs_from xs (db\<lparr>a_runs := a_runs db @ [run]\<rparr>)"
      using ok none run by (auto simp: runs_from_def runs_ok_def run_recorded_def completed_count_def run_active_def)
  qed
qed (rule triple_requires; simp)

lemma runs_append_event [run_ops]:
  "kind \<noteq> AkRunCompleted \<Longrightarrow> keeps (runs_from xs) (append_event_transaction r kind payload now)"
  unfolding append_event_transaction_def append_workspace_event_transaction_def
  apply (rule triple_andthen [where R = "\<lambda>_ db. runs_from xs db \<and> has_key ar_id r (a_runs db)"])
   apply (rule triple_finds, auto simp: has_key_iff dest: row_of_SomeD) [1]
  apply (rule triple_andthen [where R = "\<lambda>_ db. runs_from xs db \<and> has_key ar_id r (a_runs db)"])
   apply (rule triple_reads, simp)
  apply (rule triple_andthen [where R = "\<lambda>_. runs_from xs"])
   apply (rule triple_modifies)
   apply (auto simp: runs_from_def runs_ok_def run_recorded_def completed_count_def push_event_def) [1]
  apply (intro keeps_intros keeps_modifies; simp)
  done

lemma runs_prims [run_ops]:
  "keeps (runs_from xs) (publish_committed n)" "keeps (runs_from xs) (append_workspace_event kind p co ro payload now)"
  "keeps (runs_from xs) (get_conversation c)" "keeps (runs_from xs) (get_run r)"
  unfolding publish_committed_def append_workspace_event_def append_workspace_event_transaction_def get_conversation_def get_run_def
  by (intro keeps_intros keeps_modifies; simp)+

lemma runs_title [run_ops]: "keeps (runs_from xs) (set_agent_title_if_untitled c source now)"
  unfolding set_agent_title_if_untitled_def by (intro keeps_intros keeps_modifies run_ops; simp)

lemma runs_session_event [run_ops]: "keeps (runs_from xs) (append_session_event c kind payload now)"
  unfolding append_session_event_def by (intro keeps_intros keeps_modifies run_ops; simp)

lemma runs_announce [run_ops]: "keeps (runs_from xs) (announce_run run message internal cursor now)"
  unfolding announce_run_def by (intro keeps_intros run_ops)

lemma runs_insert_transaction [run_ops]: "keeps (runs_from xs) (insert_run_transaction uuid c p message mode internal client now)"
  unfolding insert_run_transaction_def by (intro keeps_intros keeps_modifies run_ops; simp add: new_run_def)

lemma runs_insert_item [run_ops]: "keeps (runs_from xs) (insert_queue_item uuid c p content internal client now)"
  unfolding insert_queue_item_def by (intro keeps_intros keeps_modifies; simp)

lemma runs_start [run_ops]:
  "keeps (runs_from xs) (start_run_with_visibility c p message mode internal client uuid now)"
  "keeps (runs_from xs) (start_prompt_or_enqueue c p message mode internal client uuid now)"
  "keeps (runs_from xs) (start_run_from_queue_item item mode uuid now)"
  unfolding start_run_with_visibility_def start_prompt_or_enqueue_def admit_prompt_def start_run_from_queue_item_def
  by (intro keeps_intros keeps_modifies scoped run_ops; simp add: new_run_def)+

lemma runs_queue_ops [run_ops]:
  "keeps (runs_from xs) (enqueue_prompt c p content internal client uuid now)"
  "keeps (runs_from xs) (claim_next_queued_prompt c)" "keeps (runs_from xs) (edit_queued_prompt i content)"
  "keeps (runs_from xs) (remove_queued_prompt i)" "keeps (runs_from xs) (move_queued_prompt_to_head i)"
  "keeps (runs_from xs) (publish_prompt_queue_snapshot c now)" "keeps (runs_from xs) reset_orphaned_queue_claims"
  unfolding enqueue_prompt_def claim_next_queued_prompt_def edit_queued_prompt_def require_pending_item_def
    remove_queued_prompt_def move_queued_prompt_to_head_def publish_prompt_queue_snapshot_def reset_orphaned_queue_claims_def
  by (intro keeps_intros keeps_modifies scoped run_ops; simp)+

lemma runs_drain [run_ops]: "keeps (runs_from xs) (drain_next c uuid now)"
proof -
  have start: "keeps (runs_from xs) (\<lambda>db. case start_run_from_queue_item item Safe uuid now db of
      (Inl _, db1) \<Rightarrow> (Inr None, db1) | (Inr run, db1) \<Rightarrow> (Inr (Some run), db1))" for item
    using runs_start(3) [of xs item Safe uuid now]
    by (fastforce simp: triple_def split: prod.splits sum.splits)
  show ?thesis unfolding drain_next_def by (intro keeps_intros run_ops start)
qed

lemma runs_conversation_ops [run_ops]:
  "keeps (runs_from xs) (insert_conversation row)" "keeps (runs_from xs) (create_conversation p a title uuid now)"
  "keeps (runs_from xs) (set_conversation_title c manual title now)" "keeps (runs_from xs) (set_provider_session c provider now)"
  "keeps (runs_from xs) (ensure_subagent_conversation quote parent_id sub name prompt uuid now)"
  "keeps (runs_from xs) (emit_subagent_update parent_id child sub name prompt status now)"
  "keeps (runs_from xs) (set_run_checkpoint r before after_tree)"
  unfolding insert_conversation_def create_conversation_def set_conversation_title_def set_provider_session_def
    ensure_subagent_conversation_def emit_subagent_update_def set_run_checkpoint_def
  by (intro keeps_intros keeps_modifies run_ops; simp)+

subsection \<open>The status and the end of a run\<close>

lemma has_key_upd_runs: "(\<And>x. ar_id (f x) = ar_id x) \<Longrightarrow> has_key ar_id k (a_runs (upd_runs P f db)) = has_key ar_id k (a_runs db)"
  by (simp add: upd_runs_def has_key_update_where)

lemma runs_upd:
  assumes "runs_from xs db" "\<And>x. ar_id (f x) = ar_id x"
    "\<And>x. x \<in> set (a_runs db) \<Longrightarrow> P x \<Longrightarrow> run_kept x (f x) \<and> run_active (ar_status x)"
    "\<And>x. x \<in> set (a_runs db) \<Longrightarrow> run_recorded db' (if P x then f x else x)"
    "a_runs db' = update_where P f (a_runs db)" "\<forall>e\<in>set (a_events db'). has_key ar_id (ae_run e) (a_runs db)"
  shows "runs_from xs db'"
proof -
  have "\<exists>z\<in>set (a_runs db'). run_kept x z" if x: "x \<in> set xs" for x
  proof -
    obtain y where y: "y \<in> set (a_runs db)" "run_kept x y" using assms(1) x by (auto simp: runs_from_def)
    have "run_kept x (if P y then f y else y)"
    proof (cases "P y")
      case True
      then have "run_kept y (f y)" "run_active (ar_status y)" using assms(3) [OF y(1)] by simp_all
      then show ?thesis using y(2) True by (auto simp: run_kept_def)
    qed (simp add: y(2))
    then show ?thesis using y(1) unfolding assms(5) update_where_set by blast
  qed
  moreover have "unique_key ar_id (a_runs db')"
    using assms(1,2) by (simp add: assms(5) runs_from_def runs_ok_def unique_key_update_where)
  moreover have "\<forall>x\<in>set (a_runs db'). run_recorded db' x" using assms(4) unfolding assms(5) update_where_set by blast
  ultimately show ?thesis
    using assms(2,6) by (auto simp: runs_from_def runs_ok_def assms(5) has_key_update_where)
qed

lemma runs_set_status [run_ops]:
  assumes "run_active status"
  shows "keeps (runs_from xs) (set_run_status r status)"
proof -
  let ?P = "\<lambda>x. ar_id x = r \<and> run_active (ar_status x)"
  have "runs_from xs (upd_runs ?P (\<lambda>x. x\<lparr>ar_status := status\<rparr>) db)" if ok: "runs_from xs db" for db
  proof (rule runs_upd [OF ok])
    fix x assume x: "x \<in> set (a_runs db)"
    then have "run_recorded db x" using ok by (simp add: runs_from_def runs_ok_def)
    then show "run_recorded (upd_runs ?P (\<lambda>x. x\<lparr>ar_status := status\<rparr>) db) (if ?P x then x\<lparr>ar_status := status\<rparr> else x)"
      using assms by (auto simp: run_recorded_def completed_count_def upd_runs_def)
  qed (use ok assms in \<open>auto simp: upd_runs_def run_kept_def runs_from_def runs_ok_def\<close>)
  then show ?thesis unfolding set_run_status_def by (intro keeps_intros keeps_modifies) simp
qed

text \<open>Ending a run and recording its end belong together.\<close>

lemma runs_end:
  assumes ok: "runs_from xs db" and run: "x \<in> set (a_runs db)" "ar_id x = r" "run_active (ar_status x)"
    and status: "\<not> run_active status" and P: "\<And>y. y \<in> set (a_runs db) \<Longrightarrow> P y \<longleftrightarrow> ar_id y = r"
    and runs: "a_runs db' = update_where P (ended_run status err cause now) (a_runs db)"
    and events: "a_events db' = a_events db @ [e]" "ae_run e = r" "ae_kind e = AkRunCompleted"
  shows "runs_from xs db'"
proof (rule runs_upd [OF ok, where P = P and f = "ended_run status err cause now"])
  have key: "unique_key ar_id (a_runs db)" using ok by (simp add: runs_from_def runs_ok_def)
  have same: "y = x" if "y \<in> set (a_runs db)" "ar_id y = r" for y
    by (rule unique_key_eqD [OF key that(1) run(1)]) (simp add: that(2) run(2))
  show "run_kept y (ended_run status err cause now y) \<and> run_active (ar_status y)" if "y \<in> set (a_runs db)" "P y" for y
    using same [OF that(1)] P that run(3) by (auto simp: run_kept_def ended_run_def)
  show "run_recorded db' (if P y then ended_run status err cause now y else y)" if y: "y \<in> set (a_runs db)" for y
  proof (cases "ar_id y = r")
    case True
    then have "y = x" by (rule same [OF y])
    moreover have "run_recorded db x" using ok run(1) by (simp add: runs_from_def runs_ok_def)
    ultimately show ?thesis
      using P [OF y] run(2,3) status events True by (simp add: run_recorded_def completed_count_def ended_run_def)
  next
    case False
    moreover have "run_recorded db y" using ok y by (simp add: runs_from_def runs_ok_def)
    ultimately show ?thesis using P [OF y] events by (simp add: run_recorded_def completed_count_def)
  qed
  show "\<forall>e\<in>set (a_events db'). has_key ar_id (ae_run e) (a_runs db)"
    using ok run(1,2) events by (auto simp: runs_from_def runs_ok_def has_key_iff)
qed (simp_all add: runs ended_run_def)

lemma append_event_effect:
  assumes "row_of ar_id r (a_runs db) = Some x"
  shows "\<exists>e n db'. append_event_transaction r kind payload now db = (Inr (e, n), db') \<and> a_runs db' = a_runs db
    \<and> a_events db' = a_events db @ [e] \<and> ae_run e = r \<and> ae_kind e = kind"
  using assms
  by (simp add: append_event_transaction_def append_workspace_event_transaction_def act_defs push_event_def push_stream_def)

lemma runs_end_transaction:
  assumes "\<not> run_active status" "\<And>y. ar_id y = r \<Longrightarrow> run_active (ar_status y) \<Longrightarrow> P y" "\<And>y. P y \<Longrightarrow> ar_id y = r"
  shows "triple (\<lambda>db. runs_from xs db \<and> (\<exists>x\<in>set (a_runs db). ar_id x = r \<and> run_active (ar_status x)))
    (andthen (modifies (upd_runs P (ended_run status err cause now))) (\<lambda>_.
     append_event_transaction r AkRunCompleted payload now))
    (\<lambda>_. runs_from xs) (\<lambda>_. False)"
  unfolding triple_def
proof (intro allI impI)
  fix db assume pre: "runs_from xs db \<and> (\<exists>x\<in>set (a_runs db). ar_id x = r \<and> run_active (ar_status x))"
  then obtain x where x: "x \<in> set (a_runs db)" "ar_id x = r" "run_active (ar_status x)" by blast
  let ?db1 = "upd_runs P (ended_run status err cause now) db"
  have "unique_key ar_id (a_runs db)" using pre by (simp add: runs_from_def runs_ok_def)
  then have same: "P y \<longleftrightarrow> ar_id y = r" if "y \<in> set (a_runs db)" for y
    using assms(2,3) that x unique_key_eqD by metis
  have "has_key ar_id r (a_runs db)" using x by (auto simp: has_key_iff)
  then have "has_key ar_id r (a_runs ?db1)" by (simp add: has_key_upd_runs ended_run_def)
  then obtain z where "row_of ar_id r (a_runs ?db1) = Some z" using row_of_exists [of ar_id] by blast
  from append_event_effect [OF this, of AkRunCompleted payload now] obtain e n db' where
    e: "append_event_transaction r AkRunCompleted payload now ?db1 = (Inr (e, n), db')" "a_runs db' = a_runs ?db1"
      "a_events db' = a_events ?db1 @ [e]" "ae_run e = r" "ae_kind e = AkRunCompleted" by blast
  have "runs_from xs db'"
    by (rule runs_end [OF _ x assms(1) same _ _ e(4,5)]) (use pre e(2,3) in \<open>simp_all add: upd_runs_def\<close>)
  then show "case andthen (modifies (upd_runs P (ended_run status err cause now))) (\<lambda>_.
      append_event_transaction r AkRunCompleted payload now) db of (Inl e, db') \<Rightarrow> False | (Inr x, db') \<Rightarrow> runs_from xs db'"
    by (simp add: act_defs e(1))
qed

lemma andthen_assoc: "andthen m (\<lambda>x. andthen (f x) g) = andthen (andthen m f) g"
  by (rule ext) (simp add: andthen_def split: prod.splits sum.splits)

lemma runs_finish [run_ops]:
  assumes "\<not> run_active status"
  shows "keeps (runs_from xs) (finish_run r status err cause now)"
proof -
  let ?moves = "\<lambda>db. list_ex (\<lambda>x. ar_id x = r \<and> run_active (ar_status x)) (a_runs db)"
  have tx: "triple (\<lambda>db. runs_from xs db \<and> ?moves db)
      (andthen (modifies (upd_runs (\<lambda>x. ar_id x = r \<and> run_active (ar_status x)) (ended_run status err cause now))) (\<lambda>_.
       andthen (append_event_transaction r AkRunCompleted (ended_payload status err cause) now) (\<lambda>(_, cursor).
       returns (Some cursor)))) (\<lambda>_. runs_from xs) (\<lambda>_. True)"
    unfolding andthen_assoc
    apply (rule triple_andthen [where R = "\<lambda>_. runs_from xs"])
     apply (rule triple_weaken [OF runs_end_transaction [OF assms]], auto simp: list_ex_iff) [1]
    apply (auto intro!: triples)
    done
  show ?thesis
    unfolding finish_run_def
    apply (rule triple_andthen [where R = "\<lambda>_. runs_from xs"])
     apply (rule triple_atomically)
      apply (rule triple_andthen [where R = "\<lambda>b db. runs_from xs db \<and> b = ?moves db"])
       apply (rule triple_reads, simp)
      apply (rule triple_if)
       apply (rule triple_andthen [where R = "\<lambda>_. runs_from xs"])
        apply (rule triple_requires, simp, simp)
       apply (rule triple_returns, simp)
      apply (rule triple_weaken [OF tx], auto) [1]
     apply simp
    apply (intro keeps_intros run_ops)
    done
qed

lemma runs_append [run_ops]: "kind \<noteq> AkRunCompleted \<Longrightarrow> keeps (runs_from xs) (append_event r kind payload now)"
  unfolding append_event_def by (intro keeps_intros run_ops)

subsection \<open>Start-up\<close>

text \<open>The runs still to be interrupted: exactly the active ones.\<close>

definition to_interrupt :: "agent_run list \<Rightarrow> string list \<Rightarrow> agent_db \<Rightarrow> bool" where
  "to_interrupt xs ids db \<longleftrightarrow> runs_from xs db \<and> distinct ids
     \<and> set ids = ar_id ` {x \<in> set (a_runs db). run_active (ar_status x)}"

lemma triple_foreach:
  "(\<And>x xs. triple (P (x # xs)) (f x) (\<lambda>_. P xs) E) \<Longrightarrow> triple (P xs) (foreach f xs) (\<lambda>_. P []) E"
  by (induction xs) (auto intro!: triple_returns triple_andthen)

lemma interrupt_one: "triple (to_interrupt xs (r # ids)) (interrupt_run now r) (\<lambda>_. to_interrupt xs ids) (\<lambda>_. False)"
  unfolding triple_def
proof (intro allI impI)
  fix db assume pre: "to_interrupt xs (r # ids) db"
  then have "r \<in> ar_id ` {x \<in> set (a_runs db). run_active (ar_status x)}"
    unfolding to_interrupt_def by (metis list.set_intros(1))
  then obtain x where x: "x \<in> set (a_runs db)" "ar_id x = r" "run_active (ar_status x)" by auto
  have key: "unique_key ar_id (a_runs db)" using pre by (simp add: to_interrupt_def runs_from_def runs_ok_def)
  let ?f = "ended_run RsInterrupted (Some ''server restarted'') TcInterrupted now"
  let ?db1 = "upd_runs (\<lambda>x. ar_id x = r) ?f db"
  have "has_key ar_id r (a_runs db)" using x by (auto simp: has_key_iff)
  then have "has_key ar_id r (a_runs ?db1)" by (simp add: has_key_upd_runs ended_run_def)
  then obtain z where "row_of ar_id r (a_runs ?db1) = Some z" using row_of_exists [of ar_id] by blast
  from append_event_effect [OF this, of AkRunCompleted "ended_payload RsInterrupted (Some ''server restarted'') TcInterrupted" now]
  obtain e n db' where e: "append_event_transaction r AkRunCompleted
      (ended_payload RsInterrupted (Some ''server restarted'') TcInterrupted) now ?db1 = (Inr (e, n), db')"
      "a_runs db' = a_runs ?db1" "a_events db' = a_events ?db1 @ [e]" "ae_run e = r" "ae_kind e = AkRunCompleted" by blast
  have "runs_from xs db'"
    by (rule runs_end [OF _ x _ _ _ _ e(4,5)])
      (use pre e(2,3) in \<open>simp_all add: upd_runs_def to_interrupt_def run_active_def\<close>)
  moreover have "set ids = ar_id ` {x \<in> set (a_runs db'). run_active (ar_status x)}"
  proof -
    have "{x \<in> set (a_runs db'). run_active (ar_status x)} = {x \<in> set (a_runs db). run_active (ar_status x) \<and> ar_id x \<noteq> r}"
      unfolding e(2) upd_runs_def by (auto simp: update_where_def ended_run_def run_active_def)
    moreover have "set ids = set (r # ids) - {r}" using pre by (auto simp: to_interrupt_def)
    ultimately show ?thesis using pre unfolding to_interrupt_def by auto
  qed
  ultimately have "to_interrupt xs ids db'" using pre by (simp add: to_interrupt_def)
  then show "case interrupt_run now r db of (Inl e, db') \<Rightarrow> False | (Inr u, db') \<Rightarrow> to_interrupt xs ids db'"
    by (simp add: interrupt_run_def act_defs e(1))
qed

definition idle :: "agent_db \<Rightarrow> bool" where
  "idle db \<longleftrightarrow> (\<forall>x\<in>set (a_runs db). \<not> run_active (ar_status x))"

definition unclaimed :: "agent_db \<Rightarrow> bool" where
  "unclaimed db \<longleftrightarrow> (\<forall>q\<in>set (a_queue db). qi_status q = QsPending)"

definition calm :: "agent_run list \<Rightarrow> bool \<Rightarrow> agent_db \<Rightarrow> bool" where
  "calm xs reset db \<longleftrightarrow> runs_from xs db \<and> idle db \<and> (reset \<longrightarrow> unclaimed db)"

lemma calm_cong:
  "a_runs db' = a_runs db \<Longrightarrow> a_events db' = a_events db \<Longrightarrow> a_queue db' = a_queue db \<Longrightarrow> calm xs b db' = calm xs b db"
  by (simp add: calm_def idle_def unclaimed_def runs_from_cong [of db' db])

lemma calm_other [simp]:
  "calm xs b (push_stream kind p co r payload now db) = calm xs b db" "calm xs b (db\<lparr>a_bus := n\<rparr>) = calm xs b db"
  by (rule calm_cong; simp add: push_stream_def)+

lemma calm_stream:
  "keeps (calm xs b) (append_workspace_event kind p co r payload now)" "keeps (calm xs b) (publish_committed n)"
  "keeps (calm xs b) (get_run r')" "keeps (calm xs b) (get_conversation c)"
  unfolding append_workspace_event_def append_workspace_event_transaction_def publish_committed_def get_run_def get_conversation_def
  by (intro keeps_intros keeps_modifies; simp)+

lemma calm_broadcasts:
  "keeps (calm xs b) (broadcast_idle now r)" "keeps (calm xs b) (publish_prompt_queue_snapshot c now)"
  unfolding broadcast_idle_def publish_prompt_queue_snapshot_def by (intro keeps_intros calm_stream)+

lemma calm_reset: "triple (calm xs False) reset_orphaned_queue_claims (\<lambda>_. calm xs True) E"
proof -
  have none: "unclaimed db" if "remdups (map qi_conversation (filter (\<lambda>q. qi_status q = QsClaimed) (a_queue db))) = []" for db
    using that by (auto simp: unclaimed_def filter_empty_conv) (metis queue_status.exhaust)
  have "unclaimed (upd_queue (\<lambda>q. qi_status q = QsClaimed) (\<lambda>q. q\<lparr>qi_status := QsPending\<rparr>) db)" for db
    by (auto simp: unclaimed_def upd_queue_def update_where_def) (metis queue_status.exhaust)
  moreover have "idle (upd_queue P f db) = idle db" for P f db by (simp add: idle_def upd_queue_def)
  ultimately show ?thesis
    using none by (auto simp: triple_def act_defs reset_orphaned_queue_claims_def calm_def)
qed

text \<open>Start-up does not fail: what can fail in it is either impossible or ignored.\<close>

lemma calm_publish: "triple (calm xs b) (publish_committed n) (\<lambda>_. calm xs b) E"
  unfolding publish_committed_def by (intro triple_modifies) simp

lemma calm_broadcast: "triple (calm xs b) (foreach (broadcast_idle now) ids) (\<lambda>_. calm xs b) E"
  using calm_broadcasts(1) unfolding broadcast_idle_def attempts_def
  by (intro triple_foreach) (fastforce simp: triple_def split: prod.splits sum.splits)

lemma calm_snapshots: "triple (calm xs b) (foreach (\<lambda>c. attempts (publish_prompt_queue_snapshot c now)) cs) (\<lambda>_. calm xs b) E"
  by (intro triple_foreach triple_attempts calm_broadcasts)

lemma interrupt_all: "triple (to_interrupt xs ids) (atomically (foreach (interrupt_run now) ids)) (\<lambda>_. calm xs False) (\<lambda>_. False)"
proof -
  have "triple (to_interrupt xs ids) (foreach (interrupt_run now) ids) (\<lambda>_. to_interrupt xs []) (\<lambda>_. False)"
    by (rule triple_foreach) (rule interrupt_one)
  then have "triple (to_interrupt xs ids) (foreach (interrupt_run now) ids) (\<lambda>_. calm xs False) (\<lambda>_. False)"
    by (rule triple_weaken) (auto simp: to_interrupt_def calm_def idle_def)
  then show ?thesis by (fastforce simp: triple_def atomically_def split: prod.splits sum.splits)
qed

lemma runs_boot: "triple (runs_from xs) (agent_store_boot now) (\<lambda>_. calm xs True) (\<lambda>_. False)"
proof -
  have start: "to_interrupt xs (map ar_id (filter (\<lambda>r. run_active (ar_status r)) (a_runs db))) db" if "runs_from xs db" for db
    using that by (auto simp: to_interrupt_def runs_from_def runs_ok_def unique_key_def distinct_map_filter)
  have "triple (runs_from xs) (interrupt_inflight_runs now) (\<lambda>_. calm xs True) (\<lambda>_. False)"
    unfolding interrupt_inflight_runs_def
    apply (rule triple_andthen [where R = "to_interrupt xs"], rule triple_reads, rule start, assumption)
    subgoal for ids
      apply (rule triple_andthen [OF interrupt_all])
      apply (rule triple_andthen [where R = "\<lambda>_. calm xs False"], rule triple_reads, assumption)
      apply (rule triple_andthen [where R = "\<lambda>_. calm xs False"])
       apply (rule triple_if, rule triple_returns, assumption, rule calm_publish)
      apply (rule triple_andthen [OF calm_broadcast], rule triple_andthen [OF calm_reset], rule calm_snapshots)
      done
    done
  then show ?thesis
    unfolding agent_store_boot_def
    by (intro triple_andthen [where R = "\<lambda>_. runs_from xs"] triple_modifies) simp
qed

lemma runs_step: "agent_step op db db' \<Longrightarrow> runs_from xs db \<Longrightarrow> runs_from xs db'"
proof (induction rule: agent_step.induct)
  case (do_boot db now)
  have "keeps (runs_from xs) (agent_store_boot now)"
    by (rule triple_weaken [OF runs_boot]) (auto simp: calm_def)
  then show ?case using do_boot by (rule keepsD)
qed (simp_all add: keepsD run_ops set_manual_title_def set_agent_title_def)

lemma runs_ok_empty: "runs_ok empty_agent_db"
  by (simp add: runs_ok_def empty_agent_db_def)

interpretation agent_runs: invariant_system is_empty_agent_db agent_moves runs_ok
proof unfold_locales
  fix s t assume "runs_ok s" "agent_moves s t"
  then show "runs_ok t" using runs_step runs_from_self unfolding agent_moves_def runs_from_def by blast
qed (simp add: is_empty_agent_db_def runs_ok_empty)

interpretation run_life: life_cycle run_kept "\<lambda>x. \<not> run_active (ar_status x)"
  by unfold_locales (simp add: run_kept_def)

end
