(* ===== verification/PromptInbox.thy ===== *)
theory PromptInbox
  imports AgentInvariants
begin

text \<open>
  The prompt queue of a conversation as an abstract inbox: a list of prompts, taken from the front.
  The interface is the locale \<open>inbox\<close>; the table with its positions implements it.
\<close>

subsection \<open>Stable sorts\<close>

lemma insort_key_behind: "f x \<le> f z \<Longrightarrow> insort_key f x (ys @ [z]) = insort_key f x ys @ [z]"
  by (induction ys) auto

lemma sort_key_behind: "(\<And>y. y \<in> set ys \<Longrightarrow> f y \<le> f z) \<Longrightarrow> sort_key f (ys @ [z]) = sort_key f ys @ [z]"
  by (induction ys) (auto simp: insort_key_behind)

lemma insort_key_after: "(\<And>y. y \<in> set ys \<Longrightarrow> f y < f x) \<Longrightarrow> insort_key f x (ys @ zs) = ys @ insort_key f x zs"
  by (induction ys) fastforce+

text \<open>Rows that move before all others come first.\<close>

lemma sort_key_moved_first:
  assumes "\<And>x y. x \<in> set ys \<Longrightarrow> y \<in> set ys \<Longrightarrow> P x \<Longrightarrow> \<not> P y \<Longrightarrow> f (g x) < f y"
    "\<And>x y. P x \<Longrightarrow> P y \<Longrightarrow> f (g x) = f (g y)"
  shows "sort_key f (update_where P g ys) = map g (filter P ys) @ sort_key f (filter (\<lambda>y. \<not> P y) ys)"
  using assms(1)
proof (induction ys)
  case (Cons y ys)
  have IH: "sort_key f (update_where P g ys) = map g (filter P ys) @ sort_key f (filter (\<lambda>y. \<not> P y) ys)"
    by (rule Cons.IH) (rule Cons.prems; simp)
  have upd: "update_where P g (y # ys) = (if P y then g y else y) # update_where P g ys" by (simp add: update_where_def)
  show ?case
  proof (cases "P y")
    case True
    have "\<forall>z\<in>set (map g (filter P ys) @ sort_key f (filter (\<lambda>y. \<not> P y) ys)). f (g y) \<le> f z"
    proof
      fix z assume "z \<in> set (map g (filter P ys) @ sort_key f (filter (\<lambda>y. \<not> P y) ys))"
      then consider x where "P x" "z = g x" | "z \<in> set ys" "\<not> P z" by auto
      then show "f (g y) \<le> f z"
      proof cases
        case 1 then show ?thesis using assms(2) [OF True, of x] by simp
      next
        case 2 then show ?thesis using Cons.prems [of y z] True by simp
      qed
    qed
    then show ?thesis using True by (simp add: upd IH insort_is_Cons)
  next
    case False
    have "\<And>z. z \<in> set (map g (filter P ys)) \<Longrightarrow> f z < f y" using Cons.prems [of _ y] False by auto
    then have "insort_key f y (map g (filter P ys) @ zs) = map g (filter P ys) @ insort_key f y zs" for zs
      by (rule insort_key_after)
    then show ?thesis using False by (simp add: upd IH)
  qed
qed (simp add: update_where_def)

lemma filter_ident_one: "distinct (map f xs) \<Longrightarrow> x \<in> set xs \<Longrightarrow> filter (\<lambda>y. f y = f x) xs = [x]"
proof (induction xs)
  case (Cons y ys)
  have "filter (\<lambda>z. f z = f y) ys = []" using Cons.prems(1) by (simp add: filter_empty_conv image_iff) metis
  then show ?case using Cons by (cases "x = y") force+
qed simp

subsection \<open>The interface\<close>

locale inbox =
  fixes prompts :: "'s \<Rightarrow> 'p list" and send :: "'p \<Rightarrow> 's \<Rightarrow> 's" and claim :: "'s \<Rightarrow> 'p option \<times> 's"
    and promote :: "'k \<Rightarrow> 's \<Rightarrow> 's" and withdraw :: "'k \<Rightarrow> 's \<Rightarrow> 's"
    and ident :: "'p \<Rightarrow> 'k" and valid :: "'s \<Rightarrow> bool" and fresh :: "'k \<Rightarrow> 's \<Rightarrow> bool"
  assumes send_last: "valid s \<Longrightarrow> fresh (ident p) s \<Longrightarrow> prompts (send p s) = prompts s @ [p] \<and> valid (send p s)"
    and send_fresh: "valid s \<Longrightarrow> fresh (ident p) s \<Longrightarrow> fresh k s \<Longrightarrow> k \<noteq> ident p \<Longrightarrow> fresh k (send p s)"
    and claim_none: "prompts s = [] \<Longrightarrow> claim s = (None, s)"
    and claim_first: "valid s \<Longrightarrow> prompts s = p # ps \<Longrightarrow>
      fst (claim s) = Some p \<and> prompts (snd (claim s)) = ps \<and> valid (snd (claim s))"
    and promote_first: "valid s \<Longrightarrow> k \<in> ident ` set (prompts s) \<Longrightarrow>
      prompts (promote k s) = filter (\<lambda>p. ident p = k) (prompts s) @ filter (\<lambda>p. ident p \<noteq> k) (prompts s)
      \<and> valid (promote k s)"
    and withdraw_gone: "valid s \<Longrightarrow> k \<in> ident ` set (prompts s) \<Longrightarrow>
      prompts (withdraw k s) = filter (\<lambda>p. ident p \<noteq> k) (prompts s) \<and> valid (withdraw k s)"
    and idents: "valid s \<Longrightarrow> distinct (map ident (prompts s))"
begin

primrec drain :: "nat \<Rightarrow> 's \<Rightarrow> 'p list" where
  "drain 0 s = []"
| "drain (Suc n) s = (case claim s of (None, _) \<Rightarrow> [] | (Some p, t) \<Rightarrow> p # drain n t)"

lemma drain_prompts: "valid s \<Longrightarrow> drain n s = take n (prompts s)"
proof (induction n arbitrary: s)
  case (Suc n)
  show ?case
  proof (cases "prompts s")
    case Nil
    then show ?thesis by (simp add: claim_none)
  next
    case (Cons p ps)
    note c = claim_first [OF Suc.prems Cons]
    then show ?thesis using Suc.IH [of "snd (claim s)"] Cons by (cases "claim s") auto
  qed
qed simp

lemma send_all:
  "valid s \<Longrightarrow> distinct (map ident ps) \<Longrightarrow> (\<And>p. p \<in> set ps \<Longrightarrow> fresh (ident p) s) \<Longrightarrow>
   prompts (fold send ps s) = prompts s @ ps \<and> valid (fold send ps s)"
proof (induction ps arbitrary: s)
  case (Cons p ps)
  have p: "prompts (send p s) = prompts s @ [p]" "valid (send p s)"
    using send_last [OF Cons.prems(1), of p] Cons.prems(3) [of p] by simp_all
  have "fresh (ident q) (send p s)" if "q \<in> set ps" for q
    using send_fresh [OF Cons.prems(1) Cons.prems(3) Cons.prems(3), of p q] Cons.prems(2) that by (simp add: image_iff) metis
  then show ?case using Cons.IH [OF p(2)] Cons.prems(2) p(1) by simp
qed simp

text \<open>First sent, first claimed.\<close>

lemma first_in_first_out:
  assumes "valid s" "distinct (map ident ps)" "\<And>p. p \<in> set ps \<Longrightarrow> fresh (ident p) s"
  shows "drain (length (prompts s) + length ps) (fold send ps s) = prompts s @ ps"
  using send_all [OF assms] drain_prompts by simp

lemma promoted_is_next:
  assumes "valid s" "p \<in> set (prompts s)"
  shows "fst (claim (promote (ident p) s)) = Some p"
proof -
  have one: "filter (\<lambda>q. ident q = ident p) (prompts s) = [p]"
    by (rule filter_ident_one [OF idents [OF assms(1)] assms(2)])
  have "ident p \<in> ident ` set (prompts s)" using assms(2) by simp
  note pr = promote_first [OF assms(1) this, unfolded one]
  show ?thesis using claim_first [OF conjunct2 [OF pr], of p] pr by simp
qed

end

subsection \<open>The table\<close>

text \<open>What a client sees of a queued prompt: everything but its position.\<close>

type_synonym prompt = "string \<times> string \<times> bool \<times> string option"

definition prompt_of :: "queue_item \<Rightarrow> prompt" where
  "prompt_of q = (qi_id q, qi_content q, qi_internal q, qi_client q)"

definition waiting :: "string \<Rightarrow> agent_db \<Rightarrow> prompt list" where
  "waiting c db = map prompt_of (queued_prompts c db)"

definition send_prompt :: "string \<Rightarrow> string \<Rightarrow> nat \<Rightarrow> prompt \<Rightarrow> agent_db \<Rightarrow> agent_db" where
  "send_prompt c p now m db = (case m of (k, content, internal, client) \<Rightarrow>
     snd (enqueue_prompt c p content internal client k now db))"

definition take_prompt :: "string \<Rightarrow> agent_db \<Rightarrow> prompt option \<times> agent_db" where
  "take_prompt c db = (case claim_next_queued_prompt c db of
     (Inl _, db1) \<Rightarrow> (None, db1) | (Inr item, db1) \<Rightarrow> (map_option prompt_of item, db1))"

primrec take_prompts :: "nat \<Rightarrow> string \<Rightarrow> agent_db \<Rightarrow> prompt list" where
  "take_prompts 0 c db = []"
| "take_prompts (Suc n) c db = (case take_prompt c db of (None, _) \<Rightarrow> [] | (Some m, db1) \<Rightarrow> m # take_prompts n c db1)"

definition inbox_ok :: "string \<Rightarrow> string \<Rightarrow> agent_db \<Rightarrow> bool" where
  "inbox_ok c p db \<longleftrightarrow> unique_key qi_id (a_queue db)
     \<and> (\<exists>row. row_of cv_id c (a_conversations db) = Some row \<and> cv_project row = p)"

lemma inbox_ok_cong:
  "a_conversations db' = a_conversations db \<Longrightarrow> map qi_id (a_queue db') = map qi_id (a_queue db) \<Longrightarrow>
   inbox_ok c p db' = inbox_ok c p db"
  by (simp add: inbox_ok_def unique_key_def)

lemma prompt_ids: "fst ` set (waiting c db) = qi_id ` set (filter (pending_item c) (a_queue db))"
  by (simp add: waiting_def queued_prompts_def image_image prompt_of_def)

text \<open>A new position lies behind every other.\<close>

lemma next_position_above: "q \<in> set (a_queue db) \<Longrightarrow> qi_conversation q = c \<Longrightarrow> qi_position q < next_position c db"
proof -
  assume q: "q \<in> set (a_queue db)" "qi_conversation q = c"
  have "x \<le> foldr max xs y" if "x = y \<or> x \<in> set xs" for x y :: int and xs using that by (induction xs) auto
  moreover have "qi_position q \<in> set (map qi_position (filter (\<lambda>q. qi_conversation q = c) (a_queue db)))" using q by auto
  ultimately show ?thesis unfolding next_position_def
    by (cases "map qi_position (filter (\<lambda>q. qi_conversation q = c) (a_queue db))") (simp_all)
qed

lemma head_position_below: "q \<in> set (a_queue db) \<Longrightarrow> pending_item c q \<Longrightarrow> head_position c db \<le> qi_position q"
proof -
  assume q: "q \<in> set (a_queue db)" "pending_item c q"
  have "foldr min xs y \<le> x" if "x = y \<or> x \<in> set xs" for x y :: int and xs using that by (induction xs) auto
  moreover have "qi_position q \<in> set (map qi_position (filter (pending_item c) (a_queue db)))" using q by auto
  ultimately show ?thesis unfolding head_position_def
    by (cases "map qi_position (filter (pending_item c) (a_queue db))") (simp_all)
qed

lemma send_waiting:
  assumes ok: "inbox_ok c p db" and new: "\<not> has_key qi_id (fst m) (a_queue db)"
  shows "waiting c (send_prompt c p now m db) = waiting c db @ [m] \<and> inbox_ok c p (send_prompt c p now m db)
    \<and> a_queue (send_prompt c p now m db)
      = a_queue db @ [new_item (fst m) c p (fst (snd m)) (next_position c db) (fst (snd (snd m))) (snd (snd (snd m))) now]"
proof -
  obtain k content internal client where m: "m = (k, content, internal, client)" by (cases m) auto
  obtain row where row: "row_of cv_id c (a_conversations db) = Some row" "cv_project row = p" using ok by (auto simp: inbox_ok_def)
  let ?q = "new_item k c p content (next_position c db) internal client now"
  have db: "send_prompt c p now m db = db\<lparr>a_queue := a_queue db @ [?q]\<rparr>"
    using row new by (simp add: m send_prompt_def enqueue_prompt_def insert_queue_item_def conversation_of_project_def act_defs Let_def)
  have "pending_item c ?q" by (simp add: new_item_def pending_item_def)
  moreover have "qi_position q \<le> qi_position ?q" if "q \<in> set (filter (pending_item c) (a_queue db))" for q
    using next_position_above [of q db c] that by (simp add: pending_item_def new_item_def)
  ultimately have "queued_prompts c (send_prompt c p now m db) = queued_prompts c db @ [?q]"
    using sort_key_behind [of "filter (pending_item c) (a_queue db)" qi_position ?q] by (simp add: db queued_prompts_def)
  moreover have "prompt_of ?q = m" by (simp add: prompt_of_def new_item_def m)
  ultimately show ?thesis using ok new by (simp add: waiting_def db [unfolded m] m inbox_ok_def) (simp add: new_item_def)
qed

lemma send_keeps_fresh:
  assumes "inbox_ok c p db" "\<not> has_key qi_id (fst m) (a_queue db)" "\<not> has_key qi_id k (a_queue db)" "k \<noteq> fst m"
  shows "\<not> has_key qi_id k (a_queue (send_prompt c p now m db))"
  using send_waiting [OF assms(1,2)] assms(3,4) by (auto simp: new_item_def)

subsection \<open>Claiming, moving, removing\<close>

lemma filter_update_where:
  "(\<And>x. P x \<Longrightarrow> \<not> Q (f x)) \<Longrightarrow> filter Q (update_where P f xs) = filter Q (filter (\<lambda>x. \<not> P x) xs)"
  by (induction xs) (auto simp: update_where_def)

lemma update_where_filter:
  "(\<And>x. P x \<Longrightarrow> Q (f x) = Q x) \<Longrightarrow> filter Q (update_where P f xs) = update_where P f (filter Q xs)"
  by (induction xs) (auto simp: update_where_def)

lemma waiting_without:
  "waiting c (db\<lparr>a_queue := filter (\<lambda>q. qi_id q \<noteq> k) qs\<rparr>) = filter (\<lambda>m. fst m \<noteq> k) (waiting c (db\<lparr>a_queue := qs\<rparr>))"
proof -
  have "filter (pending_item c) (filter (\<lambda>q. qi_id q \<noteq> k) qs) = filter (\<lambda>q. qi_id q \<noteq> k) (filter (pending_item c) qs)"
    by (simp add: conj_commute)
  then show ?thesis
    by (simp add: waiting_def queued_prompts_def filter_sort [symmetric] filter_map comp_def prompt_of_def)
qed

lemma waiting_cong:
  "filter (pending_item c) (a_queue db') = filter (pending_item c) (a_queue db) \<Longrightarrow> waiting c db' = waiting c db"
  by (simp add: waiting_def queued_prompts_def)

lemma inbox_distinct: "inbox_ok c p db \<Longrightarrow> distinct (map fst (waiting c db))"
  by (simp add: waiting_def comp_def prompt_of_def queued_prompts_def inbox_ok_def unique_key_def distinct_map distinct_sort inj_on_def)

lemma claim_waiting:
  assumes ok: "inbox_ok c p db" and w: "waiting c db = m # ms"
  shows "fst (take_prompt c db) = Some m \<and> waiting c (snd (take_prompt c db)) = ms \<and> inbox_ok c p (snd (take_prompt c db))"
proof -
  obtain item items where q: "queued_prompts c db = item # items" "prompt_of item = m"
    using w by (auto simp: waiting_def)
  let ?db = "upd_queue (\<lambda>q. qi_id q = qi_id item) (\<lambda>q. q\<lparr>qi_status := QsClaimed\<rparr>) db"
  have t: "take_prompt c db = (Some m, ?db)"
    using q by (simp add: take_prompt_def claim_next_queued_prompt_def act_defs)
  have "waiting c ?db = waiting c (db\<lparr>a_queue := filter (\<lambda>q. qi_id q \<noteq> qi_id item) (a_queue db)\<rparr>)"
    by (rule waiting_cong) (simp add: upd_queue_def filter_update_where pending_item_def)
  also have "... = filter (\<lambda>x. fst x \<noteq> fst m) (waiting c db)"
    using q(2) by (auto simp: waiting_without prompt_of_def)
  also have "... = ms" using inbox_distinct [OF ok] by (simp add: w filter_id_conv image_iff) metis
  finally show ?thesis
    using ok by (auto simp: t upd_queue_def inbox_ok_def unique_key_update_where)
qed

lemma claim_empty: "waiting c db = [] \<Longrightarrow> take_prompt c db = (None, db)"
  by (simp add: take_prompt_def claim_next_queued_prompt_def act_defs waiting_def)

lemma waiting_item:
  assumes "inbox_ok c p db" "k \<in> fst ` set (waiting c db)"
  obtains q where "row_of qi_id k (a_queue db) = Some q" "q \<in> set (a_queue db)" "qi_id q = k" "pending_item c q"
proof -
  obtain q where q: "q \<in> set (a_queue db)" "pending_item c q" "qi_id q = k" using assms(2) by (auto simp: prompt_ids)
  then have "has_key qi_id k (a_queue db)" by (auto simp: has_key_iff)
  then obtain q' where q': "row_of qi_id k (a_queue db) = Some q'" using row_of_exists [of qi_id] by blast
  then have "q' = q"
    using row_of_SomeD [OF q'] q assms(1) by (auto simp: inbox_ok_def unique_key_def distinct_map inj_on_def)
  then show ?thesis using that q' q by blast
qed

lemma remove_waiting:
  assumes ok: "inbox_ok c p db" and k: "k \<in> fst ` set (waiting c db)"
  shows "waiting c (snd (remove_queued_prompt k db)) = filter (\<lambda>m. fst m \<noteq> k) (waiting c db)
    \<and> inbox_ok c p (snd (remove_queued_prompt k db))"
proof -
  obtain q where q: "row_of qi_id k (a_queue db) = Some q" "qi_id q = k" "pending_item c q" using waiting_item [OF ok k] by metis
  have "snd (remove_queued_prompt k db) = db\<lparr>a_queue := filter (\<lambda>q. qi_id q \<noteq> k) (a_queue db)\<rparr>"
    using q by (simp add: remove_queued_prompt_def require_pending_item_def act_defs pending_item_def delete_where_def)
  then show ?thesis
    using ok unique_key_delete_where [of qi_id "a_queue db" "\<lambda>q. qi_id q = k"]
    by (simp add: waiting_without inbox_ok_def delete_where_def)
qed

lemma move_waiting:
  assumes ok: "inbox_ok c p db" and k: "k \<in> fst ` set (waiting c db)"
  shows "waiting c (snd (move_queued_prompt_to_head k db))
      = filter (\<lambda>m. fst m = k) (waiting c db) @ filter (\<lambda>m. fst m \<noteq> k) (waiting c db)
    \<and> inbox_ok c p (snd (move_queued_prompt_to_head k db))"
proof -
  obtain q where q: "row_of qi_id k (a_queue db) = Some q" "q \<in> set (a_queue db)" "qi_id q = k" "pending_item c q"
    using waiting_item [OF ok k] by metis
  let ?g = "\<lambda>x. x\<lparr>qi_position := head_position c db - 1\<rparr>"
  let ?ys = "filter (pending_item c) (a_queue db)"
  have db: "snd (move_queued_prompt_to_head k db) = upd_queue (\<lambda>x. qi_id x = k) ?g db"
    using q by (simp add: move_queued_prompt_to_head_def require_pending_item_def act_defs pending_item_def)
  have "filter (pending_item c) (update_where (\<lambda>x. qi_id x = k) ?g (a_queue db)) = update_where (\<lambda>x. qi_id x = k) ?g ?ys"
    by (rule update_where_filter) (simp add: pending_item_def)
  then have "queued_prompts c (upd_queue (\<lambda>x. qi_id x = k) ?g db) = sort_key qi_position (update_where (\<lambda>x. qi_id x = k) ?g ?ys)"
    by (simp add: queued_prompts_def upd_queue_def)
  also have "... = map ?g (filter (\<lambda>x. qi_id x = k) ?ys) @ sort_key qi_position (filter (\<lambda>x. qi_id x \<noteq> k) ?ys)"
    by (intro sort_key_moved_first) (auto dest: head_position_below)
  finally have moved: "queued_prompts c (upd_queue (\<lambda>x. qi_id x = k) ?g db)
      = map ?g (filter (\<lambda>x. qi_id x = k) ?ys) @ filter (\<lambda>x. qi_id x \<noteq> k) (queued_prompts c db)"
    by (simp only: queued_prompts_def filter_sort)
  have "distinct (map qi_id ?ys)" using ok by (simp add: inbox_ok_def unique_key_def distinct_map_filter)
  then have "filter (\<lambda>x. qi_id x = k) ?ys = [q]" using filter_ident_one [of qi_id ?ys q] q by simp
  moreover have "filter (\<lambda>x. qi_id x = k) (queued_prompts c db) = sort_key qi_position (filter (\<lambda>x. qi_id x = k) ?ys)"
    by (simp only: queued_prompts_def filter_sort)
  ultimately have "map prompt_of (map ?g (filter (\<lambda>x. qi_id x = k) ?ys)) = map prompt_of (filter (\<lambda>x. qi_id x = k) (queued_prompts c db))"
    by (simp add: prompt_of_def)
  then show ?thesis
    using ok unfolding db waiting_def moved
    by (simp add: filter_map comp_def prompt_of_def inbox_ok_def upd_queue_def unique_key_update_where)
qed

interpretation prompt_inbox: inbox "waiting c" "send_prompt c p now" "take_prompt c"
  "\<lambda>k db. snd (move_queued_prompt_to_head k db)" "\<lambda>k db. snd (remove_queued_prompt k db)" fst "inbox_ok c p"
  "\<lambda>k db. \<not> has_key qi_id k (a_queue db)"
  by unfold_locales (simp_all add: send_waiting send_keeps_fresh claim_empty claim_waiting move_waiting remove_waiting inbox_distinct
    new_item_def)

lemma take_prompts_drain: "take_prompts n c db = prompt_inbox.drain c n db"
  by (induction n arbitrary: db) (auto split: prod.splits option.splits)

subsection \<open>Start-up\<close>

text \<open>No operation of start-up loses a prompt.\<close>

definition same_prompts :: "queue_item list \<Rightarrow> agent_db \<Rightarrow> bool" where
  "same_prompts qs db \<longleftrightarrow> map prompt_of (a_queue db) = map prompt_of qs
     \<and> map qi_conversation (a_queue db) = map qi_conversation qs"

lemma same_prompts_cong: "a_queue db' = a_queue db \<Longrightarrow> same_prompts qs db' = same_prompts qs db"
  by (simp add: same_prompts_def)

lemma same_prompts_other [simp]:
  "same_prompts qs (push_stream kind p co r payload now db) = same_prompts qs db"
  "same_prompts qs (db\<lparr>a_bus := n\<rparr>) = same_prompts qs db"
  "same_prompts qs (upd_runs P f db) = same_prompts qs db"
  "same_prompts qs (push_event rr kd payload now db) = same_prompts qs db"
  by (rule same_prompts_cong; simp add: push_stream_def upd_runs_def push_event_def)+

lemma same_prompts_reset [simp]:
  "same_prompts qs (upd_queue P (\<lambda>q. q\<lparr>qi_status := st\<rparr>) db) = same_prompts qs db"
  by (simp add: same_prompts_def upd_queue_def map_key_update_where prompt_of_def)

lemma boot_prompts: "keeps (same_prompts qs) (agent_store_boot now)"
  unfolding agent_store_boot_def interrupt_inflight_runs_def interrupt_run_def append_event_transaction_def
    append_workspace_event_transaction_def publish_committed_def broadcast_idle_def get_run_def append_workspace_event_def
    reset_orphaned_queue_claims_def publish_prompt_queue_snapshot_def get_conversation_def
  by (intro keeps_intros keeps_modifies triple_if triple_prod; simp)

end
