(* ===== verification/AgentProperties.thy ===== *)
theory AgentProperties
  imports PromptInbox "HOL-Library.Code_Target_Nat"
begin

text \<open>
  What the agent store promises in every database its operations can produce, with a concrete day of
  one conversation for the witnesses: a prompt starts a run, a second prompt waits in the queue, the
  first run ends, the queue drains, the second run ends, the process restarts.
\<close>

subsection \<open>Reachable databases\<close>

abbreviation agent_reachable :: "agent_db \<Rightarrow> bool" where
  "agent_reachable \<equiv> reaches agent_moves empty_agent_db"

lemma reachable_served: "agent_reachable db \<Longrightarrow> served db"
  by (rule agent_logs.inv_reachable) (simp_all add: is_empty_agent_db_def)

lemma reachable_runs: "agent_reachable db \<Longrightarrow> runs_ok db"
  by (rule agent_runs.inv_reachable) (simp_all add: is_empty_agent_db_def)

lemma reaches_runs_from: "reaches agent_moves db db' \<Longrightarrow> runs_from xs db \<Longrightarrow> runs_from xs db'"
  by (induction rule: reaches.induct) (auto simp: agent_moves_def intro: runs_step)

subsection \<open>A day of a conversation\<close>

definition "day1 = snd (create_conversation ''p'' Codex None ''c'' 1 empty_agent_db)"
definition "day2 = snd (start_prompt_or_enqueue ''c'' ''p'' ''first'' Safe False (Some ''k1'') ''r1'' 2 day1)"
definition "day3 = snd (start_prompt_or_enqueue ''c'' ''p'' ''second'' Safe False (Some ''k2'') ''q2'' 3 day2)"
definition "day4 = snd (finish_run ''r1'' RsCompleted None TcEndTurn 4 day3)"
definition "day5 = snd (drain_next ''c'' ''r2'' 5 day4)"
definition "day6 = snd (finish_run ''r2'' RsCompleted None TcEndTurn 6 day5)"
definition "day7 = snd (agent_store_boot 7 day6)"

lemma day_reaches:
  "agent_reachable day1" "agent_moves day1 day2" "agent_moves day2 day3" "agent_moves day3 day4" "agent_moves day4 day5"
  "agent_moves day5 day6" "agent_moves day6 day7"
proof -
  show "agent_reachable day1" unfolding day1_def
    by (rule reaches_one, unfold agent_moves_def, rule exI, rule do_create_conversation)
qed (unfold agent_moves_def day2_def day3_def day4_def day5_def day6_def day7_def,
  (rule exI, rule agent_step.intros; simp add: run_active_def)+)

lemmas day2_reachable = reaches_step [OF day_reaches(1,2)]
lemmas day3_reachable = reaches_step [OF day2_reachable day_reaches(3)]
lemmas day4_reachable = reaches_step [OF day3_reachable day_reaches(4)]
lemmas day5_reachable = reaches_step [OF day4_reachable day_reaches(5)]
lemmas day6_reachable = reaches_step [OF day5_reachable day_reaches(6)]

subsection \<open>The logs\<close>



subsection \<open>The end of a run\<close>



subsection \<open>Start-up\<close>

lemma boot_queue:
  "map prompt_of (a_queue (snd (agent_store_boot now db))) = map prompt_of (a_queue db)
    \<and> map qi_conversation (a_queue (snd (agent_store_boot now db))) = map qi_conversation (a_queue db)"
  using keepsD [OF boot_prompts, of "a_queue db" db now] by (simp add: same_prompts_def)

text \<open>
  C18: start-up recovers the store from any database its operations can produce, without fail: no run is
  left active, every run is kept and the finished ones are unchanged, no prompt of the queue is lost
  and none stays claimed.  The last point has no regard to what became of a claimed prompt: a prompt
  whose run has finished is pending again after a restart, and is sent to the agent a second time.
\<close>

theorem restart_recovers:
  assumes "agent_reachable db"
  shows "\<exists>db'. agent_store_boot now db = (Inr (), db') \<and> (\<forall>x\<in>set (a_runs db'). \<not> run_active (ar_status x))
    \<and> (\<forall>x\<in>set (a_runs db). \<exists>y\<in>set (a_runs db'). run_kept x y)
    \<and> map prompt_of (a_queue db') = map prompt_of (a_queue db) \<and> (\<forall>q\<in>set (a_queue db'). qi_status q = QsPending)"
proof -
  obtain r db' where b: "agent_store_boot now db = (r, db')" by (cases "agent_store_boot now db") auto
  then obtain u where u: "r = Inr u" "calm (a_runs db) True db'"
    using runs_boot [of "a_runs db" now] runs_from_self [OF reachable_runs [OF assms]]
    by (cases r) (auto simp: triple_def dest!: spec [of _ db])
  then show ?thesis
    using b boot_queue [of now db]
    by (simp add: calm_def idle_def unclaimed_def runs_from_def)
qed

theorem restart_recovers_witness:
  "take_prompt ''c'' day6 = (None, day6) \<and> list_all (\<lambda>x. \<not> run_active (ar_status x)) (a_runs day6)
   \<and> fst (take_prompt ''c'' day7) = Some (''q2'', ''second'', False, Some ''k2'')
   \<and> (\<exists>db'. agent_store_boot 7 day6 = (Inr (), db'))"
proof -
  have "waiting ''c'' day6 = []" "list_all (\<lambda>x. \<not> run_active (ar_status x)) (a_runs day6)" by code_simp+
  moreover have "fst (take_prompt ''c'' day7) = Some (''q2'', ''second'', False, Some ''k2'')" by code_simp
  ultimately show ?thesis using restart_recovers [OF day6_reachable, of 7] by (auto simp: claim_empty)
qed

subsection \<open>The queue\<close>

text \<open>
  C6: the prompt queue of a conversation is first in, first out: after any sequence of new prompts the
  claims return the prompts that were waiting and then the new ones, each once, in the order they were
  sent; a prompt moved to the head is the next one claimed, the others keeping their order; a removed
  prompt is gone and the others stay.
\<close>

theorem prompts_in_order:
  assumes "inbox_ok c p db" "m \<in> set (waiting c db)"
    and "distinct (map fst ms)" "\<And>x. x \<in> set ms \<Longrightarrow> \<not> has_key qi_id (fst x) (a_queue db)"
  shows "take_prompts (length (waiting c db) + length ms) c (fold (send_prompt c p now) ms db) = waiting c db @ ms
    \<and> fst (take_prompt c (snd (move_queued_prompt_to_head (fst m) db))) = Some m
    \<and> waiting c (snd (move_queued_prompt_to_head (fst m) db))
       = filter (\<lambda>x. fst x = fst m) (waiting c db) @ filter (\<lambda>x. fst x \<noteq> fst m) (waiting c db)
    \<and> waiting c (snd (remove_queued_prompt (fst m) db)) = filter (\<lambda>x. fst x \<noteq> fst m) (waiting c db)"
  using prompt_inbox.first_in_first_out [OF assms(1,3,4)] prompt_inbox.promoted_is_next [OF assms(1,2)]
    prompt_inbox.promote_first [OF assms(1), of "fst m"] prompt_inbox.withdraw_gone [OF assms(1), of "fst m"] assms(2)
  by (simp add: take_prompts_drain)

theorem prompts_in_order_witness:
  "take_prompts 3 ''c'' (fold (send_prompt ''c'' ''p'' 9)
     [(''a'', ''one'', False, None), (''b'', ''two'', False, None)] day3) =
   [(''q2'', ''second'', False, Some ''k2''), (''a'', ''one'', False, None), (''b'', ''two'', False, None)]"
proof -
  have "row_of cv_id ''c'' (a_conversations day3) \<noteq> None" "list_all (\<lambda>x. cv_project x = ''p'') (a_conversations day3)"
    "distinct (map qi_id (a_queue day3))" by code_simp+
  then have ok: "inbox_ok ''c'' ''p'' day3"
    by (auto simp: inbox_ok_def unique_key_def list_all_iff dest: row_of_SomeD)
  have w: "waiting ''c'' day3 = [(''q2'', ''second'', False, Some ''k2'')]" by code_simp
  have "map qi_id (a_queue day3) = [''q2'']" by code_simp
  then have "\<not> has_key qi_id k (a_queue day3)" if "k \<noteq> ''q2''" for k using that by (auto simp: has_key_iff)
  then have "\<not> has_key qi_id (fst m) (a_queue day3)" if "m \<in> set [(''a'', ''one'', False, None), (''b'', ''two'', False, None)]" for m
    using that by auto
  from prompts_in_order [where ms = "[(''a'', ''one'', False, None), (''b'', ''two'', False, None)]" and now = 9
      and m = "(''q2'', ''second'', False, Some ''k2'')", OF ok _ _ this]
  show ?thesis by (simp add: w numeral_3_eq_3)
qed

end
