(* ===== verification/AgentTurns.thy ===== *)
theory AgentTurns
  imports AgentProperties
begin

text \<open>
  Turn taking: at most one run of a conversation is active at a time, as long as the queue drains at
  a turn boundary; the admission of a prompt; and the pages of the run history.
\<close>

subsection \<open>One active run\<close>

definition active_in :: "string \<Rightarrow> agent_db \<Rightarrow> nat" where
  "active_in c db = count_where (\<lambda>r. ar_conversation r = c \<and> run_active (ar_status r)) (a_runs db)"

definition single_turn :: "agent_db \<Rightarrow> bool" where
  "single_turn db \<longleftrightarrow> (\<forall>c. active_in c db \<le> 1)"

lemma has_active_run_count: "has_active_run c db \<longleftrightarrow> active_in c db \<noteq> 0"
  by (auto simp: has_active_run_def active_in_def list_ex_iff count_where_0)

lemma single_cong: "a_runs db' = a_runs db \<Longrightarrow> single_turn db' = single_turn db"
  by (simp add: single_turn_def active_in_def)

lemma single_other [simp]:
  "single_turn (upd_conversations P f db) = single_turn db" "single_turn (touch_conversation k now db) = single_turn db"
  "single_turn (upd_queue R h db) = single_turn db" "single_turn (push_session c tag payload now db) = single_turn db"
  "single_turn (push_event rr kind payload now db) = single_turn db"
  "single_turn (push_stream knd p co r payload now db) = single_turn db"
  "single_turn (db\<lparr>a_queue := qs\<rparr>) = single_turn db" "single_turn (db\<lparr>a_bus := n\<rparr>) = single_turn db"
  "single_turn (db\<lparr>a_conversations := cs\<rparr>) = single_turn db" "single_turn (db\<lparr>a_checkpoints := cks\<rparr>) = single_turn db"
  by (rule single_cong; simp add: upd_conversations_def touch_conversation_def upd_queue_def push_session_def push_stream_def push_event_def)+

lemma count_where_update_le:
  "(\<And>x. P x \<Longrightarrow> Q (f x) \<Longrightarrow> Q x) \<Longrightarrow> count_where Q (update_where P f xs) \<le> count_where Q xs"
  by (induction xs) (auto simp: update_where_def count_where_def)

lemma single_upd_runs:
  assumes "single_turn db" "\<And>x. ar_conversation (f x) = ar_conversation x"
    "\<And>x. P x \<Longrightarrow> run_active (ar_status (f x)) \<Longrightarrow> run_active (ar_status x)"
  shows "single_turn (upd_runs P f db)"
  unfolding single_turn_def
proof
  fix c
  have "active_in c (upd_runs P f db) \<le> active_in c db"
    unfolding active_in_def upd_runs_def using assms(2,3) by (auto intro!: count_where_update_le)
  then show "active_in c (upd_runs P f db) \<le> 1" using assms(1) le_trans unfolding single_turn_def by blast
qed

lemma single_add_run:
  "single_turn db \<Longrightarrow> \<not> has_active_run (ar_conversation run) db \<Longrightarrow> single_turn (db\<lparr>a_runs := a_runs db @ [run]\<rparr>)"
  by (auto simp: single_turn_def has_active_run_count active_in_def count_where_def)

named_theorems turn_ops "operations leave at most one active run"

lemma turn_prims [turn_ops]:
  "keeps single_turn (publish_committed n)" "keeps single_turn (append_workspace_event kind p co r payload now)"
  "keeps single_turn (get_conversation c)" "keeps single_turn (get_run rr)"
  "keeps single_turn (append_event_transaction rr knd payload now)"
  "keeps single_turn (append_session_event c kind payload now)" "keeps single_turn (set_agent_title_if_untitled c source now)"
  unfolding publish_committed_def append_workspace_event_def append_workspace_event_transaction_def get_conversation_def
    get_run_def append_event_transaction_def append_session_event_def set_agent_title_if_untitled_def
  by (intro keeps_intros keeps_modifies; simp)+

lemma turn_announce [turn_ops]: "keeps single_turn (announce_run run message internal cursor now)"
  unfolding announce_run_def by (intro keeps_intros turn_ops)

abbreviation free_turn :: "string \<Rightarrow> agent_db \<Rightarrow> bool" where
  "free_turn c db \<equiv> single_turn db \<and> \<not> has_active_run c db"

lemma turn_insert [turn_ops]: "triple (free_turn (ar_conversation run)) (insert_run run) (\<lambda>_. single_turn) single_turn"
  unfolding insert_run_def
  by (rule triple_andthen [where R = "\<lambda>_. free_turn (ar_conversation run)"], rule triple_requires)
    (auto intro!: triple_modifies single_add_run)

lemma turn_insert_transaction [turn_ops]:
  "triple (free_turn c) (insert_run_transaction uuid c p message mode internal client now) (\<lambda>_. single_turn) single_turn"
  unfolding insert_run_transaction_def Let_def
  using turn_insert [of "new_run uuid c p message mode internal client now"]
  by (intro triple_andthen [where R = "\<lambda>_. single_turn"] keeps_intros keeps_modifies turn_ops) (simp_all add: new_run_def)

lemma free_scoped: "triple (free_turn c) (conversation_of_project c' p) (\<lambda>_. free_turn c) single_turn"
  by (rule triple_weaken [OF scoped [of "free_turn c"]]) auto

lemma turn_start [turn_ops]: "keeps single_turn (start_run_with_visibility c p message mode internal client uuid now)"
proof -
  have insert: "triple (free_turn c) (insert_run (new_run uuid c p message mode internal client now)) (\<lambda>_. single_turn) single_turn"
    using turn_insert [of "new_run uuid c p message mode internal client now"] by (simp add: new_run_def)
  have fresh: "keeps single_turn (andthen (requires (\<lambda>db. \<not> has_active_run c db) e) (\<lambda>_.
      andthen (insert_run (new_run uuid c p message mode internal client now)) m))"
    if "\<And>x. keeps single_turn (m x)" for e and m :: "unit \<Rightarrow> 'x action"
    by (rule triple_andthen [where R = "\<lambda>_. free_turn c"], rule triple_requires, simp, simp)
      (rule triple_andthen [OF insert that])
  show ?thesis
    unfolding start_run_with_visibility_def Let_def
    apply (rule keeps_andthen)
     apply (rule keeps_atomically)
     apply (intro triple_option keeps_andthen [OF scoped] keeps_andthen [OF keeps_basic(3)] keeps_basic fresh)
     apply (intro keeps_intros keeps_modifies turn_ops; simp)
    apply (intro triple_prod triple_option keeps_basic turn_ops)
    done
qed

lemma turn_insert_item [turn_ops]: "keeps single_turn (insert_queue_item uuid c p content internal client now)"
  unfolding insert_queue_item_def by (intro keeps_intros keeps_modifies; simp)

lemma turn_recorded:
  "triple (free_turn c) (andthen (insert_run_transaction uuid c p message mode internal client now) m) (\<lambda>_. single_turn) single_turn"
  if "\<And>x. keeps single_turn (m x)"
  by (rule triple_andthen [OF turn_insert_transaction that])

lemma turn_admit [turn_ops]: "keeps single_turn (admit_prompt c p message mode internal client uuid now)"
proof -
  have start: "keeps single_turn (andthen (reads (has_active_run c)) (\<lambda>active. if active then m else
      andthen (insert_run_transaction uuid c p message mode internal client now) k))"
    if "keeps single_turn m" "\<And>x. keeps single_turn (k x)" for m :: "'x action" and k
    using that
    by (intro triple_andthen [where R = "\<lambda>active db. single_turn db \<and> active = has_active_run c db"] triple_if)
      (auto intro!: triple_reads elim: triple_weaken intro: triple_weaken [OF turn_recorded])
  show ?thesis
    unfolding admit_prompt_def
    apply (intro triple_option start keeps_andthen [OF scoped] keeps_andthen [OF keeps_basic(3)] keeps_basic)
     apply (intro keeps_intros keeps_modifies triple_prod turn_ops; simp)+
    done
qed

lemma turn_prompt [turn_ops]: "keeps single_turn (start_prompt_or_enqueue c p message mode internal client uuid now)"
  unfolding start_prompt_or_enqueue_def by (intro keeps_intros triple_prod triple_outcome triple_option turn_ops)

text \<open>A queued prompt starts without a check; in a free conversation it takes the turn.\<close>

lemma turn_queued [turn_ops]:
  "triple (free_turn (qi_conversation item)) (start_run_from_queue_item item mode uuid now) (\<lambda>_. single_turn) single_turn"
  unfolding start_run_from_queue_item_def Let_def
  apply (rule triple_andthen [where R = "\<lambda>_. single_turn"])
   apply (rule triple_atomically)
    apply (rule triple_True, rule triple_andthen [OF free_scoped])
    apply (rule triple_weaken [OF turn_recorded]; (intro keeps_intros keeps_modifies triple_prod turn_ops)?; simp)
   apply simp
  apply (intro triple_prod turn_ops)
  done

lemma single_claim [simp]: "single_turn (upd_queue P f db) = single_turn db" "has_active_run c (upd_queue P f db) = has_active_run c db"
  by (simp_all add: has_active_run_def upd_queue_def single_turn_def active_in_def)

lemma turn_queue_ops [turn_ops]:
  "keeps single_turn (enqueue_prompt c p content internal client uuid now)"
  "keeps single_turn (claim_next_queued_prompt c)" "keeps single_turn (edit_queued_prompt i content)"
  "keeps single_turn (remove_queued_prompt i)" "keeps single_turn (move_queued_prompt_to_head i)"
  "keeps single_turn (publish_prompt_queue_snapshot c now)" "keeps single_turn reset_orphaned_queue_claims"
  unfolding enqueue_prompt_def claim_next_queued_prompt_def edit_queued_prompt_def require_pending_item_def
    remove_queued_prompt_def move_queued_prompt_to_head_def publish_prompt_queue_snapshot_def reset_orphaned_queue_claims_def
  by (intro keeps_intros keeps_modifies scoped turn_ops; simp)+

lemma turn_conversation_ops [turn_ops]:
  "keeps single_turn (insert_conversation row)" "keeps single_turn (create_conversation p a title uuid now)"
  "keeps single_turn (set_conversation_title c manual title now)" "keeps single_turn (set_provider_session c provider now)"
  "keeps single_turn (ensure_subagent_conversation quote parent_id sub name prompt uuid now)"
  "keeps single_turn (emit_subagent_update parent_id child sub name prompt status now)"
  "keeps single_turn (set_run_checkpoint r before after_tree)" "keeps single_turn (append_event rr kind payload now)"
  unfolding insert_conversation_def create_conversation_def set_conversation_title_def set_provider_session_def
    ensure_subagent_conversation_def emit_subagent_update_def set_run_checkpoint_def append_event_def
  by (intro keeps_intros keeps_modifies turn_ops; simp)+

lemma turn_run_ops [turn_ops]:
  "run_active status \<Longrightarrow> keeps single_turn (set_run_status r status)"
  "\<not> run_active status \<Longrightarrow> keeps single_turn (finish_run r status err cause now)"
  "keeps single_turn (interrupt_run now r)" "keeps single_turn (broadcast_idle now r)"
  unfolding set_run_status_def finish_run_def interrupt_run_def broadcast_idle_def
  by (intro keeps_intros keeps_modifies turn_ops single_upd_runs; simp add: ended_run_def run_active_def)+

lemma turn_boot [turn_ops]: "keeps single_turn (agent_store_boot now)"
  unfolding agent_store_boot_def interrupt_inflight_runs_def by (intro keeps_intros keeps_modifies turn_ops; simp)

text \<open>The drain in a free conversation: claiming and publishing leave it free.\<close>

lemma free_prims:
  "keeps (free_turn c) (claim_next_queued_prompt c')" "keeps (free_turn c) (publish_prompt_queue_snapshot c' now)"
proof -
  have other: "has_active_run c (push_stream kind p co r payload now db) = has_active_run c db"
    "has_active_run c (db\<lparr>a_bus := n\<rparr>) = has_active_run c db" for kind p co r payload now db n
    by (simp_all add: has_active_run_def push_stream_def)
  show "keeps (free_turn c) (claim_next_queued_prompt c')" "keeps (free_turn c) (publish_prompt_queue_snapshot c' now)"
    unfolding claim_next_queued_prompt_def publish_prompt_queue_snapshot_def append_workspace_event_def
      append_workspace_event_transaction_def publish_committed_def get_conversation_def
    by (intro keeps_intros keeps_modifies; simp add: other)+
qed

lemma turn_drain: "triple (free_turn c) (drain_next c uuid now) (\<lambda>_. single_turn) single_turn"
proof -
  have start: "triple (free_turn (qi_conversation item)) (\<lambda>db. case start_run_from_queue_item item Safe uuid now db of
      (Inl _, db1) \<Rightarrow> (Inr None, db1) | (Inr run, db1) \<Rightarrow> (Inr (Some run), db1)) (\<lambda>_. single_turn) single_turn" for item
    using turn_queued [of item Safe uuid now]
    by (fastforce simp: triple_def split: prod.splits sum.splits)
  have "triple (free_turn c) (claim_next_queued_prompt c)
      (\<lambda>o' db. free_turn c db \<and> (\<forall>item. o' = Some item \<longrightarrow> qi_conversation item = c)) single_turn"
  proof -
    have "qi_conversation item = c" if "queued_prompts c db = item # items" for item items db
    proof -
      have "item \<in> set (queued_prompts c db)" using that by simp
      then show ?thesis by (simp add: queued_prompts_def pending_item_def)
    qed
    then show ?thesis by (auto simp: triple_def claim_next_queued_prompt_def act_defs split: list.splits)
  qed
  then show ?thesis
    unfolding drain_next_def
  proof (rule triple_andthen)
    fix o' :: "queue_item option"
    show "triple (\<lambda>db. free_turn c db \<and> (\<forall>item. o' = Some item \<longrightarrow> qi_conversation item = c))
      (case o' of None \<Rightarrow> returns None | Some item \<Rightarrow> andthen (attempts (publish_prompt_queue_snapshot c now)) (\<lambda>_ db.
        case start_run_from_queue_item item Safe uuid now db of
          (Inl _, db1) \<Rightarrow> (Inr None, db1) | (Inr run, db1) \<Rightarrow> (Inr (Some run), db1))) (\<lambda>_. single_turn) single_turn"
    proof (cases o')
      case (Some item)
      have "triple (free_turn (qi_conversation item)) (andthen (attempts (publish_prompt_queue_snapshot c now)) (\<lambda>_ db.
        case start_run_from_queue_item item Safe uuid now db of
          (Inl _, db1) \<Rightarrow> (Inr None, db1) | (Inr run, db1) \<Rightarrow> (Inr (Some run), db1))) (\<lambda>_. single_turn) single_turn"
        by (rule triple_andthen [where R = "\<lambda>_. free_turn (qi_conversation item)", OF triple_attempts [OF free_prims(2)] start])
      then show ?thesis using Some by (auto elim!: triple_weaken)
    qed (auto intro!: triple_returns)
  qed
qed

text \<open>The server with the queue of a conversation drained only between its turns.\<close>

inductive turn_step :: "agent_db \<Rightarrow> agent_db \<Rightarrow> bool" where
  other_step: "agent_step op db db' \<Longrightarrow> op \<noteq> Drain \<Longrightarrow> turn_step db db'"
| drain_step: "\<not> has_active_run c db \<Longrightarrow> turn_step db (snd (drain_next c uuid now db))"

lemma single_step: "agent_step op db db' \<Longrightarrow> op \<noteq> Drain \<Longrightarrow> single_turn db \<Longrightarrow> single_turn db'"
  by (induction rule: agent_step.induct) (simp_all add: keepsD turn_ops set_manual_title_def set_agent_title_def)

lemma single_turn_step: "turn_step db db' \<Longrightarrow> single_turn db \<Longrightarrow> single_turn db'"
proof (induction rule: turn_step.induct)
  case (drain_step c db uuid now)
  then show ?case using turn_drain [of c uuid now]
    by (cases "drain_next c uuid now db"; cases "fst (drain_next c uuid now db)") (auto simp: triple_def dest!: spec [of _ db])
qed (simp add: single_step)

interpretation turns: invariant_system is_empty_agent_db turn_step single_turn
proof unfold_locales
  show "is_empty_agent_db s \<Longrightarrow> single_turn s" for s
    by (simp add: is_empty_agent_db_def single_turn_def active_in_def empty_agent_db_def)
qed (rule single_turn_step)

text \<open>
  C9: at most one run of a conversation is active, in every database reached by any sequence of
  operations in which the queue of a conversation is drained only while none of its runs is active:
  starting, admitting, waiting, finishing, steering and restarting never put two agents to work on one
  conversation.
\<close>

theorem one_active_run:
  assumes "reaches turn_step empty_agent_db db"
  shows "length (filter (\<lambda>r. ar_conversation r = c \<and> run_active (ar_status r)) (a_runs db)) \<le> 1"
  using turns.inv_reachable [OF _ assms]
  by (simp add: is_empty_agent_db_def single_turn_def active_in_def count_where_def)

lemma day_turns: "reaches turn_step empty_agent_db day5"
proof -
  have one: "turn_step empty_agent_db day1" unfolding day1_def by (rule other_step, rule do_create_conversation) simp
  have two: "turn_step day1 day2" "turn_step day2 day3" unfolding day2_def day3_def
    by (rule other_step, rule do_prompt, simp)+
  have three: "turn_step day3 day4" unfolding day4_def by (rule other_step, rule do_finish) (simp_all add: run_active_def)
  have "\<not> has_active_run ''c'' day4" by code_simp
  then have "turn_step day4 day5" unfolding day5_def by (rule drain_step)
  with one two three show ?thesis by (meson reaches_refl reaches_step)
qed

theorem one_active_run_witness:
  "length (filter (\<lambda>r. ar_conversation r = ''c'' \<and> run_active (ar_status r)) (a_runs day5)) = 1"
proof -
  have "has_active_run ''c'' day5" by code_simp
  then have "length (filter (\<lambda>r. ar_conversation r = ''c'' \<and> run_active (ar_status r)) (a_runs day5)) \<noteq> 0"
    by (auto simp: has_active_run_def list_ex_iff filter_empty_conv)
  then show ?thesis using one_active_run [OF day_turns, of "''c''"] by linarith
qed

definition "race1 = snd (start_prompt_or_enqueue ''c'' ''p'' ''third'' Safe False (Some ''k3'') ''r3'' 5 day4)"
definition "race2 = snd (drain_next ''c'' ''r2'' 5 race1)"


end
