(* ===== verification/AgentHistory.thy ===== *)
theory AgentHistory
  imports AgentTurns
begin

text \<open>
  The admission of a prompt, with its replay for a repeated client message id, and the pages in which
  a client loads the runs of a conversation.
\<close>

subsection \<open>Pages\<close>

lemma page_of_drop: "page_of limit rows = (drop (length rows - limit) rows, limit < length rows)"
proof -
  have "rev (butlast (take (limit + 1) (rev rows))) = drop (length rows - limit) rows" if "limit < length rows"
    using that Suc_diff_Suc [OF that]
    by (simp add: butlast_take take_rev drop_Suc [of "length rows - Suc limit" rows, folded tl_drop, symmetric])
  moreover have "rev (take (limit + 1) (rev rows)) = drop (length rows - limit) rows" if "\<not> limit < length rows"
    using that by simp
  ultimately show ?thesis by (auto simp: page_of_def Let_def)
qed

lemma filter_takeWhile_nth:
  "distinct (map f xs) \<Longrightarrow> k < length (filter C xs) \<Longrightarrow>
   filter C (takeWhile (\<lambda>r. f r \<noteq> f (filter C xs ! k)) xs) = take k (filter C xs)"
proof (induction xs arbitrary: k)
  case (Cons x xs)
  have later: "f x \<noteq> f (filter C xs ! j)" if "j < length (filter C xs)" for j
  proof -
    have "filter C xs ! j \<in> set xs" using nth_mem [OF that] by simp
    then show ?thesis using Cons.prems(1) by auto
  qed
  show ?case
  proof (cases "C x")
    case True
    then show ?thesis using Cons later by (cases k) auto
  next
    case False
    then show ?thesis using Cons later [of k] by simp
  qed
qed simp

definition runs_of :: "string \<Rightarrow> agent_db \<Rightarrow> agent_run list" where
  "runs_of c db = filter (\<lambda>r. ar_conversation r = c) (a_runs db)"

lemma rows_before_nth:
  assumes "unique_key ar_id (a_runs db)" "k < length (runs_of c db)"
  shows "rows_before c (Some (ar_id (runs_of c db ! k))) db = take k (runs_of c db)"
  using filter_takeWhile_nth [of ar_id "a_runs db" k "\<lambda>r. ar_conversation r = c"] assms
  by (simp add: rows_before_def runs_of_def unique_key_def)

lemma page_succeeds:
  assumes "has_key cv_id c (a_conversations db)" "limit + 1 < 2 ^ 63"
    "before = None \<or> (\<exists>x\<in>set (runs_of c db). before = Some (ar_id x))"
  shows "list_runs_page c before limit db = (Inr (page_of limit (rows_before c before db)), db)"
proof -
  have "\<exists>row. row_of cv_id c (a_conversations db) = Some row"
    using assms(1) row_of_exists [of cv_id] by blast
  then show ?thesis
    using assms(2,3)
    by (auto simp: list_runs_page_def runs_page_def get_conversation_def act_defs runs_of_def list_ex_iff split: option.splits)
qed

text \<open>A client that loads page after page, each before the first run of the last, until no more are announced.\<close>

primrec load_pages :: "nat \<Rightarrow> string \<Rightarrow> nat \<Rightarrow> string option \<Rightarrow> agent_db \<Rightarrow> agent_run list" where
  "load_pages 0 c limit before db = []"
| "load_pages (Suc n) c limit before db = (case list_runs_page c before limit db of
     (Inl _, _) \<Rightarrow> []
   | (Inr (page, earlier), _) \<Rightarrow> (if earlier then load_pages n c limit (Some (ar_id (hd page))) db else []) @ page)"

lemma load_pages_take:
  assumes "has_key cv_id c (a_conversations db)" "unique_key ar_id (a_runs db)" "0 < limit" "limit + 1 < 2 ^ 63"
  shows "m \<le> length (runs_of c db) \<Longrightarrow> m \<le> n * limit \<Longrightarrow> rows_before c before db = take m (runs_of c db) \<Longrightarrow>
    before = None \<or> (\<exists>x\<in>set (runs_of c db). before = Some (ar_id x)) \<Longrightarrow>
    load_pages n c limit before db = take m (runs_of c db)"
proof (induction n arbitrary: m before)
  case (Suc n)
  let ?all = "runs_of c db"
  have page: "list_runs_page c before limit db = (Inr (drop (m - limit) (take m ?all), limit < m), db)"
    using page_succeeds [OF assms(1,4) Suc.prems(4)] Suc.prems(1,3) by (simp add: page_of_drop)
  show ?case
  proof (cases "limit < m")
    case True
    have k: "m - limit < length ?all" using True Suc.prems(1) assms(3) by linarith
    have hd: "hd (drop (m - limit) (take m ?all)) = ?all ! (m - limit)"
      using True k assms(3) by (simp add: hd_drop_conv_nth)
    have "load_pages n c limit (Some (ar_id (?all ! (m - limit)))) db = take (m - limit) ?all"
    proof (rule Suc.IH)
      show "m - limit \<le> n * limit" using Suc.prems(2) by simp
      show "Some (ar_id (?all ! (m - limit))) = None \<or> (\<exists>x\<in>set ?all. Some (ar_id (?all ! (m - limit))) = Some (ar_id x))"
        using nth_mem [OF k] by blast
    qed (use k rows_before_nth [OF assms(2) k] in simp_all)
    moreover have "take (m - limit) ?all @ drop (m - limit) (take m ?all) = take m ?all"
      by (metis append_take_drop_id diff_le_self min.absorb1 take_take)
    ultimately show ?thesis by (simp only: load_pages.simps page prod.case sum.case True if_True hd)
  next
    case False
    then show ?thesis by (simp add: page)
  qed
qed simp

text \<open>
  C38: loading the history of a conversation page by page, each page asked for before the first run of
  the previous one, ends and yields every run of the conversation exactly once in the order they were
  started, for every page size and every number of pages that suffices for the runs there are.
\<close>

theorem history_pages_complete:
  assumes "agent_reachable db" "has_key cv_id c (a_conversations db)" "0 < limit" "limit + 1 < 2 ^ 63"
    and "length (filter (\<lambda>r. ar_conversation r = c) (a_runs db)) \<le> pages * limit"
  shows "load_pages pages c limit None db = filter (\<lambda>r. ar_conversation r = c) (a_runs db)"
  using load_pages_take [OF assms(2) _ assms(3,4), of "length (runs_of c db)" pages None] reachable_runs [OF assms(1)] assms(5)
  by (simp add: runs_ok_def runs_of_def rows_before_def)

theorem history_pages_complete_witness:
  "map ar_id (load_pages 2 ''c'' 1 None day6) = [''r1'', ''r2''] \<and> load_pages 2 ''c'' 1 None day6 = a_runs day6"
proof -
  have f: "map ar_id (filter (\<lambda>r. ar_conversation r = ''c'') (a_runs day6)) = [''r1'', ''r2'']"
    "list_all (\<lambda>r. ar_conversation r = ''c'') (a_runs day6)" "has_key cv_id ''c'' (a_conversations day6)" by code_simp+
  have "length (filter (\<lambda>r. ar_conversation r = ''c'') (a_runs day6)) = length [''r1'', ''r2'']"
    using arg_cong [OF f(1), of length] by simp
  then have "load_pages 2 ''c'' 1 None day6 = filter (\<lambda>r. ar_conversation r = ''c'') (a_runs day6)"
    by (intro history_pages_complete day6_reachable f(3)) simp_all
  then show ?thesis using f(1,2) by (simp add: list_all_iff)
qed

subsection \<open>Admission\<close>

lemma triple_found: "(\<And>db. P db \<Longrightarrow> \<exists>x. f db = Some x \<and> Q x db) \<Longrightarrow> triple P (finds f e) Q E"
  by (fastforce simp: triple_def finds_def)

text \<open>What the announcement of a run leaves alone.\<close>

definition stands :: "string \<Rightarrow> string \<Rightarrow> agent_run list \<Rightarrow> queue_item list \<Rightarrow> agent_event list \<Rightarrow> agent_db \<Rightarrow> bool" where
  "stands c p rs qs es db \<longleftrightarrow> (\<exists>row. row_of cv_id c (a_conversations db) = Some row \<and> cv_project row = p)
     \<and> a_runs db = rs \<and> a_queue db = qs \<and> a_events db = es"

lemma stands_row: "stands c p rs qs es db \<Longrightarrow> \<exists>row. row_of cv_id c (a_conversations db) = Some row"
  by (auto simp: stands_def)

lemma stands_other [simp]:
  "stands c p rs qs es (push_stream kind po co r payload now db) = stands c p rs qs es db"
  "stands c p rs qs es (push_session c' tag payload now db) = stands c p rs qs es db"
  "stands c p rs qs es (db\<lparr>a_bus := n\<rparr>) = stands c p rs qs es db"
  by (simp_all add: stands_def push_stream_def push_session_def)

lemma stands_title [simp]:
  "(\<And>x. cv_id (f x) = cv_id x) \<Longrightarrow> (\<And>x. cv_project (f x) = cv_project x) \<Longrightarrow> stands c p rs qs es (upd_conversations P f db) = stands c p rs qs es db"
  by (cases "row_of cv_id c (a_conversations db)") (auto simp: stands_def upd_conversations_def row_of_update_where)

lemma stands_prims:
  "triple (stands c p rs qs es) (publish_committed n) (\<lambda>_. stands c p rs qs es) E"
  "triple (stands c p rs qs es) (get_conversation c) (\<lambda>_. stands c p rs qs es) E"
  unfolding publish_committed_def get_conversation_def
   apply (rule triple_modifies, simp)
  apply (rule triple_found, simp add: stands_row)
  done

lemma stands_event: "triple (stands c p rs qs es) (append_workspace_event kind po co r payload now) (\<lambda>_. stands c p rs qs es) E"
  unfolding append_workspace_event_def append_workspace_event_transaction_def
  apply (rule triple_andthen [where R = "\<lambda>n db. stands c p rs qs es db \<and> has_key we_id n (a_stream db)"])
   apply (rule triple_andthen [where R = "\<lambda>_ db. stands c p rs qs es db \<and> has_key we_id (a_stream_seq db) (a_stream db)"])
    apply (rule triple_modifies, simp add: push_stream_def [of _ _ _ _ _ _ "_ :: agent_db"] stands_def)
   apply (rule triple_reads, simp)
  subgoal for n
    apply (rule triple_andthen [where R = "\<lambda>_ db. stands c p rs qs es db \<and> has_key we_id n (a_stream db)"])
     apply (simp add: publish_committed_def, rule triple_modifies, simp add: stands_def)
    apply (rule triple_found, use row_of_exists [of we_id] in blast)
    done
  done

lemma stands_announce: "triple (stands (ar_conversation run) p rs qs es) (announce_run run message internal n now)
    (\<lambda>x db. x = run \<and> stands (ar_conversation run) p rs qs es db) E"
proof -
  let ?I = "stands (ar_conversation run) p rs qs es"
  have title: "triple ?I (set_agent_title_if_untitled (ar_conversation run) message now) (\<lambda>_. ?I) E"
    unfolding set_agent_title_if_untitled_def
    apply (rule triple_option, rule triple_returns, assumption)
    apply (rule triple_andthen [where R = "\<lambda>_. ?I"], rule triple_reads, assumption)
    apply (rule triple_if, rule triple_andthen [OF stands_prims(2)], rule triple_returns, assumption)
    apply (rule triple_andthen [where R = "\<lambda>_. ?I"], rule triple_modifies, simp)
    apply (rule triple_andthen [OF stands_prims(2)], rule triple_andthen [OF stands_event], rule triple_returns, assumption)
    done
  have logged: "triple ?I (append_session_event (ar_conversation run) tag payload now) (\<lambda>_. ?I) E" for tag payload
    unfolding append_session_event_def
    apply (rule triple_andthen [OF stands_prims(2)])
    apply (rule triple_andthen [where R = "\<lambda>_. ?I"], rule triple_reads, assumption)
    apply (rule triple_andthen [where R = "\<lambda>_. ?I"], rule triple_modifies, simp)
    apply (rule triple_returns, assumption)
    done
  show ?thesis
    unfolding announce_run_def
    apply (rule triple_andthen [OF stands_prims(1)])
    apply (rule triple_andthen [where R = "\<lambda>_. ?I"], rule triple_if, rule triple_returns, assumption, rule title)
    apply (rule triple_andthen [OF logged], rule triple_returns, simp)
    done
qed

lemma admit_starts:
  fixes message :: string and mode :: permission_mode and internal :: bool and now :: nat
  assumes "row_of cv_id c (a_conversations db) = Some row" "cv_project row = p" "known_prompt client db = None"
    "\<not> has_active_run c db" "\<not> has_key ar_id uuid (a_runs db)"
  defines "run \<equiv> new_run uuid c p message mode internal client now"
  shows "\<exists>n db1 e1 e2. admit_prompt c p message mode internal client uuid now db = (Inr (Started run, Some n), db1)
    \<and> stands c p (a_runs db @ [run]) (a_queue db) (a_events db @ [e1, e2]) db1
    \<and> ae_run e1 = uuid \<and> ae_kind e1 = AkRunStarted \<and> ae_run e2 = uuid \<and> ae_kind e2 = AkRunStarted"
proof -
  have row: "row_of ar_id uuid (a_runs db @ [run]) = Some run"
    using assms(5) by (simp add: row_of_append row_of_None [THEN iffD2] run_def new_run_def row_of_def [of _ _ "[_]"])
  have key: "has_key cv_id c (a_conversations db)" using assms(1) by (metis option.distinct(1) row_of_None)
  show ?thesis
    using assms(1-5) row key
    by (simp add: admit_prompt_def conversation_of_project_def insert_run_transaction_def insert_run_def act_defs Let_def
        append_event_transaction_def append_workspace_event_transaction_def push_event_def push_stream_def touch_conversation_def
        upd_conversations_def stands_def row_of_update_where flip: run_def) (simp add: run_def new_run_def)
qed

lemma find_append1: "find P (xs @ [x]) = (case find P xs of None \<Rightarrow> if P x then Some x else None | Some y \<Rightarrow> Some y)"
  by (induction xs) auto

lemma known_after:
  assumes "known_prompt client db = None" "client = Some k"
  shows "a_runs db' = a_runs db @ [run] \<Longrightarrow> ar_client run = client \<Longrightarrow> known_prompt client db' = Some (Started run)"
    and "a_runs db' = a_runs db \<Longrightarrow> a_queue db' = a_queue db @ [item] \<Longrightarrow> qi_client item = client
      \<Longrightarrow> known_prompt client db' = Some (Queued item)"
proof -
  have "find (\<lambda>r. ar_client r = Some k) (a_runs db) = None" "find (\<lambda>q. qi_client q = Some k) (a_queue db) = None"
    using assms by (simp_all add: known_prompt_def existing_run_by_client_message_id_def
        queue_item_by_client_message_id_def split: option.splits)
  then show "a_runs db' = a_runs db @ [run] \<Longrightarrow> ar_client run = client \<Longrightarrow> known_prompt client db' = Some (Started run)"
    "a_runs db' = a_runs db \<Longrightarrow> a_queue db' = a_queue db @ [item] \<Longrightarrow> qi_client item = client
      \<Longrightarrow> known_prompt client db' = Some (Queued item)"
    using assms(2) by (simp_all add: find_append1 known_prompt_def existing_run_by_client_message_id_def queue_item_by_client_message_id_def)
qed

lemma prompt_known:
  assumes "row_of cv_id c (a_conversations db) = Some row" "cv_project row = p" "known_prompt client db = Some outcome"
  shows "start_prompt_or_enqueue c p message mode internal client uuid now db = (Inr outcome, db)"
  using assms by (cases outcome) (simp_all add: start_prompt_or_enqueue_def admit_prompt_def conversation_of_project_def act_defs)

lemma prompt_queued:
  assumes "row_of cv_id c (a_conversations db) = Some row" "cv_project row = p" "known_prompt client db = None"
    "has_active_run c db" "\<not> has_key qi_id uuid (a_queue db)"
  shows "start_prompt_or_enqueue c p message mode internal client uuid now db
    = (Inr (Queued (new_item uuid c p message (next_position c db) internal client now)),
       db\<lparr>a_queue := a_queue db @ [new_item uuid c p message (next_position c db) internal client now]\<rparr>)"
  using assms
  by (simp add: start_prompt_or_enqueue_def admit_prompt_def conversation_of_project_def insert_queue_item_def act_defs Let_def)

lemma prompt_starts:
  fixes message mode internal now
  assumes "row_of cv_id c (a_conversations db) = Some row" "cv_project row = p" "known_prompt client db = None"
    "\<not> has_active_run c db" "\<not> has_key ar_id uuid (a_runs db)"
  defines "run \<equiv> new_run uuid c p message mode internal client now"
  shows "\<exists>db' e1 e2. start_prompt_or_enqueue c p message mode internal client uuid now db = (Inr (Started run), db')
    \<and> stands c p (a_runs db @ [run]) (a_queue db) (a_events db @ [e1, e2]) db'
    \<and> ae_run e1 = uuid \<and> ae_kind e1 = AkRunStarted \<and> ae_run e2 = uuid \<and> ae_kind e2 = AkRunStarted"
proof -
  obtain n db1 e1 e2 where a: "admit_prompt c p message mode internal client uuid now db = (Inr (Started run, Some n), db1)"
      "stands c p (a_runs db @ [run]) (a_queue db) (a_events db @ [e1, e2]) db1"
    and e: "ae_run e1 = uuid" "ae_kind e1 = AkRunStarted" "ae_run e2 = uuid" "ae_kind e2 = AkRunStarted"
    using admit_starts [OF assms(1-5), of message mode internal now] unfolding run_def by blast
  have c: "ar_conversation run = c" by (simp add: run_def new_run_def)
  obtain db' where "announce_run run message internal n now db1 = (Inr run, db')"
      "stands c p (a_runs db @ [run]) (a_queue db) (a_events db @ [e1, e2]) db'"
    using stands_announce [of run p "a_runs db @ [run]" "a_queue db" "a_events db @ [e1, e2]" message internal n now "\<lambda>_. False"] a(2)
    unfolding c triple_def
    by (cases "announce_run run message internal n now db1"; cases "fst (announce_run run message internal n now db1)") fastforce+
  then have "start_prompt_or_enqueue c p message mode internal client uuid now db = (Inr (Started run), db')"
    by (simp add: start_prompt_or_enqueue_def act_defs a(1))
  with \<open>stands c p _ _ _ db'\<close> e show ?thesis by blast
qed

text \<open>
  C10: a prompt is admitted exactly once.  A prompt whose client message id is known is answered with the
  run or the queue entry of its first admission, and changes nothing; otherwise it waits at the end of
  the queue when a run of the conversation is active, and starts a run of its own when none is; the same
  client message id sent again, with whatever text, then gets the same answer and changes nothing.  The
  start of a run admitted this way is recorded twice in its event log.
\<close>

theorem prompt_admitted_once:
  assumes "agent_reachable db" "row_of cv_id c (a_conversations db) = Some row" "cv_project row = p"
    and "\<not> has_key ar_id uuid (a_runs db)" "\<not> has_key qi_id uuid (a_queue db)"
  shows "\<exists>outcome db'. start_prompt_or_enqueue c p message mode internal client uuid now db = (Inr outcome, db')
    \<and> (\<forall>known. known_prompt client db = Some known \<longrightarrow> outcome = known \<and> db' = db)
    \<and> (known_prompt client db = None \<and> has_active_run c db \<longrightarrow> a_runs db' = a_runs db \<and> (\<exists>item. outcome = Queued item
         \<and> prompt_of item = (uuid, message, internal, client) \<and> a_queue db' = a_queue db @ [item]))
    \<and> (known_prompt client db = None \<and> \<not> has_active_run c db \<longrightarrow> a_queue db' = a_queue db \<and> (\<exists>run. outcome = Started run
         \<and> ar_message run = message \<and> ar_conversation run = c \<and> a_runs db' = a_runs db @ [run]
         \<and> map ae_kind (run_log uuid db') = [AkRunStarted, AkRunStarted]))
    \<and> (client \<noteq> None \<longrightarrow> start_prompt_or_enqueue c p message' mode internal client uuid' now' db' = (Inr outcome, db'))"
proof (cases "known_prompt client db")
  case (Some known)
  then show ?thesis using prompt_known [OF assms(2,3) Some] by auto
next
  case None
  show ?thesis
  proof (cases "has_active_run c db")
    case True
    note q = prompt_queued [OF assms(2,3) None True assms(5), of message mode internal now]
    let ?db = "db\<lparr>a_queue := a_queue db @ [new_item uuid c p message (next_position c db) internal client now]\<rparr>"
    have "start_prompt_or_enqueue c p message' mode internal client uuid' now' ?db
        = (Inr (Queued (new_item uuid c p message (next_position c db) internal client now)), ?db)" if "client \<noteq> None"
      using that known_after(2) [OF None, of _ ?db] assms(2,3)
      by (intro prompt_known) (auto simp: new_item_def)
    then show ?thesis using q None True by (auto simp: prompt_of_def new_item_def)
  next
    case False
    let ?run = "new_run uuid c p message mode internal client now"
    obtain db' e1 e2 where s: "start_prompt_or_enqueue c p message mode internal client uuid now db = (Inr (Started ?run), db')"
        "stands c p (a_runs db @ [?run]) (a_queue db) (a_events db @ [e1, e2]) db'"
        "ae_run e1 = uuid" "ae_kind e1 = AkRunStarted" "ae_run e2 = uuid" "ae_kind e2 = AkRunStarted"
      using prompt_starts [OF assms(2,3) None False assms(4), of message mode internal now] by blast
    have "run_log uuid db = []"
      using reachable_runs [OF assms(1)] assms(4) by (auto simp: run_log_def filter_empty_conv runs_ok_def)
    then have log: "map ae_kind (run_log uuid db') = [AkRunStarted, AkRunStarted]"
      using s(2-) by (simp add: run_log_def stands_def)
    have "start_prompt_or_enqueue c p message' mode internal client uuid' now' db' = (Inr (Started ?run), db')" if "client \<noteq> None"
    proof -
      obtain row' where "row_of cv_id c (a_conversations db') = Some row'" "cv_project row' = p"
        using s(2) by (auto simp: stands_def)
      moreover have "known_prompt client db' = Some (Started ?run)"
        using that known_after(1) [OF None, of _ db' ?run] s(2) by (auto simp: stands_def new_run_def)
      ultimately show ?thesis by (rule prompt_known)
    qed
    then show ?thesis using s(1,2) log None False by (auto simp: stands_def new_run_def)
  qed
qed

theorem prompt_admitted_once_witness:
  "\<exists>outcome db'. start_prompt_or_enqueue ''c'' ''p'' ''first'' Safe False (Some ''k1'') ''r1'' 2 day1 = (Inr outcome, db')
     \<and> map ae_kind (run_log ''r1'' db') = [AkRunStarted, AkRunStarted]
     \<and> start_prompt_or_enqueue ''c'' ''p'' ''again'' Safe False (Some ''k1'') ''r9'' 9 db' = (Inr outcome, db')"
proof -
  have day: "map cv_project (a_conversations day1) = [''p'']" "has_key cv_id ''c'' (a_conversations day1)" "a_runs day1 = []"
    "a_queue day1 = []" "known_prompt (Some ''k1'') day1 = None" "\<not> has_active_run ''c'' day1" by code_simp+
  then obtain row where row: "row_of cv_id ''c'' (a_conversations day1) = Some row" using row_of_exists [of cv_id] by blast
  then have "cv_project row = ''p''" using day(1) row_of_SomeD [OF row] by (metis in_set_conv_nth length_map nth_map list.set_map image_eqI
        list.set(1,2) singletonD)
  from prompt_admitted_once [OF day_reaches(1) row this, of "''r1''" "''first''" Safe False "Some ''k1''" 2 "''again''" "''r9''" 9]
  show ?thesis using day by (simp, metis)
qed

end
