(* ===== verification/AgentCalendar.thy ===== *)
theory AgentCalendar
  imports AgentText
begin

text \<open>
  The date that stamps a queued prompt: \<open>civil_from_days\<close> (\<open>prompt_queue.rs\<close>) agrees with counting the
  days of the Gregorian calendar from 1 January 1970.  Years are counted from March, so that the leap
  day is the last of its year; \<open>year_start\<close> is the number of days before such a year.
\<close>

subsection \<open>Years that begin in March\<close>

definition year_start :: "nat \<Rightarrow> nat" where
  "year_start y = 365 * y + y div 4 - y div 100 + y div 400"

definition year_len :: "nat \<Rightarrow> nat" where
  "year_len y = (if leap (y + 1) then 366 else 365)"

text \<open>The month and the day of a day of the year.\<close>

definition month_day :: "nat \<Rightarrow> nat \<times> nat" where
  "month_day doy = (let mp = (5 * doy + 2) div 153 in
     (if mp < 10 then mp + 3 else mp - 9, doy - (153 * mp + 2) div 5 + 1))"

definition date_of :: "nat \<Rightarrow> nat \<Rightarrow> nat \<times> nat \<times> nat" where
  "date_of y doy = (if fst (month_day doy) \<le> 2 then y + 1 else y, month_day doy)"

lemma year_start_Suc: "year_start (Suc y) = year_start y + year_len y"
proof -
  have "y div 100 \<le> y div 4" by (rule div_le_mono2) simp_all
  then obtain k where "y div 4 = y div 100 + k" using le_Suc_ex by blast
  moreover have "Suc y mod 100 = 0 \<Longrightarrow> Suc y mod 4 = 0" "Suc y mod 400 = 0 \<Longrightarrow> Suc y mod 100 = 0" by presburger+
  ultimately show ?thesis
    unfolding year_start_def year_len_def leap_def div_Suc by (auto split: if_splits)
qed

lemma era_digits:
  "(400 * e + y) div 4 = 100 * e + y div (4::nat)" "(400 * e + y) div 100 = 4 * e + y div (100::nat)"
  "(400 * e + y) div 400 = e + y div (400::nat)" "(400 * e + y) mod 4 = y mod (4::nat)"
  "(400 * e + y) mod 100 = y mod (100::nat)" "(400 * e + y) mod 400 = y mod (400::nat)"
proof -
  have f: "400 * e = 4 * (100 * e)" "400 * e = 100 * (4 * e)" for e :: nat by simp_all
  show "(400 * e + y) div 4 = 100 * e + y div 4" "(400 * e + y) mod 4 = y mod 4"
    unfolding f(1) by (subst div_mult_self4 mod_mult_self4; simp)+
  show "(400 * e + y) div 100 = 4 * e + y div 100" "(400 * e + y) mod 100 = y mod 100"
    unfolding f(2) by (subst div_mult_self4 mod_mult_self4; simp)+
  show "(400 * e + y) div 400 = e + y div 400" "(400 * e + y) mod 400 = y mod 400" by simp_all
qed

lemma year_start_era: "year_start (400 * e + y) = 146097 * e + year_start y"
proof -
  have "y div 100 \<le> y div 4" by (rule div_le_mono2) simp_all
  then obtain k where "y div 4 = y div 100 + k" using le_Suc_ex by blast
  then show ?thesis by (simp add: year_start_def era_digits)
qed

lemma leap_era: "leap (400 * e + y) = leap y"
  by (simp add: leap_def era_digits)

subsection \<open>The days of a year\<close>

definition next_month_day :: "bool \<Rightarrow> nat \<times> nat \<Rightarrow> nat \<times> nat \<times> nat" where
  "next_month_day l md = (case md of (m, d) \<Rightarrow>
     if d < (if m = 2 then (if l then 29 else 28) else if m \<in> {4, 6, 9, 11} then 30 else 31) then (0, m, d + 1)
     else if m < 12 then (0, m + 1, 1) else (1, 1, 1))"

lemma next_day_month: "next_day (y, md) = (case next_month_day (leap y) md of (c, md') \<Rightarrow> (y + c, md'))"
  by (cases md) (simp add: next_day_def next_month_day_def month_days_def)

text \<open>The months from March on: where they begin, how they are numbered.\<close>

definition month_start :: "nat \<Rightarrow> nat" where
  "month_start k = (153 * k + 2) div 5"

definition month_of :: "nat \<Rightarrow> nat" where
  "month_of k = (if k < 10 then k + 3 else k - 9)"

lemma month_day_in:
  assumes "month_start k \<le> doy" "doy < month_start (k + 1)"
  shows "month_day doy = (month_of k, doy - month_start k + 1)"
proof -
  have "(5 * doy + 2) div 153 = k"
    using assms unfolding month_start_def by (intro div_nat_eqI) simp_all
  then show ?thesis by (simp add: month_day_def month_start_def month_of_def Let_def)
qed

lemma month_exists: "\<exists>k. month_start k \<le> doy \<and> doy < month_start (k + 1)"
proof -
  define k where "k = (5 * doy + 2) div 153"
  have "153 * k \<le> 5 * doy + 2" "5 * doy + 2 < 153 * k + 153" unfolding k_def by simp_all
  then have "153 * k + 2 < (doy + 1) * 5" "(doy + 1) * 5 \<le> 153 * (k + 1) + 2" by auto
  then have "month_start k < doy + 1" "doy + 1 \<le> month_start (k + 1)"
    unfolding month_start_def by (simp_all only: div_less_iff_less_mult less_eq_div_iff_mult_less_eq zero_less_numeral)
  then show ?thesis by (intro exI [of _ k]) linarith
qed

lemma month_start_mono: "k \<le> j \<Longrightarrow> month_start k \<le> month_start j"
  unfolding month_start_def by (intro div_le_mono) simp

lemma next_month_day_in:
  assumes "k < 11" "month_start k \<le> doy" "doy < month_start (k + 1)"
  shows "next_month_day l (month_day doy) = (if k = 9 \<and> doy = 305 then 1 else 0, month_day (doy + 1))"
proof -
  have k: "k = 0 \<or> k = 1 \<or> k = 2 \<or> k = 3 \<or> k = 4 \<or> k = 5 \<or> k = 6 \<or> k = 7 \<or> k = 8 \<or> k = 9 \<or> k = 10"
    using assms(1) by presburger
  obtain j where doy: "doy = month_start k + j" using assms(2) le_Suc_ex by blast
  have today: "month_day doy = (month_of k, j + 1)" using month_day_in [OF assms(2,3)] by (simp add: doy)
  show ?thesis
  proof (cases "doy + 1 < month_start (k + 1)")
    case True
    then have "month_day (doy + 1) = (month_of k, j + 2)" using month_day_in [of k "doy + 1"] by (simp add: doy)
    then show ?thesis
      using k True by (elim disjE) (simp_all add: today next_month_day_def month_of_def, simp_all add: doy month_start_def)
  next
    case False
    then have last: "doy + 1 = month_start (k + 1)" using assms(3) by simp
    have "month_day (doy + 1) = (month_of (k + 1), 1)"
      using month_day_in [of "k + 1" "doy + 1"] k last by (elim disjE) (simp_all add: month_start_def)
    then show ?thesis
      using k last by (elim disjE) (simp_all add: today next_month_day_def month_of_def, simp_all add: doy month_start_def)
  qed
qed

lemma january: "doy < 367 \<Longrightarrow> fst (month_day doy) \<le> 2 \<longleftrightarrow> 306 \<le> doy"
proof -
  assume "doy < 367"
  obtain k where k: "month_start k \<le> doy" "doy < month_start (k + 1)" using month_exists by blast
  note d = month_day_in [OF k]
  consider "k \<le> 9" | "10 \<le> k" "k < 12" | "12 \<le> k" by linarith
  then show ?thesis
  proof cases
    case 1
    then show ?thesis using k(2) month_start_mono [of "k + 1" 10] by (simp add: d month_of_def month_start_def)
  next
    case 2
    then show ?thesis using k(1) month_start_mono [of 10 k] by (simp add: d month_of_def month_start_def)
  next
    case 3
    then show ?thesis using k(1) month_start_mono [of 12 k] \<open>doy < 367\<close> by (simp add: month_start_def)
  qed
qed

lemma february: "336 < doy \<Longrightarrow> doy < 367 \<Longrightarrow> month_day doy = (2, doy - 336)"
  using month_day_in [of 11 doy] by (simp add: month_start_def month_of_def)

lemma next_date:
  assumes "doy < year_len y"
  shows "next_day (date_of y doy) = (if doy + 1 < year_len y then date_of y (doy + 1) else date_of (y + 1) 0)"
proof -
  have less: "doy < 366" "\<not> leap (y + 1) \<Longrightarrow> doy < 365" using assms by (simp_all add: year_len_def split: if_splits)
  show ?thesis
  proof (cases "doy < 337")
    case True
    obtain k where k: "month_start k \<le> doy" "doy < month_start (k + 1)" using month_exists by blast
    have k11: "k < 11"
    proof (rule ccontr)
      assume "\<not> k < 11"
      then have "337 \<le> month_start k" using month_start_mono [of 11 k] by (simp add: month_start_def)
      then show False using k(1) True by simp
    qed
    have b: "doy + 1 < year_len y" using True by (simp add: year_len_def)
    show ?thesis
    proof (cases "doy = 305")
      case False
      then have "306 \<le> doy \<longleftrightarrow> 306 \<le> doy + 1" by linarith
      then show ?thesis
        using b False less(1) january [of doy] january [of "doy + 1"] next_month_day_in [OF k11 k, of "leap (fst (date_of y doy))"]
        by (simp add: date_of_def next_day_month)
    qed (use b in \<open>simp add: date_of_def next_day_month month_day_in [of 9] month_day_in [of 10] next_month_day_def month_start_def month_of_def\<close>)
  next
    case False
    then have "month_day doy = (2, doy - 336)" "month_day (doy + 1) = (2, doy + 1 - 336)"
      using less(1) february [of doy] february [of "doy + 1"] by linarith+
    moreover have "month_day 0 = (3, 1)" using month_day_in [of 0 0] by (simp add: month_start_def month_of_def)
    ultimately show ?thesis using False less
      by (auto simp: date_of_def next_day_month next_month_day_def year_len_def)
  qed
qed

text \<open>Counting days walks through the dates.\<close>

lemma date_after_year:
  "\<exists>y doy. date_after n = date_of y doy \<and> n + 719468 = year_start y + doy \<and> doy < year_len y"
proof (induction n)
  case 0
  have "date_after 0 = date_of 1969 306 \<and> 0 + 719468 = year_start 1969 + 306 \<and> 306 < year_len 1969" by (simp add: date_of_def month_day_def year_start_def year_len_def leap_def Let_def)
  then show ?case by blast
next
  case (Suc n)
  then obtain y doy where d: "date_after n = date_of y doy" "n + 719468 = year_start y + doy" "doy < year_len y" by blast
  show ?case
  proof (cases "doy + 1 < year_len y")
    case True
    then have "date_after (Suc n) = date_of y (doy + 1) \<and> Suc n + 719468 = year_start y + (doy + 1)"
      using d next_date [OF d(3)] by simp
    then show ?thesis using True by blast
  next
    case False
    then have "date_after (Suc n) = date_of (y + 1) 0 \<and> Suc n + 719468 = year_start (y + 1) + 0 \<and> 0 < year_len (y + 1)"
      using d next_date [OF d(3)] by (simp add: year_start_Suc) (simp add: year_len_def)
    then show ?thesis by blast
  qed
qed

subsection \<open>The algorithm\<close>

definition year_of_era :: "nat \<Rightarrow> nat" where
  "year_of_era doe = (doe - doe div 1460 + doe div 36524 - doe div 146096) div 365"

text \<open>
  A day of an era, in centuries, leap cycles and years: both corrections of the numerator are 0 or 1.
\<close>

lemma year_of_era_day:
  assumes "y < 400" "doy < year_len y"
  shows "year_of_era (year_start y + doy) = y"
proof -
  define c where "c = y div 100"
  define q where "q = (y mod 100) div 4"
  define s where "s = (y mod 100) mod 4"
  have y: "y = 100 * c + 4 * q + s" "c < 4" "q < 25" "s < 4"
    unfolding c_def q_def s_def using assms(1) by (simp_all add: add.assoc less_mult_imp_div_less)
  have quarter: "y div 4 = 25 * c + q" using y(4) unfolding y(1) by simp
  have start: "year_start y = 36524 * c + 1461 * q + 365 * s"
    using assms(1) by (simp add: year_start_def quarter c_def [symmetric]) (simp add: y(1))
  have last: "doy < 366" "doy = 365 \<Longrightarrow> s = 3 \<and> (q = 24 \<longrightarrow> c = 3)"
  proof -
    show "doy < 366" using assms(2) by (simp add: year_len_def split: if_splits)
    assume "doy = 365"
    then have "leap (y + 1)" using assms(2) by (simp add: year_len_def split: if_splits)
    then have "(y + 1) mod 4 = 0" "(y + 1) mod 100 \<noteq> 0 \<or> (y + 1) mod 400 = 0" by (simp_all add: leap_def)
    moreover have "y + 1 = (s + 1) + 4 * (25 * c + q)" using y(1) by simp
    ultimately have "(s + 1) mod 4 = 0" by (metis mod_mult_self2)
    then have s3: "s = 3" using y(4) by (cases "s = 3") auto
    moreover have "c = 3" if "q = 24"
    proof -
      have "y + 1 = 100 * (c + 1)" using y(1) s3 that by simp
      then have "100 * (c + 1) mod 400 = 0" using \<open>(y + 1) mod 100 \<noteq> 0 \<or> (y + 1) mod 400 = 0\<close> by simp
      then show ?thesis using y(2) by (cases "c = 3") auto
    qed
    ultimately show "s = 3 \<and> (q = 24 \<longrightarrow> c = 3)" by blast
  qed
  let ?doe = "year_start y + doy"
  let ?e = "if 24 * c + q + 365 * s + doy < 1460 then 0 else 1"
  let ?f = "if doy = 365 \<and> q = 24 then 1 else 0"
  have "?doe div 1460 = 25 * c + q + ?e"
    using y(2-4) last by (intro div_nat_eqI) (auto simp: start)
  moreover have "?doe div 36524 = c + ?f"
    using y(2-4) last by (intro div_nat_eqI) (auto simp: start)
  moreover have "?doe div 146096 = ?f"
    using y(2-4) last by (intro div_nat_eqI) (auto simp: start)
  moreover have "?e \<le> doy" using y(2-4) by (auto split: if_splits)
  ultimately have "?doe - ?doe div 1460 + ?doe div 36524 - ?doe div 146096 = 365 * y + (doy - ?e)"
    unfolding start using y(1) by simp
  moreover have "doy - ?e < 365" using last y(2-4) by (cases "doy = 365") auto
  ultimately show ?thesis unfolding year_of_era_def by simp
qed

lemma sdiv_nonneg: "0 \<le> a \<Longrightarrow> 0 < b \<Longrightarrow> a sdiv b = a div (b :: int)"
  by (cases "a = 0") (simp_all add: signed_divide_int_def)

lemma civil_of_year:
  assumes "n + 719468 = year_start y + doy" "doy < year_len y"
  shows "civil_from_days (int n) = (case date_of y doy of (y, m, d) \<Rightarrow> (int y, m, d))"
proof -
  define e r where "e = y div 400" and "r = y mod 400"
  have y: "y = 400 * e + r" "r < 400" by (simp_all add: e_def r_def)
  have doy: "doy < year_len r" using assms(2) by (simp add: year_len_def y(1) leap_era [of e "r + 1", simplified])
  have "year_start r + doy < 146097"
  proof -
    have step: "year_start x \<le> year_start (Suc x)" for x by (simp add: year_start_Suc)
    have "year_start r + year_len r = year_start (Suc r)" by (simp add: year_start_Suc)
    also have "... \<le> year_start 400"
      using y(2) by (intro lift_Suc_mono_le [of year_start, OF step]) simp
    finally show ?thesis using doy by (simp add: year_start_def)
  qed
  moreover have n: "n + 719468 = (year_start r + doy) + 146097 * e" using assms(1) by (simp add: y(1) year_start_era)
  ultimately have era: "(n + 719468) div 146097 = e" "(n + 719468) mod 146097 = year_start r + doy" by simp_all
  have "int n + 719468 = int (n + 719468)" by simp
  then have z: "(int n + 719468) sdiv 146097 = int e" "int n + 719468 - int e * 146097 = int (year_start r + doy)"
    using era(1) n by (simp_all add: sdiv_nonneg zdiv_int [symmetric])
  have nonneg: "0 \<le> int n + 719468" by simp
  have yoe: "(year_start r + doy - (year_start r + doy) div 1460 + (year_start r + doy) div 36524
      - (year_start r + doy) div 146096) div 365 = r"
    using year_of_era_day [OF y(2) doy] by (simp only: year_of_era_def)
  have day: "year_start r + doy - (365 * r + r div 4 - r div 100) = doy"
    using y(2) by (simp add: year_start_def)
  show ?thesis
    unfolding civil_from_days_def Let_def z if_P [OF nonneg] nat_int yoe day date_of_def month_day_def
    by (simp only: y(1) split: if_split) auto
qed

text \<open>
  C16: the date of a queue entry is the date of the calendar: for every number of days since the epoch
  the algorithm of the code yields the day that counting through the months of the Gregorian calendar
  from 1 January 1970 yields, leap years and centuries included.
\<close>

theorem civil_from_days_counts:
  "civil_from_days (int n) = (case date_after n of (y, m, d) \<Rightarrow> (int y, m, d))"
  using date_after_year [of n] civil_of_year by force

end
