(* ===== verification/ILinkGuard.thy ===== *)
theory ILinkGuard
  imports Prelude
begin

text \<open>
  The trust boundary of the iLink bridge (\<open>ilink/guard.rs\<close>): payload limits, the rate limit of a peer,
  the registry of interactive requests and the gate of inbound messages.  Instants and durations are
  nanoseconds; every read of the clock is an argument \<open>now\<close>, and \<open>duration_since\<close> saturates at zero.
\<close>

subsection \<open>Data\<close>

datatype rejection =
    UnauthorizedPeer
  | RateLimited nat
  | Oversize string
  | UnsupportedContent
  | NoWritableBinding
  | InteractionUnavailable
  | Duplicate

text \<open>The media references of a message do not matter to the guard.\<close>

datatype inbound_item =
    TextItem string
  | QuotedText string
  | Voice "string option"
  | Image
  | Video
  | File "string option"
  | Unsupported int

record inbound_message =
  im_peer :: string
  im_items :: "inbound_item list"

record inbound_limits =
  il_max_items :: nat
  il_max_text_chars :: nat
  il_max_media_bytes :: nat
  il_max_filename_chars :: nat
  il_max_mime_chars :: nat
  il_max_download_secs :: nat

definition default_limits :: inbound_limits where
  "default_limits = \<lparr>il_max_items = 8, il_max_text_chars = 8192, il_max_media_bytes = 10 * 1024 * 1024,
     il_max_filename_chars = 128, il_max_mime_chars = 64, il_max_download_secs = 30\<rparr>"

subsection \<open>Payload limits\<close>

fun has_dotdot :: "string \<Rightarrow> bool" where
  "has_dotdot (a # b # cs) = (a = CHR ''.'' \<and> b = CHR ''.'' \<or> has_dotdot (b # cs))"
| "has_dotdot _ = False"

definition plain_name :: "nat \<Rightarrow> string \<Rightarrow> bool" where
  "plain_name n name \<longleftrightarrow> \<not> (length name > n \<or> CHR ''/'' \<in> set name \<or> CHR 0x5C \<in> set name \<or> has_dotdot name)"

definition check_item :: "inbound_limits \<Rightarrow> inbound_item \<Rightarrow> rejection + unit" where
  "check_item l item = (case item of
     TextItem t \<Rightarrow> if length t > il_max_text_chars l then Inl (Oversize ''text'') else Inr ()
   | File (Some name) \<Rightarrow> if plain_name (il_max_filename_chars l) name then Inr () else Inl UnsupportedContent
   | _ \<Rightarrow> Inr ())"

fun check_items :: "inbound_limits \<Rightarrow> inbound_item list \<Rightarrow> rejection + unit" where
  "check_items l [] = Inr ()"
| "check_items l (item # items) = (case check_item l item of Inl e \<Rightarrow> Inl e | Inr _ \<Rightarrow> check_items l items)"

definition check_message :: "inbound_limits \<Rightarrow> inbound_message \<Rightarrow> rejection + unit" where
  "check_message l m = (if length (im_items m) > il_max_items l then Inl (Oversize ''item count'')
     else check_items l (im_items m))"

definition check_media_bytes :: "inbound_limits \<Rightarrow> nat \<Rightarrow> rejection + unit" where
  "check_media_bytes l n = (if n > il_max_media_bytes l then Inl (Oversize ''media'') else Inr ())"

definition mime_char :: "char \<Rightarrow> bool" where
  "mime_char c \<longleftrightarrow> (let n = of_char c :: nat in
     48 \<le> n \<and> n \<le> 57 \<or> 65 \<le> n \<and> n \<le> 90 \<or> 97 \<le> n \<and> n \<le> 122 \<or> c \<in> set ''/-.;=+_'')"

definition check_mime :: "inbound_limits \<Rightarrow> string \<Rightarrow> rejection + unit" where
  "check_mime l mime = (if length mime > il_max_mime_chars l \<or> \<not> list_all mime_char mime
     then Inl UnsupportedContent else Inr ())"

subsection \<open>The rate limit\<close>

text \<open>The open windows: how many actions a peer has used, and since when.\<close>

type_synonym peer = "string \<times> string"

record rate_limiter =
  rl_window :: nat
  rl_max :: nat
  rl_windows :: "peer \<Rightarrow> (nat \<times> nat) option"

definition new_limiter :: "nat \<Rightarrow> nat \<Rightarrow> rate_limiter" where
  "new_limiter max_per_window window = \<lparr>rl_window = window, rl_max = max_per_window, rl_windows = Map.empty\<rparr>"

definition retain_open :: "nat \<Rightarrow> nat \<Rightarrow> (peer \<Rightarrow> (nat \<times> nat) option) \<Rightarrow> peer \<Rightarrow> (nat \<times> nat) option" where
  "retain_open window now wins = (\<lambda>k. case wins k of None \<Rightarrow> None
     | Some (used, opened) \<Rightarrow> if now - opened < window then Some (used, opened) else None)"

definition rate_admit :: "nat \<Rightarrow> peer \<Rightarrow> rate_limiter \<Rightarrow> (rejection + unit) \<times> rate_limiter" where
  "rate_admit now k rl =
    (let wins = retain_open (rl_window rl) now (rl_windows rl);
         (used0, opened0) = (case wins k of None \<Rightarrow> (0, now) | Some e \<Rightarrow> e);
         (used, opened) = (if now - opened0 \<ge> rl_window rl then (0, now) else (used0, opened0)) in
     if used \<ge> rl_max rl
     then (Inl (RateLimited ((rl_window rl - (now - opened)) div 1000000)), rl\<lparr>rl_windows := wins(k \<mapsto> (used, opened))\<rparr>)
     else (Inr (), rl\<lparr>rl_windows := wins(k \<mapsto> (used + 1, opened))\<rparr>))"

subsection \<open>Interactive requests\<close>

record interaction =
  in_request :: string
  in_account :: string
  in_peer :: string
  in_kind :: string
  in_options :: "string list"
  in_expires_at :: nat
  in_resolved :: bool

definition new_interaction :: "string \<Rightarrow> string \<Rightarrow> string \<Rightarrow> string \<Rightarrow> string list \<Rightarrow> nat \<Rightarrow> nat \<Rightarrow> interaction" where
  "new_interaction r a p kind options ttl now = \<lparr>in_request = r, in_account = a, in_peer = p, in_kind = kind,
     in_options = options, in_expires_at = now + ttl, in_resolved = False\<rparr>"

text \<open>The pending requests under their identifiers, in no particular order.\<close>

type_synonym registry = "interaction list"

definition register :: "interaction \<Rightarrow> registry \<Rightarrow> registry" where
  "register i reg = delete_where (\<lambda>j. in_request j = in_request i) reg @ [i]"

definition resolve :: "nat \<Rightarrow> string \<Rightarrow> string \<Rightarrow> string \<Rightarrow> string \<Rightarrow> registry \<Rightarrow> (rejection + string) \<times> registry" where
  "resolve now a p r option reg = (case row_of in_request r reg of
     None \<Rightarrow> (Inl InteractionUnavailable, reg)
   | Some i \<Rightarrow>
       if in_account i \<noteq> a \<or> in_peer i \<noteq> p then (Inl InteractionUnavailable, reg)
       else if in_resolved i \<or> now > in_expires_at i then (Inl InteractionUnavailable, reg)
       else if option \<notin> set (in_options i) then (Inl InteractionUnavailable, reg)
       else (Inr option, update_where (\<lambda>j. in_request j = r) (\<lambda>j. j\<lparr>in_resolved := True\<rparr>) reg))"

definition advertised_options :: "string \<Rightarrow> registry \<Rightarrow> string list option" where
  "advertised_options r reg = map_option in_options (row_of in_request r reg)"

definition kind_of :: "string \<Rightarrow> registry \<Rightarrow> string option" where
  "kind_of r reg = map_option in_kind (row_of in_request r reg)"

definition reclaim_expired :: "nat \<Rightarrow> registry \<Rightarrow> nat \<times> registry" where
  "reclaim_expired now reg = (let kept = filter (\<lambda>i. \<not> in_resolved i \<and> now \<le> in_expires_at i) reg in
     (length reg - length kept, kept))"

definition pending_len :: "registry \<Rightarrow> nat" where
  "pending_len reg = length reg"

subsection \<open>The gate\<close>

record peer_gate =
  pg_limits :: inbound_limits
  pg_limiter :: rate_limiter
  pg_authorized :: "peer set"

definition new_gate :: "peer list \<Rightarrow> nat \<Rightarrow> nat \<Rightarrow> peer_gate" where
  "new_gate peers rate_limit window =
    \<lparr>pg_limits = default_limits, pg_limiter = new_limiter rate_limit window, pg_authorized = set peers\<rparr>"

definition authorize :: "string \<Rightarrow> string \<Rightarrow> peer_gate \<Rightarrow> peer_gate" where
  "authorize a p g = g\<lparr>pg_authorized := insert (a, p) (pg_authorized g)\<rparr>"

definition is_authorized :: "string \<Rightarrow> string \<Rightarrow> peer_gate \<Rightarrow> bool" where
  "is_authorized a p g \<longleftrightarrow> (a, p) \<in> pg_authorized g"

definition gate_admit :: "nat \<Rightarrow> string \<Rightarrow> inbound_message \<Rightarrow> peer_gate \<Rightarrow> (rejection + unit) \<times> peer_gate" where
  "gate_admit now a m g =
    (if \<not> is_authorized a (im_peer m) g then (Inl UnauthorizedPeer, g)
     else (case rate_admit now (a, im_peer m) (pg_limiter g) of
       (Inl e, rl) \<Rightarrow> (Inl e, g\<lparr>pg_limiter := rl\<rparr>)
     | (Inr _, rl) \<Rightarrow> (check_message (pg_limits g) m, g\<lparr>pg_limiter := rl\<rparr>)))"

subsection \<open>The rate is bounded\<close>

text \<open>The times at which the actions of one peer were admitted.\<close>

fun admitted :: "(nat \<times> peer) list \<Rightarrow> rate_limiter \<Rightarrow> (nat \<times> peer) list" where
  "admitted [] rl = []"
| "admitted ((now, k) # reqs) rl = (case rate_admit now k rl of
     (Inl _, rl1) \<Rightarrow> admitted reqs rl1 | (Inr _, rl1) \<Rightarrow> (now, k) # admitted reqs rl1)"

definition limiter_ok :: "rate_limiter \<Rightarrow> bool" where
  "limiter_ok rl \<longleftrightarrow> (\<forall>k used opened. rl_windows rl k = Some (used, opened) \<longrightarrow> used \<le> rl_max rl)"

text \<open>The window of the peer as the request finds it.\<close>

definition window_at :: "nat \<Rightarrow> peer \<Rightarrow> rate_limiter \<Rightarrow> nat \<times> nat" where
  "window_at now k rl = (case rl_windows rl k of None \<Rightarrow> (0, now)
     | Some (used, opened) \<Rightarrow> if now - opened < rl_window rl then (used, opened) else (0, now))"

lemma rate_admit_window:
  "rate_admit now k rl = (case window_at now k rl of (used, opened) \<Rightarrow>
     if used \<ge> rl_max rl
     then (Inl (RateLimited ((rl_window rl - (now - opened)) div 1000000)),
           rl\<lparr>rl_windows := (retain_open (rl_window rl) now (rl_windows rl))(k \<mapsto> (used, opened))\<rparr>)
     else (Inr (), rl\<lparr>rl_windows := (retain_open (rl_window rl) now (rl_windows rl))(k \<mapsto> (used + 1, opened))\<rparr>))"
  by (cases "rl_window rl = 0")
    (auto simp: rate_admit_def window_at_def retain_open_def Let_def split: option.splits prod.splits if_splits)

lemma rate_admit_keeps:
  assumes "limiter_ok rl"
  shows "limiter_ok (snd (rate_admit now k rl)) \<and> rl_max (snd (rate_admit now k rl)) = rl_max rl
    \<and> rl_window (snd (rate_admit now k rl)) = rl_window rl"
proof -
  have used: "rl_windows rl j = Some (used, opened) \<Longrightarrow> used \<le> rl_max rl" for j used opened
    using assms unfolding limiter_ok_def by blast
  then show ?thesis
    unfolding rate_admit_window
    by (auto simp: limiter_ok_def window_at_def retain_open_def split: option.splits prod.splits if_splits dest: used)
qed

text \<open>How many actions of a peer can still be admitted before the instant \<open>t + window\<close>, from \<open>t\<close> on.\<close>

definition allowance :: "nat \<Rightarrow> peer \<Rightarrow> rate_limiter \<Rightarrow> nat" where
  "allowance t k rl = (case rl_windows rl k of None \<Rightarrow> rl_max rl
     | Some (used, opened) \<Rightarrow> if t \<le> opened then rl_max rl - used else 2 * rl_max rl - used)"

abbreviation within :: "nat \<Rightarrow> nat \<Rightarrow> peer \<Rightarrow> (nat \<times> peer) list \<Rightarrow> nat" where
  "within t w k xs \<equiv> length (filter (\<lambda>(u, j). j = k \<and> t \<le> u \<and> u < t + w) xs)"

lemma admitted_Cons:
  "admitted ((now, k) # reqs) rl = (if isl (fst (rate_admit now k rl)) then [] else [(now, k)])
     @ admitted reqs (snd (rate_admit now k rl))"
  by (cases "rate_admit now k rl"; cases "fst (rate_admit now k rl)") simp_all

lemma admitted_subset: "set (admitted reqs rl) \<subseteq> set reqs"
proof (induction reqs arbitrary: rl)
  case (Cons x reqs)
  obtain now k where x: "x = (now, k)" by (cases x)
  show ?case using Cons [of "snd (rate_admit now k rl)"] unfolding x admitted_Cons by (auto split: if_splits)
qed simp

lemma allowance_spent:
  assumes ok: "limiter_ok rl" and "t \<le> now" "now < t + rl_window rl"
  shows "allowance t k (snd (rate_admit now j rl)) + (if j = k \<and> isl (fst (rate_admit now j rl)) = False then 1 else 0)
    \<le> allowance t k rl"
proof -
  have used: "used \<le> rl_max rl" if "rl_windows rl k = Some (used, opened)" for used opened
    using ok that unfolding limiter_ok_def by blast
  show ?thesis
  proof (cases "j = k")
  case True
  show ?thesis
    using used assms(2-) True unfolding rate_admit_window
    by (fastforce simp: allowance_def window_at_def split: option.splits prod.splits if_splits)
next
  case False
  then show ?thesis
    using used assms(2-) unfolding rate_admit_window
    by (fastforce simp: allowance_def retain_open_def split: option.splits prod.splits if_splits)
qed
qed

lemma within_allowance:
  "sorted (map fst reqs) \<Longrightarrow> \<forall>x\<in>set reqs. t \<le> fst x \<Longrightarrow> limiter_ok rl \<Longrightarrow> rl_window rl = w \<Longrightarrow>
   within t w k (admitted reqs rl) \<le> allowance t k rl"
proof (induction reqs arbitrary: rl)
  case (Cons x reqs)
  obtain now j where x: "x = (now, j)" by (cases x)
  let ?rl = "snd (rate_admit now j rl)"
  have keeps: "limiter_ok ?rl" "rl_window ?rl = w"
    using rate_admit_keeps [OF Cons.prems(3), of now j] Cons.prems(4) by auto
  have later: "\<forall>y\<in>set reqs. now \<le> fst y" using Cons.prems(1) x by auto
  have IH: "within t w k (admitted reqs ?rl) \<le> allowance t k ?rl"
    using Cons.IH [OF _ _ keeps] Cons.prems(1,2) by simp
  have adm: "admitted (x # reqs) rl = (if isl (fst (rate_admit now j rl)) then [] else [(now, j)]) @ admitted reqs ?rl"
    by (simp only: x admitted_Cons)
  show ?case
  proof (cases "now < t + w")
    case True
    have "allowance t k ?rl + (if j = k \<and> isl (fst (rate_admit now j rl)) = False then 1 else 0) \<le> allowance t k rl"
      by (rule allowance_spent [OF Cons.prems(3)]) (use True Cons.prems(2,4) x in auto)
    then show ?thesis using IH True unfolding adm by (auto split: if_splits)
  next
    case False
    have "\<forall>y\<in>set (admitted reqs ?rl). now \<le> fst y" using admitted_subset later by blast
    then have "filter (\<lambda>(u, j). j = k \<and> t \<le> u \<and> u < t + w) (admitted (x # reqs) rl) = []"
      using False unfolding adm by (force simp: filter_empty_conv)
    then show ?thesis by simp
  qed
qed simp

lemma allowance_bound: "allowance t k rl \<le> 2 * rl_max rl"
  by (auto simp: allowance_def split: option.splits)

lemma within_bound:
  "sorted (map fst reqs) \<Longrightarrow> limiter_ok rl \<Longrightarrow> rl_window rl = w \<Longrightarrow> rl_max rl = m \<Longrightarrow>
   within t w k (admitted reqs rl) \<le> 2 * m"
proof (induction reqs arbitrary: rl)
  case (Cons x reqs)
  show ?case
  proof (cases "t \<le> fst x")
    case True
    then have "\<forall>y\<in>set (x # reqs). t \<le> fst y" using Cons.prems(1) by auto
    from within_allowance [OF Cons.prems(1) this Cons.prems(2,3)] show ?thesis
      using allowance_bound [of t k rl] Cons.prems(4) by (meson le_trans)
  next
    case False
    obtain now j where x: "x = (now, j)" by (cases x)
    let ?rl = "snd (rate_admit now j rl)"
    have "within t w k (admitted (x # reqs) rl) = within t w k (admitted reqs ?rl)"
      using False unfolding x admitted_Cons by simp
    moreover have "within t w k (admitted reqs ?rl) \<le> 2 * m"
      by (rule Cons.IH) (use Cons.prems rate_admit_keeps [OF Cons.prems(2), of now j] in auto)
    ultimately show ?thesis by simp
  qed
qed simp

text \<open>
  C19: the rate limit holds whatever the peers do: in any sequence of requests, at most twice the
  configured number of actions of one peer is admitted in any span of time as long as the window, and
  no more than the configured number when the span begins with the first window of the peer.
\<close>

theorem rate_is_bounded:
  assumes "sorted (map fst reqs)"
  shows "within t w k (admitted reqs (new_limiter m w)) \<le> 2 * m
    \<and> ((\<forall>x\<in>set reqs. t \<le> fst x) \<longrightarrow> within t w k (admitted reqs (new_limiter m w)) \<le> m)"
proof -
  have ok: "limiter_ok (new_limiter m w)" "rl_window (new_limiter m w) = w" "rl_max (new_limiter m w) = m"
    by (simp_all add: limiter_ok_def new_limiter_def)
  have "allowance t k (new_limiter m w) = m" by (simp add: allowance_def new_limiter_def)
  then show ?thesis
    using within_bound [OF assms ok, where t = t and k = k] within_allowance [OF assms _ ok(1,2), where t = t and k = k] by simp
qed

definition burst :: "(nat \<times> peer) list" where
  "burst = [(0, (''a'', ''p'')), (9, (''a'', ''p'')), (9, (''a'', ''p'')), (10, (''a'', ''p'')), (11, (''a'', ''p'')), (12, (''a'', ''p''))]"

theorem rate_is_bounded_witness:
  "map fst (admitted burst (new_limiter 2 10)) = [0, 9, 10, 11]
   \<and> within 5 10 (''a'', ''p'') (admitted burst (new_limiter 2 10)) \<le> 2 * 2"
proof
  show "map fst (admitted burst (new_limiter 2 10)) = [0, 9, 10, 11]"
    by (simp add: burst_def rate_admit_window window_at_def retain_open_def new_limiter_def)
  show "within 5 10 (''a'', ''p'') (admitted burst (new_limiter 2 10)) \<le> 2 * 2"
    using rate_is_bounded [where reqs = burst and t = 5 and k = "(''a'', ''p'')" and m = 2 and w = 10] by (simp add: burst_def)
qed

subsection \<open>An answer counts once\<close>

datatype registry_op = DoRegister interaction | DoResolve nat string string string string | DoReclaim nat

fun registry_step :: "registry_op \<Rightarrow> registry \<Rightarrow> registry" where
  "registry_step (DoRegister i) reg = register i reg"
| "registry_step (DoResolve now a p r option) reg = snd (resolve now a p r option reg)"
| "registry_step (DoReclaim now) reg = snd (reclaim_expired now reg)"

text \<open>Every entry of the request is answered.\<close>

definition spent :: "string \<Rightarrow> registry \<Rightarrow> bool" where
  "spent r reg \<longleftrightarrow> (\<forall>i\<in>set reg. in_request i = r \<longrightarrow> in_resolved i)"

lemma spent_step: "spent r reg \<Longrightarrow> (\<And>i. op = DoRegister i \<Longrightarrow> in_request i \<noteq> r) \<Longrightarrow> spent r (registry_step op reg)"
  by (cases op) (auto simp: spent_def register_def delete_where_def resolve_def update_where_def reclaim_expired_def Let_def
      split: option.splits if_splits)

lemma spent_steps:
  "spent r reg \<Longrightarrow> \<forall>i. DoRegister i \<in> set ops \<longrightarrow> in_request i \<noteq> r \<Longrightarrow> spent r (fold registry_step ops reg)"
proof (induction ops arbitrary: reg)
  case (Cons op ops)
  then show ?case using spent_step [of r reg op] by simp
qed simp

lemma resolve_spent: "spent r reg \<Longrightarrow> resolve now a p r option reg = (Inl InteractionUnavailable, reg)"
  using row_of_SomeD [of in_request r reg] by (auto simp: resolve_def spent_def split: option.splits)

text \<open>
  C39: an interactive request is answered at most once, and only rightly: an answer is accepted only from
  the account and peer the request was made to, in time, with one of the options it advertised; from
  then on every further answer to the request is refused without effect, whatever else is registered,
  answered or reclaimed in between, until a request is registered under the same identifier again.
\<close>

theorem interaction_answered_once:
  assumes "resolve now a p r option reg = (Inr chosen, reg')"
    and "\<forall>i. DoRegister i \<in> set ops \<longrightarrow> in_request i \<noteq> r"
  shows "chosen = option
    \<and> (\<exists>i\<in>set reg. in_request i = r \<and> in_account i = a \<and> in_peer i = p \<and> option \<in> set (in_options i)
         \<and> now \<le> in_expires_at i \<and> \<not> in_resolved i)
    \<and> resolve now' a' p' r option' (fold registry_step ops reg')
        = (Inl InteractionUnavailable, fold registry_step ops reg')"
proof -
  obtain i where i: "row_of in_request r reg = Some i" "in_account i = a" "in_peer i = p" "\<not> in_resolved i" "now \<le> in_expires_at i"
      "option \<in> set (in_options i)" "chosen = option"
      "reg' = update_where (\<lambda>j. in_request j = r) (\<lambda>j. j\<lparr>in_resolved := True\<rparr>) reg"
    using assms(1) by (auto simp: resolve_def split: option.splits if_splits)
  have "spent r reg'" unfolding i(8) spent_def ball_update_where by simp
  from resolve_spent [OF spent_steps [OF this assms(2)]] show ?thesis
    using i(2-7) row_of_SomeD [OF i(1)] by simp metis
qed

definition asked :: registry where
  "asked = register (new_interaction ''r'' ''a'' ''p'' ''permission'' [''allow'', ''deny''] 100 0) []"

theorem interaction_answered_once_witness:
  "fst (resolve 5 ''a'' ''p'' ''r'' ''allow'' asked) = Inr ''allow''
   \<and> fst (resolve 5 ''a'' ''q'' ''r'' ''allow'' asked) = Inl InteractionUnavailable
   \<and> fst (resolve 7 ''a'' ''p'' ''r'' ''deny'' (registry_step (DoReclaim 6) (snd (resolve 5 ''a'' ''p'' ''r'' ''allow'' asked))))
      = Inl InteractionUnavailable"
proof -
  have first: "resolve 5 ''a'' ''p'' ''r'' ''allow'' asked
      = (Inr ''allow'', [(new_interaction ''r'' ''a'' ''p'' ''permission'' [''allow'', ''deny''] 100 0)\<lparr>in_resolved := True\<rparr>])"
    by (simp add: asked_def register_def delete_where_def resolve_def row_of_def new_interaction_def update_where_def)
  have "fst (resolve 5 ''a'' ''q'' ''r'' ''allow'' asked) = Inl InteractionUnavailable"
    by (simp add: asked_def register_def delete_where_def resolve_def row_of_def new_interaction_def)
  then show ?thesis using interaction_answered_once [OF first, of "[DoReclaim 6]"] first by simp
qed

subsection \<open>What passes the gate\<close>

lemma check_items_ok: "check_items l items = Inr () \<longleftrightarrow> (\<forall>item\<in>set items. check_item l item = Inr ())"
  by (induction items) (auto split: sum.splits)

lemma has_dotdot_iff: "has_dotdot s \<longleftrightarrow> (\<exists>u v. s = u @ ''..'' @ v)"
proof
  show "has_dotdot s \<Longrightarrow> \<exists>u v. s = u @ ''..'' @ v"
  proof (induction s rule: has_dotdot.induct)
    case (1 a b cs)
    show ?case
    proof (cases "a = CHR ''.'' \<and> b = CHR ''.''")
      case True
      then have "a # b # cs = [] @ ''..'' @ cs" by simp
      then show ?thesis by blast
    next
      case False
      then obtain u v where "b # cs = u @ ''..'' @ v" using 1 by auto
      then have "a # b # cs = (a # u) @ ''..'' @ v" by simp
      then show ?thesis by blast
    qed
  qed simp_all
next
  have "has_dotdot (u @ ''..'' @ v)" for u v
  proof (induction u)
    case (Cons a u)
    then show ?case by (cases "u @ ''..'' @ v") (auto simp del: append_assoc)
  qed simp
  then show "\<exists>u v. s = u @ ''..'' @ v \<Longrightarrow> has_dotdot s" by blast
qed

text \<open>
  C40: an inbound message passes the gate only when its sender is authorized and has an action left in
  its window, which the message uses up, when it has no more items than allowed, no longer text, and
  only plain file names: no separator, no parent reference, bounded.  An unauthorized sender changes
  nothing.  The length of a quotation, though, is never checked.
\<close>

theorem gate_admits_only:
  assumes "gate_admit now a m g = (Inr (), g')"
  shows "(a, im_peer m) \<in> pg_authorized g \<and> pg_authorized g' = pg_authorized g
    \<and> fst (window_at now (a, im_peer m) (pg_limiter g)) < rl_max (pg_limiter g)
    \<and> rl_windows (pg_limiter g') (a, im_peer m) = (case window_at now (a, im_peer m) (pg_limiter g) of (n, t) \<Rightarrow> Some (n + 1, t))
    \<and> length (im_items m) \<le> il_max_items (pg_limits g)
    \<and> (\<forall>t. TextItem t \<in> set (im_items m) \<longrightarrow> length t \<le> il_max_text_chars (pg_limits g))
    \<and> (\<forall>name. File (Some name) \<in> set (im_items m) \<longrightarrow> length name \<le> il_max_filename_chars (pg_limits g)
         \<and> CHR ''/'' \<notin> set name \<and> CHR 0x5C \<notin> set name \<and> \<not> (\<exists>u v. name = u @ ''..'' @ v))
    \<and> ((a, p) \<notin> pg_authorized g \<longrightarrow> gate_admit now a \<lparr>im_peer = p, im_items = items\<rparr> g = (Inl UnauthorizedPeer, g))
    \<and> check_message default_limits \<lparr>im_peer = p, im_items = [QuotedText long]\<rparr> = Inr ()"
proof -
  obtain n t where w: "window_at now (a, im_peer m) (pg_limiter g) = (n, t)" by (cases "window_at now (a, im_peer m) (pg_limiter g)")
  have auth: "is_authorized a (im_peer m) g" using assms by (auto simp: gate_admit_def split: if_splits)
  have less: "n < rl_max (pg_limiter g)"
    using assms auth by (auto simp: gate_admit_def rate_admit_window w split: if_splits)
  then have msg: "check_message (pg_limits g) m = Inr ()"
      "g' = g\<lparr>pg_limiter := (pg_limiter g)\<lparr>rl_windows := (retain_open (rl_window (pg_limiter g)) now (rl_windows (pg_limiter g)))
          ((a, im_peer m) \<mapsto> (n + 1, t))\<rparr>\<rparr>"
    using assms auth by (simp_all add: gate_admit_def rate_admit_window w)
  then have items: "length (im_items m) \<le> il_max_items (pg_limits g)" "\<forall>item\<in>set (im_items m). check_item (pg_limits g) item = Inr ()"
    by (simp_all add: check_message_def check_items_ok split: if_splits)
  have texts: "length u \<le> il_max_text_chars (pg_limits g)" if "TextItem u \<in> set (im_items m)" for u
    using bspec [OF items(2) that] by (simp add: check_item_def split: if_splits)
  have names: "length u \<le> il_max_filename_chars (pg_limits g) \<and> CHR ''/'' \<notin> set u \<and> CHR 0x5C \<notin> set u \<and> \<not> (\<exists>x y. u = x @ ''..'' @ y)"
    if "File (Some u) \<in> set (im_items m)" for u
    using bspec [OF items(2) that] by (simp add: check_item_def plain_name_def has_dotdot_iff split: if_splits)
  have "check_message default_limits \<lparr>im_peer = p, im_items = [QuotedText long]\<rparr> = Inr ()"
    by (simp add: check_message_def default_limits_def check_item_def)
  moreover have "(a, p) \<notin> pg_authorized g \<longrightarrow> gate_admit now a \<lparr>im_peer = p, im_items = items\<rparr> g = (Inl UnauthorizedPeer, g)"
    by (simp add: gate_admit_def is_authorized_def)
  ultimately show ?thesis
    using auth less items(1) texts names by (simp add: msg(2) is_authorized_def w)
qed

theorem gate_admits_only_witness:
  "\<exists>g'. gate_admit 0 ''a'' \<lparr>im_peer = ''p'', im_items = [TextItem ''hi'', File (Some ''plot.png'')]\<rparr>
          (new_gate [(''a'', ''p'')] 1 60) = (Inr (), g')
     \<and> rl_windows (pg_limiter g') (''a'', ''p'') = Some (1, 0)"
proof -
  let ?m = "\<lparr>im_peer = ''p'', im_items = [TextItem ''hi'', File (Some ''plot.png'')]\<rparr>"
  let ?g = "new_gate [(''a'', ''p'')] 1 60"
  have w: "window_at 0 (''a'', ''p'') (pg_limiter ?g) = (0, 0)" by (simp add: window_at_def new_gate_def new_limiter_def)
  have "fst (gate_admit 0 ''a'' ?m ?g) = Inr ()"
    using w by (simp add: gate_admit_def rate_admit_window is_authorized_def)
      (simp add: new_gate_def new_limiter_def check_message_def default_limits_def check_item_def plain_name_def)
  then obtain g' where "gate_admit 0 ''a'' ?m ?g = (Inr (), g')" by (cases "gate_admit 0 ''a'' ?m ?g") simp
  with gate_admits_only [OF this] w show ?thesis by simp
qed

end
