(* ===== verification/Spec2Isabelle.thy ===== *)
theory Spec2Isabelle
  imports TeamProperties TeamHazards ExperimentDelivery ExperimentAdmission AgentHistory AgentCalendar ILinkGuard
begin

text \<open>
  Verification development of the Kubecode server (\<open>src/server/src\<close>).
\<close>

end
